(* ===== verification/Prelude.thy ===== *)
theory Prelude
  imports Main "HOL-Library.Word"
begin

text \<open>
  Shared vocabulary of the development: the machine types of the program (Rust's
  unsigned integers and alloy's fixed-size words), the \<open>Result\<close> type with its
  constructors \<open>Ok\<close> and \<open>Err\<close>, computations that may panic, the integer
  ranges the loops run over, and the generic lemmas on lists, options, results and
  words that the component theories use.

  The crate is built with Cargo's \<open>release\<close> profile (Makefile line 17, Cargo.toml
  \<open>[profile.release]\<close>), which does not enable overflow checks: \<open>+\<close>, \<open>-\<close> and
  \<open>*\<close> on unsigned integers wrap around, as they do on HOL words. What panics in
  that profile (\<open>unwrap\<close> on an absent value, a slice or \<open>drain\<close> out of range,
  \<open>unreachable!\<close>, \<open>panic!\<close>) is the value \<open>Panics\<close> of the type \<open>run\<close>, and a
  loop that never ends is its value \<open>Diverges\<close>.
\<close>

section \<open>Machine types\<close>

type_synonym u8 = "8 word"
type_synonym u64 = "64 word"
type_synonym u128 = "128 word"
type_synonym u256 = "256 word"
type_synonym b64 = "64 word"
type_synonym b256 = "256 word"
type_synonym address = "160 word"
type_synonym bloom = "2048 word"
type_synonym bytes = "u8 list"

named_theorems run_simps \<open>rewrite rules for computations that may panic\<close>
named_theorems res_simps \<open>rewrite rules for results\<close>
named_theorems u64_simps \<open>reading 64-bit arithmetic as natural-number arithmetic\<close>

section \<open>Results\<close>

type_synonym ('a, 'e) result = "'e + 'a"

abbreviation Ok :: "'a \<Rightarrow> ('a, 'e) result" where
  "Ok \<equiv> Inr"

abbreviation Err :: "'e \<Rightarrow> ('a, 'e) result" where
  "Err \<equiv> Inl"

definition res_bind :: "('a, 'e) result \<Rightarrow> ('a \<Rightarrow> ('b, 'e) result) \<Rightarrow> ('b, 'e) result" where
  "res_bind r f = (case r of Err e \<Rightarrow> Err e | Ok a \<Rightarrow> f a)"

lemma res_bind_Ok [simp, res_simps]: "res_bind (Ok a) f = f a"
  by (simp add: res_bind_def)

lemma res_bind_Err [simp, res_simps]: "res_bind (Err e) f = Err e"
  by (simp add: res_bind_def)

lemma res_bind_eq_Ok_iff: "res_bind r f = Ok b \<longleftrightarrow> (\<exists>a. r = Ok a \<and> f a = Ok b)"
  by (cases r) simp_all

definition res_map_err :: "('e \<Rightarrow> 'f) \<Rightarrow> ('a, 'e) result \<Rightarrow> ('a, 'f) result" where
  "res_map_err g r = (case r of Err e \<Rightarrow> Err (g e) | Ok a \<Rightarrow> Ok a)"

lemma res_map_err_simps [simp, res_simps]:
  "res_map_err g (Ok a) = Ok a" "res_map_err g (Err e) = Err (g e)"
  by (simp_all add: res_map_err_def)

text \<open>\<open>Result::ok\<close> and \<open>Option::ok_or\<close>.\<close>

definition res_ok :: "('a, 'e) result \<Rightarrow> 'a option" where
  "res_ok r = (case r of Err _ \<Rightarrow> None | Ok a \<Rightarrow> Some a)"

definition ok_or :: "'a option \<Rightarrow> 'e \<Rightarrow> ('a, 'e) result" where
  "ok_or x e = (case x of None \<Rightarrow> Err e | Some a \<Rightarrow> Ok a)"

lemma res_ok_simps [simp, res_simps]: "res_ok (Ok a) = Some a" "res_ok (Err e) = None"
  by (simp_all add: res_ok_def)

lemma ok_or_simps [simp, res_simps]: "ok_or (Some a) e = Ok a" "ok_or None e = Err e"
  by (simp_all add: ok_or_def)

text \<open>Collecting an iterator of results into a result of a vector: the first error wins.\<close>

fun collect_results :: "('a, 'e) result list \<Rightarrow> ('a list, 'e) result" where
  "collect_results [] = Ok []"
| "collect_results (Err e # rs) = Err e"
| "collect_results (Ok a # rs) = (case collect_results rs of Err e \<Rightarrow> Err e | Ok xs \<Rightarrow> Ok (a # xs))"

lemma collect_results_map_Ok [simp, res_simps]: "collect_results (map Ok xs) = Ok xs"
  by (induction xs) simp_all

lemma collect_results_Ok_iff: "collect_results rs = Ok xs \<longleftrightarrow> rs = map Ok xs"
proof
  show "collect_results rs = Ok xs \<Longrightarrow> rs = map Ok xs"
    by (induction rs arbitrary: xs rule: collect_results.induct) (auto split: sum.splits)
qed simp

lemma collect_results_map_Ok_comp:
  assumes "\<And>x. x \<in> set xs \<Longrightarrow> f x = Ok (g x)"
  shows "collect_results (map f xs) = Ok (map g xs)"
proof -
  have "map f xs = map Ok (map g xs)"
    using assms by simp
  then show ?thesis by (metis collect_results_map_Ok)
qed

lemma collect_results_Err_iff:
  "(\<exists>e. collect_results rs = Err e) \<longleftrightarrow> (\<exists>e. Err e \<in> set rs)"
  by (induction rs rule: collect_results.induct) (auto split: sum.splits)

section \<open>Computations that may panic\<close>

datatype 'a run = Returns 'a | Panics | Diverges

definition run_bind :: "'a run \<Rightarrow> ('a \<Rightarrow> 'b run) \<Rightarrow> 'b run" where
  "run_bind m f = (case m of Returns a \<Rightarrow> f a | Panics \<Rightarrow> Panics | Diverges \<Rightarrow> Diverges)"

lemma run_bind_simps [simp, run_simps]:
  "run_bind (Returns a) f = f a" "run_bind Panics f = Panics" "run_bind Diverges f = Diverges"
  by (simp_all add: run_bind_def)

lemma run_bind_eq_Returns_iff: "run_bind m f = Returns b \<longleftrightarrow> (\<exists>a. m = Returns a \<and> f a = Returns b)"
  by (cases m) simp_all

text \<open>\<open>Option::unwrap\<close> and \<open>Result::unwrap\<close>.\<close>

definition unwrap :: "'a option \<Rightarrow> 'a run" where
  "unwrap x = (case x of None \<Rightarrow> Panics | Some a \<Rightarrow> Returns a)"

definition unwrap_res :: "('a, 'e) result \<Rightarrow> 'a run" where
  "unwrap_res r = (case r of Err _ \<Rightarrow> Panics | Ok a \<Rightarrow> Returns a)"

lemma unwrap_simps [simp, run_simps]: "unwrap (Some a) = Returns a" "unwrap None = Panics"
  by (simp_all add: unwrap_def)

lemma unwrap_res_simps [simp, run_simps]: "unwrap_res (Ok a) = Returns a" "unwrap_res (Err e) = Panics"
  by (simp_all add: unwrap_res_def)

fun run_list :: "'a run list \<Rightarrow> 'a list run" where
  "run_list [] = Returns []"
| "run_list (m # ms) = run_bind m (\<lambda>a. run_bind (run_list ms) (\<lambda>as. Returns (a # as)))"

lemma run_list_Returns_iff: "run_list ms = Returns xs \<longleftrightarrow> ms = map Returns xs"
  by (induction ms arbitrary: xs) (auto simp: run_bind_eq_Returns_iff)

lemma run_list_map_Returns [simp, run_simps]: "run_list (map Returns xs) = Returns xs"
  by (simp add: run_list_Returns_iff)

lemma run_list_map_Returns_comp:
  assumes "\<And>x. x \<in> set xs \<Longrightarrow> f x = Returns (g x)"
  shows "run_list (map f xs) = Returns (map g xs)"
proof -
  have "map f xs = map Returns (map g xs)"
    using assms by simp
  then show ?thesis by (metis run_list_map_Returns)
qed

text \<open>
  An iterator's \<open>map\<close> with a function that also reads and writes a shared state: the
  elements are visited in order, and the first panic or divergence ends it.
\<close>

fun run_map_state :: "('a \<Rightarrow> 's \<Rightarrow> ('b \<times> 's) run) \<Rightarrow> 'a list \<Rightarrow> 's \<Rightarrow> ('b list \<times> 's) run" where
  "run_map_state f [] s = Returns ([], s)"
| "run_map_state f (x # xs) s =
     run_bind (f x s) (\<lambda>(y, s'). run_bind (run_map_state f xs s') (\<lambda>(ys, s''). Returns (y # ys, s'')))"

lemma run_map_state_length:
  "run_map_state f xs s = Returns (ys, s') \<Longrightarrow> length ys = length xs"
  by (induction xs arbitrary: s ys s') (auto simp: run_bind_eq_Returns_iff)

lemma run_map_state_list_all2:
  assumes "run_map_state f xs s = Returns (ys, s')"
    and "\<And>x t y t'. x \<in> set xs \<Longrightarrow> f x t = Returns (y, t') \<Longrightarrow> R x y"
  shows "list_all2 R xs ys"
  using assms by (induction xs arbitrary: s ys s') (fastforce simp: run_bind_eq_Returns_iff)+

lemma run_map_state_append:
  "run_map_state f (xs @ zs) s =
     run_bind (run_map_state f xs s) (\<lambda>(ys, s'). run_bind (run_map_state f zs s')
       (\<lambda>(ws, s''). Returns (ys @ ws, s'')))"
proof (induction xs arbitrary: s)
  case Nil
  show ?case by (cases "run_map_state f zs s") auto
next
  case (Cons x xs)
  show ?case
  proof (cases "f x s")
    case (Returns r)
    then show ?thesis
      by (cases "run_map_state f xs (snd r)"; cases "run_map_state f zs (snd (case run_map_state f xs (snd r) of Returns q \<Rightarrow> q))")
        (auto simp: Cons.IH split: prod.splits)
  qed simp_all
qed

text \<open>A loop over a list whose body may panic.\<close>

fun run_fold :: "('a \<Rightarrow> 's \<Rightarrow> 's run) \<Rightarrow> 'a list \<Rightarrow> 's \<Rightarrow> 's run" where
  "run_fold f [] s = Returns s"
| "run_fold f (x # xs) s = run_bind (f x s) (run_fold f xs)"

lemma run_fold_invariant:
  assumes "run_fold f xs s = Returns s'" "P s"
    and "\<And>x t t'. x \<in> set xs \<Longrightarrow> P t \<Longrightarrow> f x t = Returns t' \<Longrightarrow> P t'"
  shows "P s'"
  using assms by (induction xs arbitrary: s) (auto simp: run_bind_eq_Returns_iff)

lemma run_fold_total:
  assumes "P s" "\<And>x t. x \<in> set xs \<Longrightarrow> P t \<Longrightarrow> \<exists>t'. f x t = Returns t' \<and> P t'"
  shows "\<exists>s'. run_fold f xs s = Returns s' \<and> P s'"
  using assms
proof (induction xs arbitrary: s)
  case (Cons x xs)
  then obtain t where "f x s = Returns t" "P t" by (metis list.set_intros(1))
  with Cons show ?case by (metis list.set_intros(2) run_bind_simps(1) run_fold.simps(2))
qed simp

section \<open>Unsigned integers\<close>

definition u64_max :: u64 where
  "u64_max = 18446744073709551615"

lemma unat_u64_max [simp, u64_simps]: "unat u64_max = 2 ^ 64 - 1"
  by (simp add: u64_max_def)

lemma unat_u64_less: "unat (x :: u64) < 2 ^ 64"
  using unsigned_less [of x] by simp

lemma unat_u8_less: "unat (x :: u8) < 256"
  by (rule order_less_le_trans [OF unsigned_less]) simp

text \<open>\<open>u64::saturating_sub\<close>.\<close>

definition saturating_sub :: "'w::len word \<Rightarrow> 'w word \<Rightarrow> 'w word" where
  "saturating_sub a b = (if b \<le> a then a - b else 0)"

lemma unat_saturating_sub [simp, u64_simps]: "unat (saturating_sub a b) = unat a - unat b"
  by (simp add: saturating_sub_def unat_sub word_le_nat_alt)

lemma unat_add_no_wrap:
  fixes a b :: u64
  assumes "unat a + unat b < 2 ^ 64"
  shows "unat (a + b) = unat a + unat b"
  using assms by (simp add: unat_word_ariths)

lemma unat_Suc_no_wrap:
  fixes a :: u64
  assumes "unat a < 2 ^ 64 - 1"
  shows "unat (a + 1) = Suc (unat a)"
  using assms unat_add_no_wrap [of a 1] by simp

lemma unat_sub_no_wrap:
  fixes a b :: u64
  assumes "unat b \<le> unat a"
  shows "unat (a - b) = unat a - unat b"
  using assms by (simp add: unat_sub word_le_nat_alt)

lemma unat_of_nat_u64 [u64_simps]:
  assumes "n < 2 ^ 64"
  shows "unat (of_nat n :: u64) = n"
  using assms by (simp add: unat_of_nat)

lemma u64_eq_iff: "(a :: u64) = b \<longleftrightarrow> unat a = unat b"
  by (simp add: word_unat_eq_iff)

text \<open>The ranges \<open>a..b\<close> and \<open>a..=b\<close> of \<open>u64\<close>.\<close>

definition range_u64 :: "u64 \<Rightarrow> u64 \<Rightarrow> u64 list" where
  "range_u64 a b = map of_nat [unat a ..< unat b]"

definition range_incl_u64 :: "u64 \<Rightarrow> u64 \<Rightarrow> u64 list" where
  "range_incl_u64 a b = map of_nat [unat a ..< Suc (unat b)]"

lemma length_range_u64 [simp]: "length (range_u64 a b) = unat b - unat a"
  by (simp add: range_u64_def)

lemma length_range_incl_u64 [simp]: "length (range_incl_u64 a b) = Suc (unat b) - unat a"
  by (simp add: range_incl_u64_def del: upt_Suc)

lemma unat_of_nat_upt_u64:
  assumes "n \<le> 2 ^ 64"
  shows "map unat (map of_nat [m ..< n] :: u64 list) = [m ..< n]"
proof -
  have "unat (of_nat k :: u64) = k" if "k \<in> set [m ..< n]" for k
    using that assms by (intro unat_of_nat_u64) auto
  then have "map (unat \<circ> (of_nat :: nat \<Rightarrow> u64)) [m ..< n] = map id [m ..< n]"
    by (intro map_cong) simp_all
  then show ?thesis by simp
qed

lemma map_unat_range_u64: "map unat (range_u64 a b) = [unat a ..< unat b]"
  using unat_of_nat_upt_u64 [of "unat b" "unat a"] unat_u64_less [of b] by (simp add: range_u64_def)

lemma map_unat_range_incl_u64: "map unat (range_incl_u64 a b) = [unat a ..< Suc (unat b)]"
  using unat_of_nat_upt_u64 [of "Suc (unat b)" "unat a"] unat_u64_less [of b]
  by (simp add: range_incl_u64_def del: upt_Suc)

lemma set_range_u64: "x \<in> set (range_u64 a b) \<longleftrightarrow> a \<le> x \<and> x < b"
proof -
  have "x \<in> set (range_u64 a b) \<longleftrightarrow> unat x \<in> set (map unat (range_u64 a b))"
    by (auto dest: unsigned_word_eqI)
  then show ?thesis by (simp add: map_unat_range_u64 word_le_nat_alt word_less_nat_alt)
qed

lemma set_range_incl_u64: "x \<in> set (range_incl_u64 a b) \<longleftrightarrow> a \<le> x \<and> x \<le> b"
proof -
  have "x \<in> set (range_incl_u64 a b) \<longleftrightarrow> unat x \<in> set (map unat (range_incl_u64 a b))"
    by (auto dest: unsigned_word_eqI)
  then show ?thesis
    by (auto simp: map_unat_range_incl_u64 word_le_nat_alt simp del: upt_Suc)
qed

lemma distinct_range_u64: "distinct (range_u64 a b)"
proof -
  have "distinct (map unat (range_u64 a b))" by (simp add: map_unat_range_u64)
  then show ?thesis by (simp add: distinct_map)
qed

lemma distinct_range_incl_u64: "distinct (range_incl_u64 a b)"
proof -
  have "distinct (map unat (range_incl_u64 a b))"
    by (simp add: map_unat_range_incl_u64 del: upt_Suc)
  then show ?thesis by (simp add: distinct_map)
qed

section \<open>Lists\<close>

text \<open>
  The program marks the system transactions of a block by a predicate and relies on
  their standing before every other transaction. \<open>prefix_closed P xs\<close> says so.
\<close>

fun prefix_closed :: "('a \<Rightarrow> bool) \<Rightarrow> 'a list \<Rightarrow> bool" where
  "prefix_closed P [] = True"
| "prefix_closed P (x # xs) = (if P x then prefix_closed P xs else list_all (\<lambda>y. \<not> P y) xs)"

lemma prefix_closed_filter_eq: "prefix_closed P xs \<Longrightarrow> filter P xs = takeWhile P xs"
  by (induction xs) (auto simp: list_all_iff filter_empty_conv)

lemma prefix_closed_filter_not_eq: "prefix_closed P xs \<Longrightarrow> filter (\<lambda>x. \<not> P x) xs = dropWhile P xs"
  by (induction xs) (auto simp: list_all_iff filter_id_conv)

lemma prefix_closed_append:
  "list_all P xs \<Longrightarrow> list_all (\<lambda>y. \<not> P y) ys \<Longrightarrow> prefix_closed P (xs @ ys)"
  by (induction xs) (auto, cases ys, auto)

lemma prefix_closed_drop:
  "prefix_closed P xs \<Longrightarrow> drop (length (filter P xs)) xs = filter (\<lambda>x. \<not> P x) xs"
  by (simp add: prefix_closed_filter_eq prefix_closed_filter_not_eq dropWhile_eq_drop)

lemma prefix_closed_nth:
  "prefix_closed P xs \<Longrightarrow> i < length xs \<Longrightarrow> P (xs ! i) \<longleftrightarrow> i < length (filter P xs)"
proof (induction xs arbitrary: i)
  case Nil
  then show ?case by simp
next
  case (Cons x xs)
  show ?case
  proof (cases "P x")
    case True
    with Cons show ?thesis by (cases i) auto
  next
    case False
    with Cons.prems have none: "\<forall>y \<in> set xs. \<not> P y"
      by (simp add: list_all_iff)
    then have "filter P xs = []" by (simp add: filter_empty_conv)
    with False none Cons.prems(2) show ?thesis
      by (cases i) auto
  qed
qed

lemma prefix_closed_map: "prefix_closed P (map f xs) \<longleftrightarrow> prefix_closed (P \<circ> f) xs"
  by (induction xs) (auto simp: list_all_iff)

text \<open>\<open>Iterator::enumerate\<close>.\<close>

lemma enumerate_append_single: "enumerate n (xs @ [x]) = enumerate n xs @ [(n + length xs, x)]"
  by (induction xs arbitrary: n) simp_all

lemma find_append: "find P (xs @ ys) = (case find P xs of None \<Rightarrow> find P ys | Some x \<Rightarrow> Some x)"
  by (induction xs) simp_all

end
