(* ===== verification/Consensus_Head.thy ===== *)
theory Consensus_Head
  imports Prelude
begin

text \<open>
  Head selection (\<open>src/src/consensus.rs\<close>): \<open>HlConsensus::canonical_head\<close> compares an
  incoming block with the head the provider reports and picks the next head hash: the
  higher block number wins, and between two blocks of one height the lower hash.

  The provider (\<open>BlockNumReader\<close> of reth) is an argument: what it answers for the best
  block number and for a block hash, either of which may be an error. \<open>B256\<close> values are
  256-bit words; alloy orders them byte by byte from the most significant one, which is
  the order of the words as numbers.
\<close>

datatype 'p hl_consensus_err = Provider 'p | HeadHashNotFound

record 'p provider =
  best_block_number :: "(u64, 'p) result"
  block_hash :: "u64 \<Rightarrow> (b256 option, 'p) result"

definition canonical_head ::
  "'p provider \<Rightarrow> b256 \<Rightarrow> u64 \<Rightarrow> (b256 \<times> b256, 'p hl_consensus_err) result" where
  "canonical_head provider hash number =
     res_bind (res_map_err Provider (best_block_number provider)) (\<lambda>current_head.
     res_bind (res_map_err Provider (block_hash provider current_head)) (\<lambda>found.
     res_bind (ok_or found HeadHashNotFound) (\<lambda>current_hash.
       if number > current_head then Ok (hash, current_hash)
       else if number = current_head then Ok (min hash current_hash, current_hash)
       else Ok (current_hash, current_hash))))"

section \<open>What the selection promises\<close>

text \<open>
  The contract: a head is a pair of a block number and a hash; \<open>head_le x y\<close> says that
  \<open>y\<close> is at least as good a head as \<open>x\<close>.
\<close>

fun head_le :: "u64 \<times> b256 \<Rightarrow> u64 \<times> b256 \<Rightarrow> bool" where
  "head_le (m, g) (n, h) \<longleftrightarrow> m < n \<or> m = n \<and> h \<le> g"

text \<open>
  A head rule: a binary choice that returns one of its arguments and never the worse one.
  Everything about electing a head from a sequence of announcements follows from this.
\<close>

locale head_rule =
  fixes pick :: "'h \<Rightarrow> 'h \<Rightarrow> 'h"
    and le :: "'h \<Rightarrow> 'h \<Rightarrow> bool"
  assumes pick_in: "pick x y = x \<or> pick x y = y"
    and pick_ge1: "le x (pick x y)"
    and pick_ge2: "le y (pick x y)"
    and le_trans: "le x y \<Longrightarrow> le y z \<Longrightarrow> le x z"
    and le_antisym: "le x y \<Longrightarrow> le y x \<Longrightarrow> x = y"
begin

lemma le_refl_choice: "le x x"
  using pick_ge1 [of x x] pick_in [of x x] by auto

lemma foldl_pick_in: "foldl pick x ys \<in> insert x (set ys)"
proof (induction ys arbitrary: x)
  case Nil
  then show ?case by simp
next
  case (Cons y ys)
  from Cons.IH [of "pick x y"] pick_in [of x y] show ?case by auto
qed

lemma foldl_pick_start: "le x (foldl pick x ys)"
  by (induction ys arbitrary: x) (auto intro: le_refl_choice le_trans pick_ge1)

lemma foldl_pick_ge: "z \<in> insert x (set ys) \<Longrightarrow> le z (foldl pick x ys)"
proof (induction ys arbitrary: x)
  case Nil
  then show ?case by (simp add: le_refl_choice)
next
  case (Cons y ys)
  show ?case
  proof (cases "z = x \<or> z = y")
    case True
    then have "le z (pick x y)" using pick_ge1 pick_ge2 by blast
    then show ?thesis using foldl_pick_start le_trans by fastforce
  next
    case False
    with Cons.prems have "z \<in> insert (pick x y) (set ys)" by simp
    then show ?thesis using Cons.IH by simp
  qed
qed

lemma foldl_pick_unique:
  assumes "w \<in> insert x (set ys)" and "\<And>z. z \<in> insert x (set ys) \<Longrightarrow> le z w"
  shows "foldl pick x ys = w"
  using assms foldl_pick_in foldl_pick_ge le_antisym by metis

lemma foldl_pick_cong:
  assumes "insert x (set ys) = insert x' (set ys')"
  shows "foldl pick x ys = foldl pick x' ys'"
  by (rule foldl_pick_unique) (metis assms foldl_pick_in, metis assms foldl_pick_ge)

end

section \<open>Electing a head from a sequence of announcements\<close>

text \<open>
  The provider of a node whose best block is \<open>m\<close> with hash \<open>g\<close>, and the head after it
  has handled one announcement and adopted the head that the rule gave.
\<close>

definition provider_at :: "u64 \<times> b256 \<Rightarrow> 'p provider" where
  "provider_at cur = \<lparr>best_block_number = Ok (fst cur),
     block_hash = (\<lambda>n. Ok (if n = fst cur then Some (snd cur) else None))\<rparr>"

definition adopt_head :: "u64 \<times> b256 \<Rightarrow> u64 \<times> b256 \<Rightarrow> u64 \<times> b256" where
  "adopt_head cur ann =
     (case canonical_head (provider_at cur :: unit provider) (snd ann) (fst ann) of
        Err _ \<Rightarrow> cur
      | Ok (h, _) \<Rightarrow> (max (fst cur) (fst ann), h))"

lemma canonical_head_provider_at:
  "canonical_head (provider_at (m, g)) h n =
     Ok (if n > m then h else if n = m then min h g else g, g)"
  by (simp add: canonical_head_def provider_at_def)

lemma adopt_head_eq:
  "adopt_head (m, g) (n, h) = (if n > m then (n, h) else if n = m then (m, min h g) else (m, g))"
  by (auto simp: adopt_head_def canonical_head_provider_at max_def)

interpretation hl_head: head_rule adopt_head head_le
proof
  fix x y z :: "u64 \<times> b256"
  obtain m g n h k l where xyz: "x = (m, g)" "y = (n, h)" "z = (k, l)"
    by (metis surj_pair)
  show "adopt_head x y = x \<or> adopt_head x y = y"
    by (auto simp: xyz adopt_head_eq min_def)
  show "head_le x (adopt_head x y)"
    by (auto simp: xyz adopt_head_eq)
  show "head_le y (adopt_head x y)"
    by (auto simp: xyz adopt_head_eq)
  show "head_le x y \<Longrightarrow> head_le y z \<Longrightarrow> head_le x z"
    by (auto simp: xyz)
  show "head_le x y \<Longrightarrow> head_le y x \<Longrightarrow> x = y"
    by (auto simp: xyz)
qed

section \<open>Properties\<close>

text \<open>
  Whenever \<open>canonical_head\<close> succeeds, the provider knew its best block and that
  block's hash; the second component is that hash, and the first is the hash of the
  better of the incoming block and the current head: the higher block number wins, and
  for equal numbers the lower hash.
\<close>

theorem canonical_head_correct:
  assumes "canonical_head p hash number = Ok (head, current)"
  shows "\<exists>best. best_block_number p = Ok best \<and> block_hash p best = Ok (Some current) \<and>
           (head = hash \<and> head_le (best, current) (number, hash) \<or>
            head = current \<and> head_le (number, hash) (best, current))"
proof -
  from assms obtain best found where
    b: "best_block_number p = Ok best" and f: "block_hash p best = Ok (Some found)"
    by (cases "best_block_number p"; cases "block_hash p (projr (best_block_number p))")
      (auto simp: canonical_head_def res_bind_eq_Ok_iff ok_or_def split: option.splits)
  with assms have "current = found"
    and "head = (if number > best then hash else if number = best then min hash found else found)"
    by (auto simp: canonical_head_def split: if_splits)
  with b f show ?thesis
    by (cases number best rule: linorder_cases; cases "hash \<le> found") auto
qed

theorem canonical_head_correct_witness:
  "canonical_head (provider_at (7, 34) :: unit provider) 17 7 = Ok (17, 34) \<and>
   (\<exists>best. best_block_number (provider_at (7, 34) :: unit provider) = Ok best \<and>
      block_hash (provider_at (7, 34) :: unit provider) best = Ok (Some 34) \<and>
      (17 = (17::b256) \<and> head_le (best, 34) (7, 17) \<or>
       17 = (34::b256) \<and> head_le (7, 17) (best, 34)))"
proof -
  have "canonical_head (provider_at (7, 34) :: unit provider) 17 7 = Ok (17, 34)"
    by (simp add: canonical_head_provider_at)
  then show ?thesis using canonical_head_correct by blast
qed

text \<open>
  The errors of \<open>canonical_head\<close>: it fails exactly when the provider fails on the
  best block number, fails on the hash of that block, or does not know that hash.
\<close>

theorem canonical_head_errors:
  "canonical_head p hash number = Err e \<longleftrightarrow>
     (\<exists>pe. best_block_number p = Err pe \<and> e = Provider pe) \<or>
     (\<exists>best pe. best_block_number p = Ok best \<and> block_hash p best = Err pe \<and> e = Provider pe) \<or>
     (\<exists>best. best_block_number p = Ok best \<and> block_hash p best = Ok None \<and> e = HeadHashNotFound)"
proof (cases "best_block_number p")
  case (Inl pe)
  then show ?thesis by (auto simp: canonical_head_def)
next
  case (Inr best)
  then show ?thesis
    by (cases "block_hash p best") (auto simp: canonical_head_def ok_or_def split: option.splits)
qed

text \<open>
  Head election is independent of the order of the announcements: two nodes that
  start from heads and see announcements which together are the same set end on the
  same head, and it is the best of them.
\<close>

theorem head_election_order_independent:
  assumes "insert cur (set anns) = insert cur' (set anns')"
  shows "foldl adopt_head cur anns = foldl adopt_head cur' anns' \<and>
    foldl adopt_head cur anns \<in> insert cur (set anns) \<and>
    (\<forall>a \<in> insert cur (set anns). head_le a (foldl adopt_head cur anns))"
  using hl_head.foldl_pick_cong [OF assms] hl_head.foldl_pick_in hl_head.foldl_pick_ge
  by blast

theorem head_election_order_independent_witness:
  "foldl adopt_head (1, 9) [(2, 8), (2, 5)] = foldl adopt_head (2, 5) [(2, 8), (1, 9)] \<and>
   foldl adopt_head (1, 9) [(2, 8), (2, 5)] = (2, 5)"
proof -
  have "insert (1, 9) (set [(2, 8), (2, 5)]) = insert (2, 5) (set [(2, 8), (1, 9 :: b256)] :: (u64 \<times> b256) set)"
    by auto
  from head_election_order_independent [OF this] show ?thesis
    by (simp add: adopt_head_eq)
qed

end
