(* ===== verification/Hl_Types.thy ===== *)
theory Hl_Types
  imports Prelude
begin

text \<open>
  The data of the program: headers, transactions, receipts, block bodies and blocks, and
  the records that a HyperEVM block source delivers (\<open>src/src/node/types/mod.rs\<close>,
  \<open>src/src/node/types/reth_compat.rs\<close>, \<open>src/src/node/primitives/mod.rs\<close>,
  \<open>src/src/node/primitives/tx_wrapper.rs\<close>).

  Headers, transaction bodies, withdrawals and logs are data types of alloy; the records
  below list their fields as the Ethereum specification and the program's own struct
  literals (for the header, \<open>src/src/chainspec/hl.rs\<close> lines 66 to 88) do. A 256-bit
  word stands for a \<open>U256\<close> or a \<open>B256\<close>, a 160-bit word for an address.
\<close>

section \<open>Headers\<close>

record header =
  parent_hash :: b256
  ommers_hash :: b256
  beneficiary :: address
  state_root :: b256
  transactions_root :: b256
  receipts_root :: b256
  logs_bloom :: bloom
  difficulty :: u256
  hdr_number :: u64
  hdr_gas_limit :: u64
  hdr_gas_used :: u64
  timestamp :: u64
  extra_data :: bytes
  mix_hash :: b256
  hdr_nonce :: b64
  base_fee_per_gas :: "u64 option"
  withdrawals_root :: "b256 option"
  blob_gas_used :: "u64 option"
  excess_blob_gas :: "u64 option"
  parent_beacon_block_root :: "b256 option"
  requests_hash :: "b256 option"

section \<open>Transactions\<close>

datatype tx_kind = Create | Call address

type_synonym access_list = "(address \<times> b256 list) list"

record tx_legacy =
  leg_chain_id :: "u64 option"
  leg_nonce :: u64
  leg_gas_price :: u128
  leg_gas_limit :: u64
  leg_to :: tx_kind
  leg_value :: u256
  leg_input :: bytes

record tx_eip2930 =
  acl_chain_id :: u64
  acl_nonce :: u64
  acl_gas_price :: u128
  acl_gas_limit :: u64
  acl_to :: tx_kind
  acl_value :: u256
  acl_access_list :: access_list
  acl_input :: bytes

record tx_eip1559 =
  dyn_chain_id :: u64
  dyn_nonce :: u64
  dyn_gas_limit :: u64
  dyn_max_fee_per_gas :: u128
  dyn_max_priority_fee_per_gas :: u128
  dyn_to :: tx_kind
  dyn_value :: u256
  dyn_access_list :: access_list
  dyn_input :: bytes

record tx_eip4844 =
  blob_chain_id :: u64
  blob_nonce :: u64
  blob_gas_limit :: u64
  blob_max_fee_per_gas :: u128
  blob_max_priority_fee_per_gas :: u128
  blob_to :: address
  blob_value :: u256
  blob_access_list :: access_list
  blob_versioned_hashes :: "b256 list"
  blob_max_fee_per_blob_gas :: u128
  blob_input :: bytes

record authorization =
  auth_chain_id :: u256
  auth_address :: address
  auth_nonce :: u64
  auth_y_parity :: u8
  auth_r :: u256
  auth_s :: u256

record tx_eip7702 =
  set_chain_id :: u64
  set_nonce :: u64
  set_gas_limit :: u64
  set_max_fee_per_gas :: u128
  set_max_priority_fee_per_gas :: u128
  set_to :: address
  set_value :: u256
  set_access_list :: access_list
  set_authorization_list :: "authorization list"
  set_input :: bytes

text \<open>The raw transaction of \<open>reth_compat.rs\<close>.\<close>

datatype transaction =
    Legacy tx_legacy
  | Eip2930 tx_eip2930
  | Eip1559 tx_eip1559
  | Eip4844 tx_eip4844
  | Eip7702 tx_eip7702

record signature =
  sig_r :: u256
  sig_s :: u256
  sig_y_parity :: bool

record compat_tx_signed =
  compat_signature :: signature
  compat_transaction :: transaction

text \<open>
  The signed envelope of alloy (\<open>InnerType\<close>) and the transaction type of the node, which
  wraps it. \<open>Signed\<close> pairs a body with its signature (\<open>Signed::new_unhashed\<close>).
\<close>

datatype 'b signed = Signed 'b signature

datatype inner_tx =
    InnerLegacy "tx_legacy signed"
  | InnerEip2930 "tx_eip2930 signed"
  | InnerEip1559 "tx_eip1559 signed"
  | InnerEip4844 "tx_eip4844 signed"
  | InnerEip7702 "tx_eip7702 signed"

datatype transaction_signed = Default inner_tx

definition into_inner :: "transaction_signed \<Rightarrow> inner_tx" where
  "into_inner tx = (case tx of Default inner \<Rightarrow> inner)"

text \<open>
  The trait methods of an envelope that the program calls. The gas price is present for
  the two transaction kinds that carry one (legacy and EIP-2930) and absent for the
  dynamic-fee kinds.
\<close>

fun inner_signature :: "inner_tx \<Rightarrow> signature" where
  "inner_signature (InnerLegacy (Signed _ g)) = g"
| "inner_signature (InnerEip2930 (Signed _ g)) = g"
| "inner_signature (InnerEip1559 (Signed _ g)) = g"
| "inner_signature (InnerEip4844 (Signed _ g)) = g"
| "inner_signature (InnerEip7702 (Signed _ g)) = g"

fun inner_gas_price :: "inner_tx \<Rightarrow> u128 option" where
  "inner_gas_price (InnerLegacy (Signed t _)) = Some (leg_gas_price t)"
| "inner_gas_price (InnerEip2930 (Signed t _)) = Some (acl_gas_price t)"
| "inner_gas_price (InnerEip1559 _) = None"
| "inner_gas_price (InnerEip4844 _) = None"
| "inner_gas_price (InnerEip7702 _) = None"

fun inner_gas_limit :: "inner_tx \<Rightarrow> u64" where
  "inner_gas_limit (InnerLegacy (Signed t _)) = leg_gas_limit t"
| "inner_gas_limit (InnerEip2930 (Signed t _)) = acl_gas_limit t"
| "inner_gas_limit (InnerEip1559 (Signed t _)) = dyn_gas_limit t"
| "inner_gas_limit (InnerEip4844 (Signed t _)) = blob_gas_limit t"
| "inner_gas_limit (InnerEip7702 (Signed t _)) = set_gas_limit t"

datatype tx_type = TyLegacy | TyEip2930 | TyEip1559 | TyEip4844 | TyEip7702

fun inner_tx_type :: "inner_tx \<Rightarrow> tx_type" where
  "inner_tx_type (InnerLegacy _) = TyLegacy"
| "inner_tx_type (InnerEip2930 _) = TyEip2930"
| "inner_tx_type (InnerEip1559 _) = TyEip1559"
| "inner_tx_type (InnerEip4844 _) = TyEip4844"
| "inner_tx_type (InnerEip7702 _) = TyEip7702"

abbreviation tx_gas_price :: "transaction_signed \<Rightarrow> u128 option" where
  "tx_gas_price tx \<equiv> inner_gas_price (into_inner tx)"

abbreviation tx_gas_limit :: "transaction_signed \<Rightarrow> u64" where
  "tx_gas_limit tx \<equiv> inner_gas_limit (into_inner tx)"

text \<open>\<open>TransactionSigned::is_system_transaction\<close>: the gas price is present and zero.\<close>

definition is_system_transaction :: "transaction_signed \<Rightarrow> bool" where
  "is_system_transaction tx = (case tx_gas_price tx of Some p \<Rightarrow> p = 0 | None \<Rightarrow> False)"

text \<open>The free function of the same name in \<open>node/evm/executor.rs\<close>.\<close>

definition executor_is_system_transaction :: "transaction_signed \<Rightarrow> bool" where
  "executor_is_system_transaction tx =
     (case tx_gas_price tx of None \<Rightarrow> False | Some gas_price \<Rightarrow> gas_price = 0)"

lemma executor_is_system_transaction_eq [simp]:
  "executor_is_system_transaction = is_system_transaction"
  by (auto simp: fun_eq_iff executor_is_system_transaction_def is_system_transaction_def
      split: option.splits)

section \<open>Receipts and logs\<close>

record log_data =
  log_address :: address
  log_topics :: "b256 list"
  log_bytes :: bytes

record receipt =
  rc_tx_type :: tx_type
  rc_success :: bool
  rc_cumulative_gas_used :: u64
  rc_logs :: "log_data list"

datatype legacy_tx_type = LtLegacy | LtEip2930 | LtEip1559 | LtEip4844 | LtEip7702

record legacy_receipt =
  lr_tx_type :: legacy_tx_type
  lr_success :: bool
  lr_cumulative_gas_used :: u64
  lr_logs :: "log_data list"

section \<open>Read precompile calls\<close>

record read_precompile_input =
  rp_input :: bytes
  rp_gas_limit :: u64

datatype read_precompile_result =
    RpOk u64 bytes
  | RpOutOfGas
  | RpError
  | RpUnexpectedError

type_synonym read_precompile_call =
  "address \<times> (read_precompile_input \<times> read_precompile_result) list"

datatype read_precompile_calls = ReadPrecompileCalls "read_precompile_call list"

primrec calls_of :: "read_precompile_calls \<Rightarrow> read_precompile_call list" where
  "calls_of (ReadPrecompileCalls cs) = cs"

record hl_extras =
  ex_read_precompile_calls :: "read_precompile_calls option"
  ex_highest_precompile_address :: "address option"

definition default_extras :: hl_extras where
  "default_extras = \<lparr>ex_read_precompile_calls = None, ex_highest_precompile_address = None\<rparr>"

section \<open>Bodies and blocks\<close>

record withdrawal =
  wd_index :: u64
  wd_validator_index :: u64
  wd_address :: address
  wd_amount :: u64

type_synonym sidecar = "bytes list \<times> bytes list \<times> bytes list"

text \<open>
  \<open>alloy_consensus::BlockBody<T>\<close>, used with the node's transactions, with alloy's own
  envelopes and with the transactions of \<open>reth_compat.rs\<close>.
\<close>

record 't block_body =
  transactions :: "'t list"
  ommers :: "header list"
  withdrawals :: "withdrawal list option"

record hl_block_body =
  body_inner :: "transaction_signed block_body"
  sidecars :: "sidecar list option"
  read_precompile_calls :: "read_precompile_calls option"
  highest_precompile_address :: "address option"

record hl_block =
  block_header :: header
  block_body :: hl_block_body

abbreviation block_txs :: "hl_block \<Rightarrow> transaction_signed list" where
  "block_txs b \<equiv> transactions (body_inner (block_body b))"

abbreviation block_number :: "hl_block \<Rightarrow> u64" where
  "block_number b \<equiv> hdr_number (block_header b)"

section \<open>What a block source delivers\<close>

record sealed_header =
  sh_hash :: b256
  sh_header :: header

record sealed_block =
  sb_header :: sealed_header
  sb_body :: "compat_tx_signed block_body"

datatype evm_block = Reth115 sealed_block

record system_tx =
  sys_tx :: transaction
  sys_receipt :: "legacy_receipt option"

record block_and_receipts =
  bar_block :: evm_block
  bar_receipts :: "legacy_receipt list"
  bar_system_txs :: "system_tx list"
  bar_read_precompile_calls :: read_precompile_calls
  bar_highest_precompile_address :: "address option"

definition bar_hash :: "block_and_receipts \<Rightarrow> b256" where
  "bar_hash b = (case bar_block b of Reth115 block \<Rightarrow> sh_hash (sb_header block))"

definition bar_number :: "block_and_receipts \<Rightarrow> u64" where
  "bar_number b = (case bar_block b of Reth115 block \<Rightarrow> hdr_number (sh_header (sb_header block)))"

section \<open>Bodies with and without the wrapper\<close>

definition convert_to_eth_block_body ::
  "transaction_signed block_body \<Rightarrow> inner_tx block_body" where
  "convert_to_eth_block_body v =
     \<lparr>transactions = map into_inner (transactions v), ommers = ommers v, withdrawals = withdrawals v\<rparr>"

definition convert_to_hl_block_body ::
  "inner_tx block_body \<Rightarrow> transaction_signed block_body" where
  "convert_to_hl_block_body v =
     \<lparr>transactions = map Default (transactions v), ommers = ommers v, withdrawals = withdrawals v\<rparr>"

lemma into_inner_Default [simp]: "into_inner (Default t) = t"
  by (simp add: into_inner_def)

lemma Default_into_inner [simp]: "Default (into_inner t) = t"
  by (cases t) simp

lemma convert_eth_hl_inverse [simp]:
  "convert_to_hl_block_body (convert_to_eth_block_body v) = v"
  by (simp add: convert_to_hl_block_body_def convert_to_eth_block_body_def comp_def)

lemma convert_hl_eth_inverse [simp]:
  "convert_to_eth_block_body (convert_to_hl_block_body v) = v"
  by (simp add: convert_to_hl_block_body_def convert_to_eth_block_body_def comp_def)

end
