(* ===== verification/Spot_Meta.thy ===== *)
theory Spot_Meta
  imports Hl_Types "HOL-Library.While_Combinator"
begin

text \<open>
  Pseudo signers of system transactions. HyperCore moves an asset into the EVM with a
  transaction sent by a system address: \<open>0x2222...22\<close> for the native asset and
  \<open>0x2000...00\<close> plus the token's index for a spot token. The node keeps the sender in
  the signature's \<open>s\<close> value: \<open>SpotId::to_s\<close> (\<open>src/src/node/spot_meta.rs\<close>) writes it
  and \<open>s_to_address\<close> (\<open>src/src/node/primitives/tx_wrapper.rs\<close>) reads it back. The
  index is looked up in a map from token contracts to indices that is fetched from the
  Hyperliquid API on demand.

  The API is an argument: \<open>post k url\<close> is the answer to the \<open>k\<close>-th request.
\<close>

section \<open>Big-endian bytes\<close>

fun nat_to_be :: "nat \<Rightarrow> nat \<Rightarrow> bytes" where
  "nat_to_be 0 x = []"
| "nat_to_be (Suc n) x = of_nat (x div 256 ^ n) # nat_to_be n x"

definition be_to_nat :: "bytes \<Rightarrow> nat" where
  "be_to_nat bs = foldl (\<lambda>a b. a * 256 + unat b) 0 bs"

lemma length_nat_to_be [simp]: "length (nat_to_be n x) = n"
  by (induction n) simp_all

lemma drop_nat_to_be: "drop k (nat_to_be (k + n) x) = nat_to_be n x"
  by (induction k) simp_all

lemma foldl_be_shift:
  "foldl (\<lambda>a b. a * 256 + unat (b :: u8)) a bs = a * 256 ^ length bs + be_to_nat bs"
  unfolding be_to_nat_def
proof (induction bs arbitrary: a rule: rev_induct)
  case Nil
  then show ?case by simp
next
  case (snoc b bs)
  from snoc [of a] show ?case by (simp add: algebra_simps)
qed

lemma be_to_nat_Nil [simp]: "be_to_nat [] = 0"
  by (simp add: be_to_nat_def)

lemma be_to_nat_Cons [simp]: "be_to_nat (b # bs) = unat b * 256 ^ length bs + be_to_nat bs"
  using foldl_be_shift [of "unat b" bs] by (simp add: be_to_nat_def)

lemma be_to_nat_append [simp]: "be_to_nat (as @ bs) = be_to_nat as * 256 ^ length bs + be_to_nat bs"
  by (induction as) (simp_all add: power_add algebra_simps)

lemma be_to_nat_replicate_0 [simp]: "be_to_nat (replicate n 0) = 0"
  by (induction n) simp_all

lemma be_to_nat_nat_to_be: "be_to_nat (nat_to_be n x) = x mod 256 ^ n"
proof (induction n)
  case 0
  show ?case by simp
next
  case (Suc n)
  have "x mod 256 ^ Suc n = (x div 256 ^ n mod 256) * 256 ^ n + x mod 256 ^ n"
    by (metis mod_mult2_eq mult.commute power_Suc2)
  with Suc show ?case by (simp add: unat_of_nat)
qed

lemma be_to_nat_bound: "be_to_nat bs < 256 ^ length bs"
proof (induction bs)
  case Nil
  show ?case by simp
next
  case (Cons b bs)
  have "unat b \<le> 255" using unat_u8_less [of b] by simp
  then have "unat b * 256 ^ length bs \<le> 255 * 256 ^ length bs" by (rule mult_le_mono1)
  with Cons have "unat b * 256 ^ length bs + be_to_nat bs < 255 * 256 ^ length bs + 256 ^ length bs"
    by linarith
  then show ?case by simp
qed

section \<open>Spot metadata\<close>

record evm_contract =
  ec_address :: address

record spot_token =
  st_index :: u64
  st_evm_contract :: "evm_contract option"

record spot_meta =
  sm_tokens :: "spot_token list"

record spot_id =
  spot_index :: u64

definition to_s :: "spot_id \<Rightarrow> u256" where
  "to_s spot =
     (let addr = (replicate 32 (0 :: u8)) [12 := 0x20];
          addr = take 24 addr @ nat_to_be 8 (unat (spot_index spot))
      in of_nat (be_to_nat addr))"

definition MAINNET_CHAIN_ID :: u64 where
  "MAINNET_CHAIN_ID = 999"

definition TESTNET_CHAIN_ID :: u64 where
  "TESTNET_CHAIN_ID = 998"

datatype 'e spot_error = UnknownChainId | Request 'e

definition fetch_spot_meta ::
  "(nat \<Rightarrow> string \<Rightarrow> (spot_meta, 'e) result) \<Rightarrow> nat \<Rightarrow> u64 \<Rightarrow> (spot_meta, 'e spot_error) result" where
  "fetch_spot_meta post k chain_id =
     (if chain_id = MAINNET_CHAIN_ID then res_map_err Request (post k ''https://api.hyperliquid.xyz/info'')
      else if chain_id = TESTNET_CHAIN_ID
        then res_map_err Request (post k ''https://api.hyperliquid-testnet.xyz/info'')
      else Err UnknownChainId)"

fun spot_token_map :: "spot_token list \<Rightarrow> (address \<rightharpoonup> spot_id) \<Rightarrow> (address \<rightharpoonup> spot_id)" where
  "spot_token_map [] mp = mp"
| "spot_token_map (token # tokens) mp =
     spot_token_map tokens
       (case st_evm_contract token of
          Some c \<Rightarrow> mp(ec_address c \<mapsto> \<lparr>spot_index = st_index token\<rparr>)
        | None \<Rightarrow> mp)"

definition erc20_contract_to_spot_token ::
  "(nat \<Rightarrow> string \<Rightarrow> (spot_meta, 'e) result) \<Rightarrow> nat \<Rightarrow> u64 \<Rightarrow>
     (address \<rightharpoonup> spot_id, 'e spot_error) result" where
  "erc20_contract_to_spot_token post k chain_id =
     res_bind (fetch_spot_meta post k chain_id) (\<lambda>meta. Ok (spot_token_map (sm_tokens meta) Map.empty))"

text \<open>
  The lookup loop of \<open>system_tx_to_reth_transaction\<close> over the process-wide \<open>EVM_MAP\<close>:
  while the contract is not in the map, fetch the map again. The state is the map and
  the number of requests made so far; a failing request panics (\<open>unwrap\<close>).
\<close>

record spot_state =
  evm_map :: "address \<rightharpoonup> spot_id"
  requests :: nat

definition spot_missing :: "address \<Rightarrow> spot_state run \<Rightarrow> bool" where
  "spot_missing to r = (case r of Returns st \<Rightarrow> evm_map st to = None | _ \<Rightarrow> False)"

definition spot_refetch ::
  "(nat \<Rightarrow> string \<Rightarrow> (spot_meta, 'e) result) \<Rightarrow> u64 \<Rightarrow> spot_state run \<Rightarrow> spot_state run" where
  "spot_refetch post chain_id r =
     run_bind r (\<lambda>st. run_bind (unwrap_res (erc20_contract_to_spot_token post (requests st) chain_id))
       (\<lambda>mp. Returns \<lparr>evm_map = mp, requests = Suc (requests st)\<rparr>))"

definition spot_lookup ::
  "(nat \<Rightarrow> string \<Rightarrow> (spot_meta, 'e) result) \<Rightarrow> u64 \<Rightarrow> address \<Rightarrow> spot_state \<Rightarrow> (u256 \<times> spot_state) run" where
  "spot_lookup post chain_id to st =
     (case while_option (spot_missing to) (spot_refetch post chain_id) (Returns st) of
        None \<Rightarrow> Diverges
      | Some r \<Rightarrow> run_bind r (\<lambda>st'. run_bind (unwrap (evm_map st' to)) (\<lambda>spot. Returns (to_s spot, st'))))"

section \<open>Pseudo signers\<close>

definition s_to_address :: "u256 \<Rightarrow> address" where
  "s_to_address s =
     (if s = 1 then 0x2222222222222222222222222222222222222222
      else of_nat (be_to_nat (drop 12 (nat_to_be 32 (unat s)))))"

text \<open>
  \<open>SignerRecoverable for TransactionSigned\<close>: the three recovery methods differ only in
  the method of the inner type that they call, which is an argument.
\<close>

definition recover_signer ::
  "(inner_tx \<Rightarrow> (address, 'e) result) \<Rightarrow> transaction_signed \<Rightarrow> (address, 'e) result" where
  "recover_signer inner_recover tx =
     (if is_system_transaction tx then Ok (s_to_address (sig_s (inner_signature (into_inner tx))))
      else inner_recover (into_inner tx))"

section \<open>Lemmas\<close>

lemma spot_buffer_eq:
  "take 24 ((replicate 32 (0 :: u8)) [12 := 0x20]) =
     replicate 12 0 @ [0x20] @ replicate 11 0"
  by (simp add: numeral_eq_Suc)

lemma to_s_value: "unat (to_s spot) = 0x20 * 256 ^ 19 + unat (spot_index spot)"
proof -
  have idx: "be_to_nat (nat_to_be 8 (unat (spot_index spot))) = unat (spot_index spot)"
    using unat_u64_less [of "spot_index spot"] by (simp add: be_to_nat_nat_to_be)
  have "be_to_nat (take 24 ((replicate 32 (0 :: u8)) [12 := 0x20]) @ nat_to_be 8 (unat (spot_index spot)))
      = 0x20 * 256 ^ 19 + unat (spot_index spot)"
    by (simp only: spot_buffer_eq be_to_nat_append idx length_nat_to_be) simp
  moreover have "0x20 * 256 ^ 19 + unat (spot_index spot) < 2 ^ 256"
    using unat_u64_less [of "spot_index spot"] by simp
  ultimately show ?thesis
    unfolding to_s_def Let_def by (simp only: unat_of_nat) simp
qed

lemma s_to_address_value:
  assumes "s \<noteq> 1"
  shows "unat (s_to_address s) = unat s mod 2 ^ 160"
proof -
  have "drop 12 (nat_to_be 32 (unat s)) = nat_to_be 20 (unat s)"
    using drop_nat_to_be [of 12 20 "unat s"] by simp
  then have "be_to_nat (drop 12 (nat_to_be 32 (unat s))) = unat s mod 256 ^ 20"
    by (simp add: be_to_nat_nat_to_be)
  with assms show ?thesis by (simp add: s_to_address_def unat_of_nat)
qed

lemma to_s_not_1: "to_s spot \<noteq> 1"
proof
  assume "to_s spot = 1"
  with to_s_value [of spot] show False by simp
qed

lemma s_to_address_to_s:
  "unat (s_to_address (to_s spot)) = 0x20 * 256 ^ 19 + unat (spot_index spot)"
proof -
  have "0x20 * 256 ^ 19 + unat (spot_index spot) < 2 ^ 160"
    using unat_u64_less [of "spot_index spot"] by simp
  with s_to_address_value [OF to_s_not_1 [of spot]] to_s_value [of spot] show ?thesis by simp
qed

text \<open>The map built from the metadata: the last token of a contract wins.\<close>

lemma spot_token_map_eq:
  "spot_token_map tokens mp to =
     (case find (\<lambda>t. map_option ec_address (st_evm_contract t) = Some to) (rev tokens) of
        Some t \<Rightarrow> Some \<lparr>spot_index = st_index t\<rparr>
      | None \<Rightarrow> mp to)"
proof (induction tokens arbitrary: mp)
  case Nil
  show ?case by simp
next
  case (Cons t tokens)
  show ?case
    by (cases "find (\<lambda>t. map_option ec_address (st_evm_contract t) = Some to) (rev tokens)")
      (auto simp: Cons.IH find_append split: option.splits)
qed

text \<open>The lookup loop, unfolded once.\<close>

lemma spot_lookup_hit:
  "evm_map st to = Some spot \<Longrightarrow> spot_lookup post chain_id to st = Returns (to_s spot, st)"
  by (simp add: spot_lookup_def while_option_unfold spot_missing_def)

lemma spot_lookup_miss:
  assumes "evm_map st to = None"
    and "erc20_contract_to_spot_token post (requests st) chain_id = Ok mp"
  shows "spot_lookup post chain_id to st =
    spot_lookup post chain_id to \<lparr>evm_map = mp, requests = Suc (requests st)\<rparr>"
  using assms
  by (simp add: spot_lookup_def while_option_unfold [of _ _ "Returns st"] spot_missing_def
      spot_refetch_def)

lemma spot_lookup_request_fails:
  assumes "evm_map st to = None"
    and "erc20_contract_to_spot_token post (requests st) chain_id = Err e"
  shows "spot_lookup post chain_id to st = Panics"
  using assms
  by (simp add: spot_lookup_def while_option_unfold spot_missing_def spot_refetch_def)

section \<open>Properties\<close>

text \<open>
  C26. The pseudo signer of a spot transfer: a zero-gas-price transaction whose \<open>s\<close> value
  was written by \<open>SpotId::to_s\<close> recovers, with any recovery method, to the system
  address \<open>0x2000...0000\<close> plus the token's index. Different tokens have different
  signers, and none of them is the signer \<open>0x2222...22\<close> of the native asset.
\<close>

theorem spot_signer_roundtrip:
  assumes "is_system_transaction tx"
    and "sig_s (inner_signature (into_inner tx)) = to_s spot"
  shows "recover_signer inner_recover tx = Ok (0x2000000000000000000000000000000000000000 + ucast (spot_index spot)) \<and>
    (s_to_address (to_s spot') = s_to_address (to_s spot) \<longrightarrow> spot_index spot' = spot_index spot) \<and>
    s_to_address (to_s spot) \<noteq> s_to_address 1"
proof -
  have u: "unat (ucast (spot_index spot) :: address) = unat (spot_index spot)"
    using unat_u64_less [of "spot_index spot"] by (simp add: unsigned_ucast_eq take_bit_eq_mod)
  have "unat (0x2000000000000000000000000000000000000000 + ucast (spot_index spot) :: address)
      = 0x20 * 256 ^ 19 + unat (spot_index spot)"
    using unat_u64_less [of "spot_index spot"] u by (simp add: unat_word_ariths)
  then have a: "s_to_address (to_s spot) = 0x2000000000000000000000000000000000000000 + ucast (spot_index spot)"
    by (simp only: word_unat_eq_iff s_to_address_to_s)
  have b: "spot_index spot' = spot_index spot" if "s_to_address (to_s spot') = s_to_address (to_s spot)"
    using that s_to_address_to_s [of spot] s_to_address_to_s [of spot'] by (simp add: u64_eq_iff)
  have c: "s_to_address (to_s spot) \<noteq> s_to_address 1"
  proof
    assume "s_to_address (to_s spot) = s_to_address 1"
    then have "0x20 * 256 ^ 19 + unat (spot_index spot) = 0x2222222222222222222222222222222222222222"
      using s_to_address_to_s [of spot] by (simp add: s_to_address_def)
    then show False using unat_u64_less [of "spot_index spot"] by simp
  qed
  from assms a b c show ?thesis by (simp add: recover_signer_def)
qed

definition example_spot_tx :: transaction_signed where
  "example_spot_tx = Default (InnerLegacy (Signed
     \<lparr>leg_chain_id = Some 999, leg_nonce = 0, leg_gas_price = 0, leg_gas_limit = 200000,
      leg_to = Call 0xabc, leg_value = 0, leg_input = [1]\<rparr>
     \<lparr>sig_r = 1, sig_s = to_s \<lparr>spot_index = 150\<rparr>, sig_y_parity = True\<rparr>))"

theorem spot_signer_roundtrip_witness:
  "recover_signer (\<lambda>_. Err ()) example_spot_tx = Ok (0x2000000000000000000000000000000000000000 + ucast (150 :: u64))"
proof -
  have "is_system_transaction example_spot_tx"
    by (simp add: example_spot_tx_def is_system_transaction_def)
  moreover have "sig_s (inner_signature (into_inner example_spot_tx)) = to_s \<lparr>spot_index = 150\<rparr>"
    by (simp add: example_spot_tx_def)
  ultimately show ?thesis
    using spot_signer_roundtrip [of example_spot_tx "\<lparr>spot_index = 150\<rparr>" "\<lambda>_. Err ()"] by simp
qed

text \<open>
  C27. The lookup of a token's index ends as soon as the API lists the contract: when the
  map in memory and the next \<open>n\<close> answers of the API do not list the contract and the
  answer after them does, the loop returns that index, having made exactly \<open>n + 1\<close>
  requests, and keeps the fetched map.
\<close>

theorem spot_lookup_returns:
  assumes "evm_map st to = None"
    and "\<And>i. i < n \<Longrightarrow> \<exists>mp. erc20_contract_to_spot_token post (requests st + i) chain_id = Ok mp \<and> mp to = None"
    and "erc20_contract_to_spot_token post (requests st + n) chain_id = Ok mp" and "mp to = Some spot"
  shows "spot_lookup post chain_id to st =
    Returns (to_s spot, \<lparr>evm_map = mp, requests = requests st + n + 1\<rparr>)"
  using assms
proof (induction n arbitrary: st)
  case 0
  then show ?case by (simp add: spot_lookup_miss spot_lookup_hit)
next
  case (Suc n)
  from Suc.prems(2) [of 0] obtain mp0 where
    mp0: "erc20_contract_to_spot_token post (requests st) chain_id = Ok mp0" "mp0 to = None"
    by auto
  let ?st = "\<lparr>evm_map = mp0, requests = Suc (requests st)\<rparr>"
  have "\<exists>mp. erc20_contract_to_spot_token post (requests ?st + i) chain_id = Ok mp \<and> mp to = None"
    if "i < n" for i
    using Suc.prems(2) [of "Suc i"] that by simp
  with Suc.IH [of ?st] Suc.prems(3,4) mp0(2)
  have "spot_lookup post chain_id to ?st = Returns (to_s spot, \<lparr>evm_map = mp, requests = requests ?st + n + 1\<rparr>)"
    by simp
  with spot_lookup_miss [OF Suc.prems(1) mp0(1)] show ?case by simp
qed

definition example_post :: "nat \<Rightarrow> string \<Rightarrow> (spot_meta, unit) result" where
  "example_post k url = Ok \<lparr>sm_tokens = (if k = 0 then [] else
     [\<lparr>st_index = 7, st_evm_contract = Some \<lparr>ec_address = 0xabc\<rparr>\<rparr>])\<rparr>"

theorem spot_lookup_returns_witness:
  "spot_lookup example_post MAINNET_CHAIN_ID 0xabc \<lparr>evm_map = Map.empty, requests = 0\<rparr> =
     Returns (to_s \<lparr>spot_index = 7\<rparr>, \<lparr>evm_map = [0xabc \<mapsto> \<lparr>spot_index = 7\<rparr>], requests = 2\<rparr>)"
proof -
  have "erc20_contract_to_spot_token example_post 0 MAINNET_CHAIN_ID = Ok Map.empty"
    "erc20_contract_to_spot_token example_post 1 MAINNET_CHAIN_ID = Ok [0xabc \<mapsto> \<lparr>spot_index = 7\<rparr>]"
    by (simp_all add: erc20_contract_to_spot_token_def fetch_spot_meta_def example_post_def)
  then show ?thesis
    using spot_lookup_returns [of "\<lparr>evm_map = Map.empty, requests = 0\<rparr>" "0xabc" 1 example_post
        MAINNET_CHAIN_ID "[0xabc \<mapsto> \<lparr>spot_index = 7\<rparr>]" "\<lparr>spot_index = 7\<rparr>"]
    by auto
qed

end
