(* ===== verification/Precompiles.thy ===== *)
theory Precompiles
  imports Hl_Types Spot_Meta
begin

text \<open>
  Replaying read precompiles (\<open>src/src/node/evm/executor.rs\<close>: \<open>run_precompile\<close>,
  \<open>apply_precompiles\<close>, \<open>fill_all_precompiles\<close>). A HyperEVM block comes with the results
  of every call to a HyperCore read precompile; while the block is executed again, each
  recorded address answers from its recording and from nothing else.

  The EVM's precompile map (\<open>PrecompilesMap\<close> of alloy-evm) is a map from addresses to
  precompiles: \<open>apply_precompile\<close> gives the entry of one address to a function and
  stores what the function returns, or removes the entry. A precompile is a function of
  the call's input and gas; calling it may panic.
\<close>

datatype precompile_error = OutOfGas | OtherPrecompileError string

record precompile_output =
  po_gas_used :: u64
  po_bytes :: bytes
  po_reverted :: bool

type_synonym precompile = "bytes \<Rightarrow> u64 \<Rightarrow> (precompile_output, precompile_error) result run"
type_synonym precompiles_map = "address \<rightharpoonup> precompile"

definition apply_precompile ::
  "address \<Rightarrow> (precompile option \<Rightarrow> precompile option) \<Rightarrow> precompiles_map \<Rightarrow> precompiles_map" where
  "apply_precompile a f pm = pm(a := f (pm a))"

definition run_precompile ::
  "(read_precompile_input \<rightharpoonup> read_precompile_result) \<Rightarrow> precompile" where
  "run_precompile precompile_calls data gas_limit =
     (case precompile_calls \<lparr>rp_input = data, rp_gas_limit = gas_limit\<rparr> of
        None \<Rightarrow> Returns (Err OutOfGas)
      | Some (RpOk gas_used bs) \<Rightarrow>
          Returns (Ok \<lparr>po_gas_used = gas_used, po_bytes = bs, po_reverted = False\<rparr>)
      | Some RpOutOfGas \<Rightarrow> Returns (Err OutOfGas)
      | Some RpError \<Rightarrow> Returns (Err OutOfGas)
      | Some RpUnexpectedError \<Rightarrow> Panics)"

text \<open>\<open>address.starts_with(&[0u8; 18]) && address[18] == 8\<close>: the addresses \<open>0x800\<close> to \<open>0x8ff\<close>.\<close>

definition is_08xx :: "address \<Rightarrow> bool" where
  "is_08xx a = (let bs = nat_to_be 20 (unat a) in take 18 bs = replicate 18 0 \<and> bs ! 18 = 8)"

text \<open>Every address of the map is visited once, so clearing works entry by entry.\<close>

definition clear_08xx :: "precompiles_map \<Rightarrow> precompiles_map" where
  "clear_08xx pm = (\<lambda>a. if is_08xx a then None else pm a)"

text \<open>The calls recorded for one address, collected into a map: the last entry of a key wins.\<close>

definition recorded_precompile ::
  "(read_precompile_input \<times> read_precompile_result) list \<Rightarrow> precompile" where
  "recorded_precompile calls = run_precompile (map_of (rev calls))"

fun install_recorded :: "read_precompile_call list \<Rightarrow> precompiles_map \<Rightarrow> precompiles_map" where
  "install_recorded [] pm = pm"
| "install_recorded ((a, calls) # rest) pm =
     install_recorded rest (apply_precompile a (\<lambda>_. Some (recorded_precompile calls)) pm)"

definition out_of_gas_precompile :: precompile where
  "out_of_gas_precompile = (\<lambda>_ _. Returns (Err OutOfGas))"

definition address_to_u64 :: "address \<Rightarrow> u64 run" where
  "address_to_u64 a = (if unat a < 2 ^ 64 then Returns (of_nat (unat a)) else Panics)"

definition fill_one :: "precompiles_map \<Rightarrow> u64 \<Rightarrow> precompiles_map" where
  "fill_one pm n =
     apply_precompile (ucast n)
       (\<lambda>f. case f of Some p \<Rightarrow> Some p | None \<Rightarrow> Some out_of_gas_precompile) pm"

definition fill_all_precompiles :: "hl_extras \<Rightarrow> precompiles_map \<Rightarrow> precompiles_map run" where
  "fill_all_precompiles extras pm =
     run_bind (case ex_highest_precompile_address extras of None \<Rightarrow> Returns 0x80D | Some a \<Rightarrow> address_to_u64 a)
       (\<lambda>highest_address. Returns (foldl fill_one pm (range_incl_u64 0x800 highest_address)))"

definition WARM_PRECOMPILES_BLOCK_NUMBER :: u64 where
  "WARM_PRECOMPILES_BLOCK_NUMBER = 8197684"

definition recorded_calls :: "hl_extras \<Rightarrow> read_precompile_call list" where
  "recorded_calls extras =
     (case ex_read_precompile_calls extras of None \<Rightarrow> [] | Some calls \<Rightarrow> calls_of calls)"

definition apply_precompiles :: "u256 \<Rightarrow> hl_extras \<Rightarrow> precompiles_map \<Rightarrow> precompiles_map run" where
  "apply_precompiles number extras pm =
     (let pm = install_recorded (recorded_calls extras) (clear_08xx pm)
      in if number \<ge> ucast WARM_PRECOMPILES_BLOCK_NUMBER then fill_all_precompiles extras pm
         else Returns pm)"

section \<open>Lemmas\<close>

lemma nat_to_be_split: "nat_to_be (n + k) x = nat_to_be n (x div 256 ^ k) @ nat_to_be k x"
  by (induction n) (simp_all add: div_mult2_eq [symmetric] power_add mult.commute)

lemma is_08xx_iff: "is_08xx a \<longleftrightarrow> unat a div 256 = 8"
proof -
  have split: "nat_to_be 20 (unat a) = nat_to_be 18 (unat a div 256 ^ 2) @
      [of_nat (unat a div 256), of_nat (unat a)]" (is "_ = ?hi @ _")
  proof -
    have "nat_to_be 2 (unat a) = [of_nat (unat a div 256), of_nat (unat a)]"
      by (simp add: numeral_2_eq_2)
    then show ?thesis using nat_to_be_split [of 18 2 "unat a"] by simp
  qed
  have a: "unat a < 2 ^ 160" using unsigned_less [of a] by simp
  have "take 18 (nat_to_be 20 (unat a)) = replicate 18 0 \<longleftrightarrow> unat a div 256 ^ 2 = 0"
  proof
    assume "take 18 (nat_to_be 20 (unat a)) = replicate 18 0"
    then have "be_to_nat ?hi = 0" unfolding split by simp
    then show "unat a div 256 ^ 2 = 0"
      using a by (simp add: be_to_nat_nat_to_be less_mult_imp_div_less)
  next
    assume "unat a div 256 ^ 2 = 0"
    moreover have "nat_to_be n 0 = replicate n 0" for n by (induction n) simp_all
    ultimately show "take 18 (nat_to_be 20 (unat a)) = replicate 18 0" unfolding split by simp
  qed
  moreover have "nat_to_be 20 (unat a) ! 18 = 8 \<longleftrightarrow> unat a div 256 mod 256 = 8"
  proof -
    have "nat_to_be 20 (unat a) ! 18 = of_nat (unat a div 256)"
      unfolding split by (simp add: nth_append)
    moreover have "(of_nat (unat a div 256) :: u8) = 8 \<longleftrightarrow> unat a div 256 mod 256 = 8"
      by (simp add: word_unat_eq_iff unat_of_nat)
    ultimately show ?thesis by simp
  qed
  ultimately show ?thesis
    unfolding is_08xx_def Let_def by (auto simp: div_mult2_eq power2_eq_square)
qed

lemma install_recorded_eq:
  "install_recorded calls pm a =
     (case map_of (rev calls) a of Some cs \<Rightarrow> Some (recorded_precompile cs) | None \<Rightarrow> pm a)"
  by (induction calls arbitrary: pm)
    (auto simp: apply_precompile_def map_add_def split: option.splits)

lemma fill_one_eq:
  "fill_one pm n a = (case pm a of Some p \<Rightarrow> Some p
     | None \<Rightarrow> if a = ucast n then Some out_of_gas_precompile else None)"
  by (auto simp: fill_one_def apply_precompile_def split: option.splits)

lemma foldl_fill_one_eq:
  "foldl fill_one pm ns a = (case pm a of Some p \<Rightarrow> Some p
     | None \<Rightarrow> if a \<in> ucast ` set ns then Some out_of_gas_precompile else None)"
  by (induction ns arbitrary: pm) (auto simp: fill_one_eq split: option.splits)

lemma ucast_range_incl_iff:
  "(a :: address) \<in> ucast ` set (range_incl_u64 lo hi) \<longleftrightarrow> unat lo \<le> unat a \<and> unat a \<le> unat hi"
proof
  assume "a \<in> ucast ` set (range_incl_u64 lo hi)"
  then obtain n where "a = ucast n" "lo \<le> n" "n \<le> hi" by (auto simp: set_range_incl_u64)
  then show "unat lo \<le> unat a \<and> unat a \<le> unat hi"
    using unat_u64_less [of n] by (simp add: unsigned_ucast_eq take_bit_eq_mod word_le_nat_alt)
next
  assume r: "unat lo \<le> unat a \<and> unat a \<le> unat hi"
  then have small: "unat a < 2 ^ 64" using unat_u64_less [of hi] by simp
  let ?n = "of_nat (unat a) :: u64"
  have un: "unat ?n = unat a" using small by (rule unat_of_nat_u64)
  have "unat a < 2 ^ 160" using unsigned_less [of a] by simp
  then have "unat (ucast ?n :: address) = unat a"
    unfolding unsigned_ucast_eq take_bit_eq_mod un by simp
  then have "a = ucast ?n" by (metis unsigned_word_eqI)
  moreover have "lo \<le> ?n" "?n \<le> hi" using r un by (simp_all add: word_le_nat_alt)
  ultimately show "a \<in> ucast ` set (range_incl_u64 lo hi)" by (auto simp: set_range_incl_u64)
qed


definition highest_address :: "hl_extras \<Rightarrow> nat" where
  "highest_address extras =
     (case ex_highest_precompile_address extras of None \<Rightarrow> 0x80D | Some a \<Rightarrow> unat a)"

definition is_warm :: "u256 \<Rightarrow> bool" where
  "is_warm number = (unat WARM_PRECOMPILES_BLOCK_NUMBER \<le> unat number)"

text \<open>What one address answers after the recording has been installed.\<close>

definition replay_entry :: "u256 \<Rightarrow> hl_extras \<Rightarrow> precompiles_map \<Rightarrow> address \<Rightarrow> precompile option" where
  "replay_entry number extras pm a =
     (case map_of (rev (recorded_calls extras)) a of
        Some calls \<Rightarrow> Some (recorded_precompile calls)
      | None \<Rightarrow>
          (case (if unat a div 256 = 8 then None else pm a) of
             Some p \<Rightarrow> Some p
           | None \<Rightarrow> if is_warm number \<and> 0x800 \<le> unat a \<and> unat a \<le> highest_address extras
                     then Some out_of_gas_precompile else None))"

lemma warm_iff: "number \<ge> ucast WARM_PRECOMPILES_BLOCK_NUMBER \<longleftrightarrow> is_warm number"
  by (simp add: is_warm_def word_le_nat_alt WARM_PRECOMPILES_BLOCK_NUMBER_def)

lemma fill_all_precompiles_eq:
  assumes "highest_address extras < 2 ^ 64"
  shows "fill_all_precompiles extras pm = Returns (\<lambda>a. case pm a of Some p \<Rightarrow> Some p
     | None \<Rightarrow> if 0x800 \<le> unat a \<and> unat a \<le> highest_address extras
               then Some out_of_gas_precompile else None)"
proof (cases "ex_highest_precompile_address extras")
  case None
  then show ?thesis
    by (auto simp: fill_all_precompiles_def foldl_fill_one_eq ucast_range_incl_iff
        highest_address_def fun_eq_iff split: option.splits)
next
  case (Some h)
  with assms have h: "unat h < 2 ^ 64" by (simp add: highest_address_def)
  then have "unat (of_nat (unat h) :: u64) = unat h" by (rule unat_of_nat_u64)
  with Some h show ?thesis
    by (auto simp: fill_all_precompiles_def address_to_u64_def foldl_fill_one_eq
        ucast_range_incl_iff highest_address_def fun_eq_iff split: option.splits)
qed

lemma apply_precompiles_eq:
  assumes "is_warm number \<longrightarrow> highest_address extras < 2 ^ 64"
  shows "apply_precompiles number extras pm = Returns (replay_entry number extras pm)"
  using assms
  by (auto simp: apply_precompiles_def Let_def warm_iff fill_all_precompiles_eq install_recorded_eq
      clear_08xx_def is_08xx_iff replay_entry_def fun_eq_iff split: option.splits)

lemma apply_precompiles_panics:
  assumes "is_warm number" "\<not> highest_address extras < 2 ^ 64"
  shows "apply_precompiles number extras pm = Panics"
  using assms
  by (auto simp: apply_precompiles_def Let_def warm_iff fill_all_precompiles_def address_to_u64_def
      highest_address_def split: option.splits)

lemma apply_precompiles_Returns:
  assumes "apply_precompiles number extras pm = Returns pm'"
  shows "pm' = replay_entry number extras pm"
  using assms apply_precompiles_panics [of number extras pm]
  by (cases "is_warm number \<longrightarrow> highest_address extras < 2 ^ 64") (auto simp: apply_precompiles_eq)

lemma replay_entry_idem:
  "replay_entry number extras (replay_entry number extras pm) = replay_entry number extras pm"
  by (auto simp: replay_entry_def fun_eq_iff split: option.splits if_splits)

lemma map_of_rev_distinct:
  assumes "distinct (map fst xs)"
  shows "map_of (rev xs) = map_of xs"
  using assms by (subst map_of_inject_set) (simp_all add: rev_map [symmetric])

section \<open>Properties\<close>

text \<open>
  C15. Installing a block's recording determines every address. A recorded address answers
  from its last recording; any other address of the range \<open>0x800\<close> to \<open>0x8ff\<close> is cleared;
  all other precompiles of the EVM are kept; and from the block
  \<open>WARM_PRECOMPILES_BLOCK_NUMBER\<close> on every address from \<open>0x800\<close> to the highest one (the
  recorded highest address, or \<open>0x80d\<close>) that would otherwise have no precompile answers
  out-of-gas. The one failure is a highest address that does not fit 64 bits, and
  only in a block that uses it.
\<close>

theorem apply_precompiles_spec:
  "apply_precompiles number extras pm =
     (if is_warm number \<and> 2 ^ 64 \<le> highest_address extras then Panics
      else Returns (replay_entry number extras pm))"
  by (auto simp: apply_precompiles_eq apply_precompiles_panics not_less)

text \<open>
  The executor installs the recording twice, when it is created and before it runs
  the block; the second time changes nothing.
\<close>

theorem apply_precompiles_idempotent:
  "run_bind (apply_precompiles number extras pm) (apply_precompiles number extras) =
   apply_precompiles number extras pm"
proof (cases "is_warm number \<longrightarrow> highest_address extras < 2 ^ 64")
  case True
  then show ?thesis by (simp add: apply_precompiles_eq replay_entry_idem)
qed (simp add: apply_precompiles_panics)

text \<open>
  A recorded call is replayed. After the recording is installed, calling a recorded
  address with a recorded input and gas limit returns the recorded gas and bytes if the
  call had succeeded, fails with out-of-gas if it had failed, and panics exactly if the
  recording holds an unexpected error; a call that was not recorded fails with
  out-of-gas. (Addresses, and the inputs of an address, are recorded once.)
\<close>

theorem recorded_call_replayed:
  assumes "apply_precompiles number extras pm = Returns pm'"
    and "distinct (map fst (recorded_calls extras))"
    and "(a, calls) \<in> set (recorded_calls extras)"
    and "distinct (map fst calls)"
  shows "\<exists>p. pm' a = Some p \<and> (\<forall>data gas.
    p data gas = (case map_of calls \<lparr>rp_input = data, rp_gas_limit = gas\<rparr> of
      Some (RpOk used bs) \<Rightarrow>
        Returns (Ok \<lparr>po_gas_used = used, po_bytes = bs, po_reverted = False\<rparr>)
    | Some RpUnexpectedError \<Rightarrow> Panics
    | _ \<Rightarrow> Returns (Err OutOfGas)))"
proof -
  from assms(1) have "pm' = replay_entry number extras pm"
    by (rule apply_precompiles_Returns)
  moreover have "map_of (rev (recorded_calls extras)) a = Some calls"
    using assms(2,3) by (simp add: map_of_rev_distinct)
  moreover have "map_of (rev calls) = map_of calls"
    using assms(4) by (rule map_of_rev_distinct)
  ultimately show ?thesis
    by (auto simp: replay_entry_def recorded_precompile_def run_precompile_def
        split: option.splits read_precompile_result.splits)
qed

definition example_extras :: hl_extras where
  "example_extras = \<lparr>ex_read_precompile_calls = Some (ReadPrecompileCalls
      [(0x801, [(\<lparr>rp_input = [1, 2], rp_gas_limit = 5000\<rparr>, RpOk 2100 [7]),
                (\<lparr>rp_input = [1, 3], rp_gas_limit = 5000\<rparr>, RpError)])]),
     ex_highest_precompile_address = None\<rparr>"

theorem recorded_call_replayed_witness:
  "\<exists>p. replay_entry 9000000 example_extras Map.empty 0x801 = Some p \<and>
     p [1, 2] 5000 = Returns (Ok \<lparr>po_gas_used = 2100, po_bytes = [7], po_reverted = False\<rparr>) \<and>
     p [1, 3] 5000 = Returns (Err OutOfGas)"
proof -
  have "apply_precompiles 9000000 example_extras Map.empty =
      Returns (replay_entry 9000000 example_extras Map.empty)"
    by (rule apply_precompiles_eq) (simp add: highest_address_def example_extras_def)
  from recorded_call_replayed [OF this, of "0x801"] show ?thesis
    by (auto simp: example_extras_def recorded_calls_def)
qed

end
