(* ===== verification/Reth_Compat.thy ===== *)
theory Reth_Compat
  imports Spot_Meta
begin

text \<open>
  From the blocks of a source to the blocks of the node
  (\<open>src/src/node/types/reth_compat.rs\<close> and \<open>BlockAndReceipts\<close> in
  \<open>src/src/node/types/mod.rs\<close>): the system transactions that the source lists beside a
  block become pseudo-signed legacy transactions in front of the block's own ones.

  The conversion reads and updates the process-wide map of spot tokens, so it passes a
  \<open>spot_state\<close> along; it panics on a system transaction that is not a legacy call, and
  on a failing request to the API.
\<close>

fun to_reth_transaction :: "compat_tx_signed \<Rightarrow> transaction_signed" where
  "to_reth_transaction tx =
     (case compat_transaction tx of
        Legacy t \<Rightarrow> Default (InnerLegacy (Signed t (compat_signature tx)))
      | Eip2930 t \<Rightarrow> Default (InnerEip2930 (Signed t (compat_signature tx)))
      | Eip1559 t \<Rightarrow> Default (InnerEip1559 (Signed t (compat_signature tx)))
      | Eip4844 t \<Rightarrow> Default (InnerEip4844 (Signed t (compat_signature tx)))
      | Eip7702 t \<Rightarrow> Default (InnerEip7702 (Signed t (compat_signature tx))))"

definition system_tx_to_reth_transaction ::
  "(nat \<Rightarrow> string \<Rightarrow> (spot_meta, 'e) result) \<Rightarrow> u64 \<Rightarrow> system_tx \<Rightarrow> spot_state \<Rightarrow>
     (transaction_signed \<times> spot_state) run" where
  "system_tx_to_reth_transaction post chain_id stx st =
     (case sys_tx stx of
        Legacy tx \<Rightarrow>
          (case leg_to tx of
             Call to \<Rightarrow>
               run_bind (if leg_input tx = [] then Returns (1, st) else spot_lookup post chain_id to st)
                 (\<lambda>(s, st'). Returns
                    (Default (InnerLegacy (Signed tx \<lparr>sig_r = 1, sig_s = s, sig_y_parity = True\<rparr>)), st'))
           | Create \<Rightarrow> Panics)
      | _ \<Rightarrow> Panics)"

definition sealed_to_reth_block ::
  "(nat \<Rightarrow> string \<Rightarrow> (spot_meta, 'e) result) \<Rightarrow> sealed_block \<Rightarrow> read_precompile_calls \<Rightarrow>
     address option \<Rightarrow> system_tx list \<Rightarrow> u64 \<Rightarrow> spot_state \<Rightarrow> (hl_block \<times> spot_state) run" where
  "sealed_to_reth_block post block calls highest system_txs chain_id st =
     run_bind (run_map_state (system_tx_to_reth_transaction post chain_id) system_txs st)
       (\<lambda>(sys, st').
          let merged_txs = [] @ sys @ map to_reth_transaction (transactions (sb_body block));
              body = \<lparr>body_inner = \<lparr>transactions = merged_txs,
                        ommers = ommers (sb_body block), withdrawals = withdrawals (sb_body block)\<rparr>,
                      sidecars = None,
                      read_precompile_calls = Some calls,
                      highest_precompile_address = highest\<rparr>
          in Returns (\<lparr>block_header = sh_header (sb_header block), block_body = body\<rparr>, st'))"

definition to_reth_block ::
  "(nat \<Rightarrow> string \<Rightarrow> (spot_meta, 'e) result) \<Rightarrow> u64 \<Rightarrow> block_and_receipts \<Rightarrow> spot_state \<Rightarrow>
     (hl_block \<times> spot_state) run" where
  "to_reth_block post chain_id b st =
     (case bar_block b of
        Reth115 block \<Rightarrow>
          sealed_to_reth_block post block (bar_read_precompile_calls b)
            (bar_highest_precompile_address b) (bar_system_txs b) chain_id st)"

section \<open>Lemmas\<close>

text \<open>Gas prices of raw transactions, as alloy reports them on the signed ones.\<close>

fun raw_gas_price :: "transaction \<Rightarrow> u128 option" where
  "raw_gas_price (Legacy t) = Some (leg_gas_price t)"
| "raw_gas_price (Eip2930 t) = Some (acl_gas_price t)"
| "raw_gas_price _ = None"

lemma to_reth_transaction_gas_price [simp]:
  "tx_gas_price (to_reth_transaction tx) = raw_gas_price (compat_transaction tx)"
  by (cases "compat_transaction tx") simp_all

lemma to_reth_transaction_is_system:
  "is_system_transaction (to_reth_transaction tx) \<longleftrightarrow> raw_gas_price (compat_transaction tx) = Some 0"
  by (auto simp: is_system_transaction_def simp del: to_reth_transaction.simps split: option.splits)

lemma system_tx_conversion_shape:
  assumes "system_tx_to_reth_transaction post chain_id stx st = Returns (tx, st')"
  shows "\<exists>body s. sys_tx stx = Legacy body \<and>
    tx = Default (InnerLegacy (Signed body \<lparr>sig_r = 1, sig_s = s, sig_y_parity = True\<rparr>)) \<and>
    (leg_input body = [] \<longrightarrow> s = 1)"
  using assms
  by (cases "sys_tx stx"; cases "leg_to (case sys_tx stx of Legacy t \<Rightarrow> t)")
    (auto simp: system_tx_to_reth_transaction_def run_bind_eq_Returns_iff split: if_splits)

lemma system_tx_conversion_is_system:
  assumes "system_tx_to_reth_transaction post chain_id stx st = Returns (tx, st')"
  shows "is_system_transaction tx \<longleftrightarrow> raw_gas_price (sys_tx stx) = Some 0"
  using system_tx_conversion_shape [OF assms] by (auto simp: is_system_transaction_def)

lemma to_reth_block_shape:
  assumes "to_reth_block post chain_id b st = Returns (blk, st')"
    and "bar_block b = Reth115 sb"
  obtains sys where
    "run_map_state (system_tx_to_reth_transaction post chain_id) (bar_system_txs b) st = Returns (sys, st')"
    and "blk = \<lparr>block_header = sh_header (sb_header sb),
        block_body = \<lparr>body_inner = \<lparr>transactions = sys @ map to_reth_transaction (transactions (sb_body sb)),
             ommers = ommers (sb_body sb), withdrawals = withdrawals (sb_body sb)\<rparr>,
           sidecars = None, read_precompile_calls = Some (bar_read_precompile_calls b),
           highest_precompile_address = bar_highest_precompile_address b\<rparr>\<rparr>"
  using assms
  by (auto simp: to_reth_block_def sealed_to_reth_block_def run_bind_eq_Returns_iff Let_def)

lemma to_reth_block_number:
  "to_reth_block post chain_id b st = Returns (blk, st') \<Longrightarrow> block_number blk = bar_number b"
  by (cases "bar_block b") (auto elim!: to_reth_block_shape simp: bar_number_def)

lemma to_reth_block_prefix:
  assumes "to_reth_block post chain_id b st = Returns (blk, st')"
    and "bar_block b = Reth115 sb"
    and "\<forall>stx \<in> set (bar_system_txs b). raw_gas_price (sys_tx stx) = Some 0"
    and "\<forall>tx \<in> set (transactions (sb_body sb)). raw_gas_price (compat_transaction tx) \<noteq> Some 0"
  shows "prefix_closed is_system_transaction (block_txs blk) \<and>
    length (filter is_system_transaction (block_txs blk)) = length (bar_system_txs b)"
proof -
  from assms(1,2) obtain sys where
    run: "run_map_state (system_tx_to_reth_transaction post chain_id) (bar_system_txs b) st = Returns (sys, st')"
    and blk: "block_txs blk = sys @ map to_reth_transaction (transactions (sb_body sb))"
    by (rule to_reth_block_shape) simp
  have "list_all2 (\<lambda>stx tx. is_system_transaction tx) (bar_system_txs b) sys"
    using run assms(3)
    by (intro run_map_state_list_all2 [where R = "\<lambda>stx tx. is_system_transaction tx"])
      (auto simp: system_tx_conversion_is_system)
  then have sys: "\<forall>tx \<in> set sys. is_system_transaction tx"
    by (metis in_set_conv_nth list_all2_conv_all_nth)
  have usr: "\<forall>tx \<in> set (map to_reth_transaction (transactions (sb_body sb))). \<not> is_system_transaction tx"
    using assms(4) by (auto simp: to_reth_transaction_is_system simp del: to_reth_transaction.simps)
  have "filter is_system_transaction (block_txs blk) = sys"
    using sys usr by (simp add: blk filter_empty_conv del: to_reth_transaction.simps)
  moreover have "prefix_closed is_system_transaction (block_txs blk)"
    unfolding blk using sys usr by (intro prefix_closed_append) (auto simp: list_all_iff)
  ultimately show ?thesis using run_map_state_length [OF run] by simp
qed

section \<open>Properties\<close>

text \<open>
  The block that \<open>to_reth_block\<close> builds: it keeps the source's header, ommers,
  withdrawals, precompile calls and highest precompile address; its transactions are one
  converted transaction for each system transaction, in order and with the same legacy
  body, followed by the block's own transactions unchanged.
\<close>

theorem to_reth_block_correct:
  assumes "to_reth_block post chain_id b st = Returns (blk, st')"
    and "bar_block b = Reth115 sb"
  shows "block_header blk = sh_header (sb_header sb) \<and>
    (\<exists>sys. block_txs blk = sys @ map to_reth_transaction (transactions (sb_body sb)) \<and>
       list_all2 (\<lambda>stx tx. \<exists>body g. sys_tx stx = Legacy body \<and> tx = Default (InnerLegacy (Signed body g)) \<and>
           sig_r g = 1 \<and> sig_y_parity g \<and> (leg_input body = [] \<longrightarrow> sig_s g = 1))
         (bar_system_txs b) sys) \<and>
    ommers (body_inner (block_body blk)) = ommers (sb_body sb) \<and>
    withdrawals (body_inner (block_body blk)) = withdrawals (sb_body sb) \<and>
    read_precompile_calls (block_body blk) = Some (bar_read_precompile_calls b) \<and>
    highest_precompile_address (block_body blk) = bar_highest_precompile_address b"
proof -
  from assms obtain sys where
    run: "run_map_state (system_tx_to_reth_transaction post chain_id) (bar_system_txs b) st = Returns (sys, st')"
    and blk: "blk = \<lparr>block_header = sh_header (sb_header sb),
        block_body = \<lparr>body_inner = \<lparr>transactions = sys @ map to_reth_transaction (transactions (sb_body sb)),
             ommers = ommers (sb_body sb), withdrawals = withdrawals (sb_body sb)\<rparr>,
           sidecars = None, read_precompile_calls = Some (bar_read_precompile_calls b),
           highest_precompile_address = bar_highest_precompile_address b\<rparr>\<rparr>"
    by (rule to_reth_block_shape)
  have "list_all2 (\<lambda>stx tx. \<exists>body g. sys_tx stx = Legacy body \<and> tx = Default (InnerLegacy (Signed body g)) \<and>
       sig_r g = 1 \<and> sig_y_parity g \<and> (leg_input body = [] \<longrightarrow> sig_s g = 1)) (bar_system_txs b) sys"
    using run by (rule run_map_state_list_all2) (fastforce dest: system_tx_conversion_shape)
  then show ?thesis by (auto simp: blk)
qed

definition example_header :: header where
  "example_header = \<lparr>parent_hash = 1, ommers_hash = 2, beneficiary = 3, state_root = 4,
     transactions_root = 5, receipts_root = 6, logs_bloom = 0, difficulty = 0, hdr_number = 42,
     hdr_gas_limit = 2000000, hdr_gas_used = 21000, timestamp = 1722633600, extra_data = [],
     mix_hash = 0, hdr_nonce = 0, base_fee_per_gas = Some 100, withdrawals_root = None,
     blob_gas_used = Some 0, excess_blob_gas = Some 0, parent_beacon_block_root = None,
     requests_hash = None\<rparr>"

definition example_legacy :: "u128 \<Rightarrow> tx_legacy" where
  "example_legacy price = \<lparr>leg_chain_id = Some 999, leg_nonce = 0, leg_gas_price = price,
     leg_gas_limit = 100000, leg_to = Call 0xabc, leg_value = 5, leg_input = []\<rparr>"

definition example_sealed :: sealed_block where
  "example_sealed = \<lparr>sb_header = \<lparr>sh_hash = 77, sh_header = example_header\<rparr>,
     sb_body = \<lparr>transactions = [\<lparr>compat_signature = \<lparr>sig_r = 8, sig_s = 9, sig_y_parity = False\<rparr>,
         compat_transaction = Legacy (example_legacy 3)\<rparr>],
       ommers = [], withdrawals = None\<rparr>\<rparr>"

definition example_bar :: block_and_receipts where
  "example_bar = \<lparr>bar_block = Reth115 example_sealed, bar_receipts = [],
     bar_system_txs = [\<lparr>sys_tx = Legacy (example_legacy 0), sys_receipt = None\<rparr>],
     bar_read_precompile_calls = ReadPrecompileCalls [], bar_highest_precompile_address = None\<rparr>"

definition example_block :: hl_block where
  "example_block = \<lparr>block_header = example_header,
     block_body = \<lparr>body_inner = \<lparr>transactions =
           [Default (InnerLegacy (Signed (example_legacy 0) \<lparr>sig_r = 1, sig_s = 1, sig_y_parity = True\<rparr>)),
            Default (InnerLegacy (Signed (example_legacy 3) \<lparr>sig_r = 8, sig_s = 9, sig_y_parity = False\<rparr>))],
         ommers = [], withdrawals = None\<rparr>,
       sidecars = None, read_precompile_calls = Some (ReadPrecompileCalls []),
       highest_precompile_address = None\<rparr>\<rparr>"

lemma example_to_reth_block:
  "to_reth_block example_post 999 example_bar st = Returns (example_block, st)"
  by (simp add: to_reth_block_def example_bar_def sealed_to_reth_block_def example_sealed_def
      system_tx_to_reth_transaction_def example_legacy_def example_block_def Let_def)

theorem to_reth_block_correct_witness:
  "block_header example_block = sh_header (sb_header example_sealed) \<and>
   read_precompile_calls (block_body example_block) = Some (bar_read_precompile_calls example_bar)"
  using to_reth_block_correct [OF example_to_reth_block, of example_sealed]
  by (simp add: example_bar_def)

text \<open>
  System transactions come first. When every system transaction of the source has
  gas price zero and no transaction of the block itself has, the converted block has as
  many system transactions as the source listed, and they stand before all others: the
  predicate \<open>is_system_transaction\<close> holds on an initial segment of the transactions.
\<close>

theorem to_reth_block_system_prefix:
  assumes "to_reth_block post chain_id b st = Returns (blk, st')"
    and "bar_block b = Reth115 sb"
    and "\<forall>stx \<in> set (bar_system_txs b). raw_gas_price (sys_tx stx) = Some 0"
    and "\<forall>tx \<in> set (transactions (sb_body sb)). raw_gas_price (compat_transaction tx) \<noteq> Some 0"
  shows "prefix_closed is_system_transaction (block_txs blk) \<and>
    length (filter is_system_transaction (block_txs blk)) = length (bar_system_txs b)"
  by (rule to_reth_block_prefix [OF assms])

theorem to_reth_block_system_prefix_witness:
  "prefix_closed is_system_transaction (block_txs example_block) \<and>
   length (filter is_system_transaction (block_txs example_block)) = 1"
  using to_reth_block_system_prefix [OF example_to_reth_block, of example_sealed]
  by (simp add: example_bar_def example_sealed_def example_legacy_def)

text \<open>
  The conversion of a source's block panics on a system transaction that is not a
  legacy transaction or that creates a contract.
\<close>

theorem to_reth_block_bad_system_tx:
  assumes "bar_system_txs b = stx # rest"
    and "(\<forall>t. sys_tx stx \<noteq> Legacy t) \<or> (\<exists>t. sys_tx stx = Legacy t \<and> leg_to t = Create)"
  shows "to_reth_block post chain_id b st = Panics"
proof -
  have "system_tx_to_reth_transaction post chain_id stx st = Panics"
    using assms(2) by (auto simp: system_tx_to_reth_transaction_def split: transaction.splits)
  with assms(1) show ?thesis
    by (cases "bar_block b") (simp add: to_reth_block_def sealed_to_reth_block_def)
qed

theorem to_reth_block_bad_system_tx_witness:
  "to_reth_block example_post 999 (example_bar \<lparr>bar_system_txs :=
      [\<lparr>sys_tx = Legacy ((example_legacy 0) \<lparr>leg_to := Create\<rparr>), sys_receipt = None\<rparr>]\<rparr>)
    \<lparr>evm_map = Map.empty, requests = 0\<rparr> = Panics"
  by (rule to_reth_block_bad_system_tx) auto

end
