(* ===== verification/Executor.thy ===== *)
theory Executor
  imports Precompiles Reth_Compat
begin

text \<open>
  The block executor (\<open>src/src/node/evm/executor.rs\<close>), the storage patches it applies
  (\<open>src/src/node/evm/patch.rs\<close>) and the receipts it builds
  (\<open>src/src/node/evm/receipt_builder.rs\<close>).

  The EVM itself and its database are revm's: running a transaction, committing changes
  and the account cache are the fields of \<open>evm_ops\<close>, arguments of every operation. What
  the executor relies on is a named hypothesis of the property that needs it.
\<close>

section \<open>What the EVM exchanges with the executor\<close>

record blob_excess_gas_and_price =
  excess_gas :: u64
  blob_gasprice :: u128

record block_env =
  be_number :: u256
  be_beneficiary :: address
  be_timestamp :: u256
  be_gas_limit :: u64
  be_basefee :: u64
  be_difficulty :: u256
  be_prevrandao :: "b256 option"
  be_blob_excess_gas_and_price :: "blob_excess_gas_and_price option"

record eth_block_execution_ctx =
  ctx_parent_hash :: b256
  ctx_parent_beacon_block_root :: "b256 option"
  ctx_ommers :: "header list"
  ctx_withdrawals :: "withdrawal list option"

record hl_block_execution_ctx =
  eth_ctx :: eth_block_execution_ctx
  ctx_extras :: hl_extras

datatype execution_result =
    Success string u64 u64 "log_data list" bytes
  | Revert u64 bytes
  | Halt string u64

fun result_gas_used :: "execution_result \<Rightarrow> u64" where
  "result_gas_used (Success _ g _ _ _) = g"
| "result_gas_used (Revert g _) = g"
| "result_gas_used (Halt _ g) = g"

fun is_success :: "execution_result \<Rightarrow> bool" where
  "is_success (Success _ _ _ _ _) = True"
| "is_success _ = False"

fun into_logs :: "execution_result \<Rightarrow> log_data list" where
  "into_logs (Success _ _ _ ls _) = ls"
| "into_logs _ = []"

record account_info =
  ai_balance :: u256
  ai_nonce :: u64
  ai_code_hash :: b256
  ai_code :: "bytes option"

datatype 'e block_execution_error =
    TransactionGasLimitMoreThanAvailableBlockGas u64 u64
  | EvmError 'e b256
  | OtherExecutionError 'e

record ('db, 'acc, 'tr, 'e) evm_ops =
  op_transact :: "block_env \<Rightarrow> precompiles_map \<Rightarrow> transaction_signed \<Rightarrow> 'db \<Rightarrow>
    ('db \<times> (execution_result \<times> (address \<rightharpoonup> 'acc), 'e) result) run"
  op_commit :: "(address \<rightharpoonup> 'acc) \<Rightarrow> 'db \<Rightarrow> 'db"
  op_load_cache_account :: "address \<Rightarrow> 'db \<Rightarrow> 'db \<times> (unit, 'e) result"
  op_account_info :: "'db \<Rightarrow> address \<Rightarrow> account_info option"
  op_change :: "address \<Rightarrow> account_info \<Rightarrow> 'db \<Rightarrow> 'db \<times> 'tr"
  op_apply_transition :: "(address \<times> 'tr) list \<Rightarrow> 'db \<Rightarrow> 'db"
  op_hash_slow :: "bytes \<Rightarrow> b256"
  op_trie_hash :: "transaction_signed \<Rightarrow> b256"

section \<open>Storage patches\<close>

definition MAINNET_PATCHES_AFTER_TX :: "(u64 \<times> u64 \<times> bool \<times> address) list" where
  "MAINNET_PATCHES_AFTER_TX = [
    (1467569, 0, False, 0x33f6fe38c55cb100ce27b3138e5d2d041648364f),
    (1467631, 0, False, 0x33f6fe38c55cb100ce27b3138e5d2d041648364f),
    (1499313, 2, False, 0xe27bfc0a812b38927ff646f24af9149f45deb550),
    (1499406, 0, False, 0xe27bfc0a812b38927ff646f24af9149f45deb550),
    (1499685, 0, False, 0xfee3932b75a87e86930668a6ab3ed43b404c8a30),
    (1514843, 0, False, 0x723e5fbbeed025772a91240fd0956a866a41a603),
    (1514936, 0, False, 0x723e5fbbeed025772a91240fd0956a866a41a603),
    (1530529, 2, False, 0xa694e8fd8f4a177dd23636d838e9f1fb2138d87a),
    (1530622, 2, False, 0xa694e8fd8f4a177dd23636d838e9f1fb2138d87a),
    (1530684, 3, False, 0xa694e8fd8f4a177dd23636d838e9f1fb2138d87a),
    (1530777, 3, False, 0xa694e8fd8f4a177dd23636d838e9f1fb2138d87a),
    (1530839, 2, False, 0x692a343fc401a7755f8fc2facf61af426adaf061),
    (1530901, 0, False, 0xfd9716f16596715ce765dabaee11787870e04b8a),
    (1530994, 3, False, 0xfd9716f16596715ce765dabaee11787870e04b8a),
    (1531056, 4, False, 0xdc67c2b8349ca20f58760e08371fc9271e82b5a4),
    (1531149, 0, False, 0xdc67c2b8349ca20f58760e08371fc9271e82b5a4),
    (1531211, 3, False, 0xdc67c2b8349ca20f58760e08371fc9271e82b5a4),
    (1531366, 1, False, 0x9a90a517d27a9e60e454c96fefbbe94ff244ed6f)]"

fun remove_patched :: "u64 \<Rightarrow> u64 \<Rightarrow> bool \<Rightarrow> (u64 \<times> u64 \<times> bool \<times> address) list \<Rightarrow>
  (address \<rightharpoonup> 'acc) \<Rightarrow> (address \<rightharpoonup> 'acc)" where
  "remove_patched number tx_index is_system_tx [] changes = changes"
| "remove_patched number tx_index is_system_tx ((block_num, idx, is_system, a) # rest) changes =
     remove_patched number tx_index is_system_tx rest
       (if number = block_num \<and> tx_index = idx \<and> is_system_tx = is_system
        then changes(a := None) else changes)"

definition patch_mainnet_after_tx ::
  "u64 \<Rightarrow> u64 \<Rightarrow> bool \<Rightarrow> (address \<rightharpoonup> 'acc) \<Rightarrow> (address \<rightharpoonup> 'acc, 'e block_execution_error) result" where
  "patch_mainnet_after_tx number tx_index is_system_tx changes =
     (if MAINNET_PATCHES_AFTER_TX = [] then Ok changes
      else let first = fst (hd MAINNET_PATCHES_AFTER_TX); lst = fst (last MAINNET_PATCHES_AFTER_TX)
        in if first > number \<or> lst < number then Ok changes
           else Ok (remove_patched number tx_index is_system_tx MAINNET_PATCHES_AFTER_TX changes))"

section \<open>Receipts\<close>

definition build_receipt :: "transaction_signed \<Rightarrow> execution_result \<Rightarrow> u64 \<Rightarrow> receipt" where
  "build_receipt tx result cumulative_gas_used =
     \<lparr>rc_tx_type = inner_tx_type (into_inner tx), rc_success = is_success result,
      rc_cumulative_gas_used = cumulative_gas_used, rc_logs = into_logs result\<rparr>"

section \<open>The executor\<close>

record 'db hl_block_executor =
  exe_env :: block_env
  exe_precompiles :: precompiles_map
  exe_db :: 'db
  exe_gas_used :: u64
  exe_receipts :: "receipt list"
  exe_ctx :: hl_block_execution_ctx

definition executor_new ::
  "block_env \<Rightarrow> precompiles_map \<Rightarrow> 'db \<Rightarrow> hl_block_execution_ctx \<Rightarrow> 'db hl_block_executor run" where
  "executor_new env pm db ctx =
     run_bind (apply_precompiles (be_number env) (ctx_extras ctx) pm)
       (\<lambda>pm'. Returns \<lparr>exe_env = env, exe_precompiles = pm', exe_db = db, exe_gas_used = 0,
                       exe_receipts = [], exe_ctx = ctx\<rparr>)"

definition COREWRITER_ENABLED_BLOCK_NUMBER :: u64 where
  "COREWRITER_ENABLED_BLOCK_NUMBER = 7578300"

definition COREWRITER_CONTRACT_ADDRESS :: address where
  "COREWRITER_CONTRACT_ADDRESS = 0x3333333333333333333333333333333333333333"

text \<open>The \<open>hex!\<close> macro: two digits for each byte.\<close>

definition hex_digit :: "char \<Rightarrow> nat" where
  "hex_digit c = (let n = of_char c in if n \<ge> 97 then n - 87 else if n \<ge> 65 then n - 55 else n - 48)"

fun hex_bytes :: "string \<Rightarrow> bytes" where
  "hex_bytes (a # b # cs) = of_nat (16 * hex_digit a + hex_digit b) # hex_bytes cs"
| "hex_bytes _ = []"

definition COREWRITER_CODE :: bytes where
  "COREWRITER_CODE = hex_bytes (
    ''608060405234801561000f575f5ffd5b5060043610610029575f3560e01c806317938e131461002d575b5f5f'' @
    ''fd5b61004760048036038101906100429190610123565b610049565b005b5f5f90505b610190811015610065'' @
    ''57808060010191505061004e565b503373ffffffffffffffffffffffffffffffffffffffff167f8c7f585fb2'' @
    ''95f7eb1e6aeb8fba61b23a4fe60beda405f0045073b185c74412e383836040516100ae9291906101c8565b60'' @
    ''405180910390a25050565b5f5ffd5b5f5ffd5b5f5ffd5b5f5ffd5b5f5ffd5b5f5f83601f8401126100e35761'' @
    ''00e26100c2565b5b8235905067ffffffffffffffff811115610100576100ff6100c6565b5b60208301915083'' @
    ''600182028301111561011c5761011b6100ca565b5b9250929050565b5f5f6020838503121561013957610138'' @
    ''6100ba565b5b5f83013567ffffffffffffffff811115610156576101556100be565b5b610162858286016100'' @
    ''ce565b92509250509250929050565b5f82825260208201905092915050565b828183375f8383015250505056'' @
    ''5b5f601f19601f8301169050919050565b5f6101a7838561016e565b93506101b483858461017e565b6101bd'' @
    ''8361018c565b840190509392505050565b5f6020820190508181035f8301526101e181848661019c565b9050'' @
    ''939250505056fea2646970667358221220f01517e1fbaff8af4bd72cb063cccecbacbb00b07354eea7dd5226'' @
    ''5d355474fb64736f6c634300081c0033'')"

text \<open>The empty account; the executor overwrites its code and code hash.\<close>

definition default_account_info :: account_info where
  "default_account_info = \<lparr>ai_balance = 0, ai_nonce = 0,
     ai_code_hash = 0xc5d2460186f7233c927e7db2dcc703c0e500b653ca82273b7bfad8045d85a470, ai_code = None\<rparr>"

definition deploy_corewriter_contract ::
  "('db, 'acc, 'tr, 'e) evm_ops \<Rightarrow> 'db hl_block_executor \<Rightarrow>
   'db hl_block_executor \<times> (unit, 'e block_execution_error) result" where
  "deploy_corewriter_contract ops self =
     (if be_number (exe_env self) \<noteq> ucast COREWRITER_ENABLED_BLOCK_NUMBER then (self, Ok ())
      else case op_load_cache_account ops COREWRITER_CONTRACT_ADDRESS (exe_db self) of
        (db, Err e) \<Rightarrow> (self\<lparr>exe_db := db\<rparr>, Err (OtherExecutionError e))
      | (db, Ok _) \<Rightarrow>
          let info = (case op_account_info ops db COREWRITER_CONTRACT_ADDRESS of
                        None \<Rightarrow> default_account_info | Some i \<Rightarrow> i);
              info = info\<lparr>ai_code_hash := op_hash_slow ops COREWRITER_CODE, ai_code := Some COREWRITER_CODE\<rparr>;
              (db, transition) = op_change ops COREWRITER_CONTRACT_ADDRESS info db
          in (self\<lparr>exe_db := op_apply_transition ops [(COREWRITER_CONTRACT_ADDRESS, transition)] db\<rparr>, Ok ()))"

definition apply_pre_execution_changes ::
  "('db, 'acc, 'tr, 'e) evm_ops \<Rightarrow> 'db hl_block_executor \<Rightarrow>
   ('db hl_block_executor \<times> (unit, 'e block_execution_error) result) run" where
  "apply_pre_execution_changes ops self =
     run_bind (apply_precompiles (be_number (exe_env self)) (ctx_extras (exe_ctx self)) (exe_precompiles self))
       (\<lambda>pm. Returns (deploy_corewriter_contract ops (self\<lparr>exe_precompiles := pm\<rparr>)))"

text \<open>\<open>Uint::saturating_to\<close>.\<close>

definition saturating_to_u64 :: "u256 \<Rightarrow> u64" where
  "saturating_to_u64 n = (if unat n < 2 ^ 64 then of_nat (unat n) else u64_max)"

definition execute_transaction_with_commit_condition ::
  "('db, 'acc, 'tr, 'e) evm_ops \<Rightarrow> transaction_signed \<Rightarrow> (execution_result \<Rightarrow> bool) \<Rightarrow>
   'db hl_block_executor \<Rightarrow>
   ('db hl_block_executor \<times> (u64 option, 'e block_execution_error) result) run" where
  "execute_transaction_with_commit_condition ops tx f self =
     (let block_available_gas = be_gas_limit (exe_env self) - exe_gas_used self
      in if tx_gas_limit tx > block_available_gas
         then Returns (self, Err (TransactionGasLimitMoreThanAvailableBlockGas
                (tx_gas_limit tx) block_available_gas))
         else run_bind (op_transact ops (exe_env self) (exe_precompiles self) tx (exe_db self))
           (\<lambda>(db, r). let self = self\<lparr>exe_db := db\<rparr> in
              case r of Err e \<Rightarrow> Returns (self, Err (EvmError e (op_trie_hash ops tx)))
              | Ok (result, state) \<Rightarrow>
                 if \<not> f result then Returns (self, Ok None)
                 else let gas_used = result_gas_used result;
                     self = (if \<not> executor_is_system_transaction tx
                             then self\<lparr>exe_gas_used := exe_gas_used self + gas_used\<rparr> else self)
                   in case patch_mainnet_after_tx (saturating_to_u64 (be_number (exe_env self)))
                        (of_nat (length (exe_receipts self))) (executor_is_system_transaction tx) state of
                        Err e \<Rightarrow> Returns (self, Err e)
                      | Ok state \<Rightarrow>
                         let self = self\<lparr>exe_receipts := exe_receipts self @
                               [build_receipt tx result (exe_gas_used self)]\<rparr>
                         in Returns (self\<lparr>exe_db := op_commit ops state (exe_db self)\<rparr>, Ok (Some gas_used))))"

record block_execution_result =
  ber_receipts :: "receipt list"
  ber_requests :: "bytes list"
  ber_gas_used :: u64

definition finish :: "'db hl_block_executor \<Rightarrow> 'db \<times> block_execution_result" where
  "finish self = (exe_db self,
     \<lparr>ber_receipts = exe_receipts self, ber_requests = [], ber_gas_used = exe_gas_used self\<rparr>)"

section \<open>Sequences of calls\<close>

text \<open>
  \<open>executor_reach ops env pm db ctx h ex\<close>: \<open>ex\<close> is a state of an executor created for the
  given block and driven by any sequence of calls, where \<open>h\<close> lists the transactions that
  were committed, in order, with the gas each of them returned. Transactions that are
  refused, fail or are not to be committed may occur anywhere.
\<close>

inductive executor_reach ::
  "('db, 'acc, 'tr, 'e) evm_ops \<Rightarrow> block_env \<Rightarrow> precompiles_map \<Rightarrow> 'db \<Rightarrow> hl_block_execution_ctx \<Rightarrow>
   (transaction_signed \<times> u64) list \<Rightarrow> 'db hl_block_executor \<Rightarrow> bool"
  for ops env pm db ctx where
  created: "executor_new env pm db ctx = Returns ex \<Longrightarrow> executor_reach ops env pm db ctx [] ex"
| prepared: "executor_reach ops env pm db ctx h ex \<Longrightarrow>
    apply_pre_execution_changes ops ex = Returns (ex', r) \<Longrightarrow> executor_reach ops env pm db ctx h ex'"
| committed: "executor_reach ops env pm db ctx h ex \<Longrightarrow>
    execute_transaction_with_commit_condition ops tx f ex = Returns (ex', Ok (Some g)) \<Longrightarrow>
    executor_reach ops env pm db ctx (h @ [(tx, g)]) ex'"
| skipped: "executor_reach ops env pm db ctx h ex \<Longrightarrow>
    execute_transaction_with_commit_condition ops tx f ex = Returns (ex', Ok None) \<Longrightarrow>
    executor_reach ops env pm db ctx h ex'"
| failed: "executor_reach ops env pm db ctx h ex \<Longrightarrow>
    execute_transaction_with_commit_condition ops tx f ex = Returns (ex', Err e) \<Longrightarrow>
    executor_reach ops env pm db ctx h ex'"

text \<open>The gas of the committed transactions that are not system transactions.\<close>

definition user_gas :: "(transaction_signed \<times> u64) list \<Rightarrow> nat" where
  "user_gas h = (\<Sum>(tx, g) \<leftarrow> h. if is_system_transaction tx then 0 else unat g)"

text \<open>The EVM never charges a transaction more than its gas limit.\<close>

definition transact_within_gas_limit :: "('db, 'acc, 'tr, 'e) evm_ops \<Rightarrow> bool" where
  "transact_within_gas_limit ops \<longleftrightarrow> (\<forall>env pm tx db db' result state.
     op_transact ops env pm tx db = Returns (db', Ok (result, state)) \<longrightarrow>
       result_gas_used result \<le> tx_gas_limit tx)"

section \<open>Lemmas\<close>

lemma unat_saturating_to_u64: "unat (saturating_to_u64 n) = min (unat n) (2 ^ 64 - 1)"
proof (cases "unat n < 2 ^ 64")
  case True
  then have "unat (of_nat (unat n) :: u64) = unat n" by (rule unat_of_nat_u64)
  with True show ?thesis unfolding saturating_to_u64_def by (simp only: if_True)
next
  case False
  then show ?thesis by (simp add: saturating_to_u64_def)
qed

lemma remove_patched_eq:
  "remove_patched n i s table changes a =
     (if (n, i, s, a) \<in> set table then None else changes a)"
  by (induction n i s table changes rule: remove_patched.induct) auto

lemma mainnet_patches_in_range:
  "(n, i, s, a) \<in> set MAINNET_PATCHES_AFTER_TX \<Longrightarrow>
     fst (hd MAINNET_PATCHES_AFTER_TX) \<le> n \<and> n \<le> fst (last MAINNET_PATCHES_AFTER_TX)"
  by (auto simp: MAINNET_PATCHES_AFTER_TX_def)

lemma patch_mainnet_after_tx_eq:
  "patch_mainnet_after_tx n i s changes =
     Ok (\<lambda>a. if (n, i, s, a) \<in> set MAINNET_PATCHES_AFTER_TX then None else changes a)"
proof (cases "fst (hd MAINNET_PATCHES_AFTER_TX) > n \<or> fst (last MAINNET_PATCHES_AFTER_TX) < n")
  case True
  then have "(n, i, s, a) \<notin> set MAINNET_PATCHES_AFTER_TX" for a
    using mainnet_patches_in_range [of n i s a] by auto
  with True show ?thesis by (simp add: patch_mainnet_after_tx_def Let_def)
next
  case False
  moreover have "MAINNET_PATCHES_AFTER_TX \<noteq> []" by (simp add: MAINNET_PATCHES_AFTER_TX_def)
  ultimately show ?thesis
    by (simp add: patch_mainnet_after_tx_def Let_def fun_eq_iff remove_patched_eq)
qed

lemma executor_new_cases:
  assumes "executor_new env pm db ctx = Returns ex"
  shows "exe_env ex = env" "exe_gas_used ex = 0" "exe_receipts ex = []" "exe_ctx ex = ctx"
  using assms by (auto simp: executor_new_def run_bind_eq_Returns_iff)

lemma deploy_corewriter_contract_frame:
  assumes "deploy_corewriter_contract ops ex = (ex', r)"
  shows "exe_env ex' = exe_env ex" "exe_gas_used ex' = exe_gas_used ex"
    "exe_receipts ex' = exe_receipts ex" "exe_ctx ex' = exe_ctx ex"
    "exe_precompiles ex' = exe_precompiles ex"
  using assms
  by (auto simp: deploy_corewriter_contract_def Let_def split: if_splits prod.splits sum.splits)

lemma apply_pre_execution_changes_frame:
  assumes "apply_pre_execution_changes ops ex = Returns (ex', r)"
  shows "exe_env ex' = exe_env ex" "exe_gas_used ex' = exe_gas_used ex"
    "exe_receipts ex' = exe_receipts ex" "exe_ctx ex' = exe_ctx ex"
  using assms
  by (auto simp: apply_pre_execution_changes_def run_bind_eq_Returns_iff
      dest: deploy_corewriter_contract_frame)

text \<open>The executor after a committed transaction.\<close>

definition after_commit :: "('db, 'acc, 'tr, 'e) evm_ops \<Rightarrow> transaction_signed \<Rightarrow> execution_result \<Rightarrow>
  (address \<rightharpoonup> 'acc) \<Rightarrow> 'db \<Rightarrow> 'db hl_block_executor \<Rightarrow> 'db hl_block_executor" where
  "after_commit ops tx result state db ex =
     (let gas = (if is_system_transaction tx then exe_gas_used ex
                 else exe_gas_used ex + result_gas_used result)
      in ex\<lparr>exe_gas_used := gas,
            exe_receipts := exe_receipts ex @ [build_receipt tx result gas],
            exe_db := op_commit ops (\<lambda>a.
              if (saturating_to_u64 (be_number (exe_env ex)), of_nat (length (exe_receipts ex)),
                  is_system_transaction tx, a) \<in> set MAINNET_PATCHES_AFTER_TX
              then None else state a) db\<rparr>)"

lemma execute_eq:
  "execute_transaction_with_commit_condition ops tx f ex =
     (if tx_gas_limit tx > be_gas_limit (exe_env ex) - exe_gas_used ex
      then Returns (ex, Err (TransactionGasLimitMoreThanAvailableBlockGas (tx_gas_limit tx)
             (be_gas_limit (exe_env ex) - exe_gas_used ex)))
      else run_bind (op_transact ops (exe_env ex) (exe_precompiles ex) tx (exe_db ex)) (\<lambda>(db, r). Returns
        (case r of
          Err e \<Rightarrow> (ex\<lparr>exe_db := db\<rparr>, Err (EvmError e (op_trie_hash ops tx)))
        | Ok (result, state) \<Rightarrow>
            if f result then (after_commit ops tx result state db ex, Ok (Some (result_gas_used result)))
            else (ex\<lparr>exe_db := db\<rparr>, Ok None))))"
  unfolding execute_transaction_with_commit_condition_def Let_def after_commit_def
  by (rule if_cong [OF refl refl], rule arg_cong [where f = "run_bind _"])
    (auto simp: patch_mainnet_after_tx_eq fun_eq_iff split: sum.splits)

text \<open>A call that does not commit changes nothing but the database, as the EVM's run leaves it.\<close>

lemma execute_not_committed:
  assumes "execute_transaction_with_commit_condition ops tx f ex = Returns (ex', r)"
    and "\<forall>g. r \<noteq> Ok (Some g)"
  shows "\<exists>db. ex' = ex\<lparr>exe_db := db\<rparr> \<and> (db = exe_db ex \<or>
    (\<exists>res. op_transact ops (exe_env ex) (exe_precompiles ex) tx (exe_db ex) = Returns (db, res)))"
proof (cases "tx_gas_limit tx > be_gas_limit (exe_env ex) - exe_gas_used ex")
  case True
  with assms(1) have "ex' = ex\<lparr>exe_db := exe_db ex\<rparr>" by (simp add: execute_eq)
  then show ?thesis by (intro exI [of _ "exe_db ex"] conjI disjI1) simp_all
next
  case False
  with assms(1) obtain db res where
    run: "op_transact ops (exe_env ex) (exe_precompiles ex) tx (exe_db ex) = Returns (db, res)"
    by (auto simp: execute_eq run_bind_eq_Returns_iff)
  with False assms have "ex' = ex\<lparr>exe_db := db\<rparr>"
    by (cases res) (auto simp: execute_eq split: if_splits)
  with run show ?thesis by blast
qed

lemma execute_committed:
  assumes "execute_transaction_with_commit_condition ops tx f ex = Returns (ex', Ok (Some g))"
  obtains db result state where
    "tx_gas_limit tx \<le> be_gas_limit (exe_env ex) - exe_gas_used ex"
    "op_transact ops (exe_env ex) (exe_precompiles ex) tx (exe_db ex) = Returns (db, Ok (result, state))"
    "f result" "g = result_gas_used result" "ex' = after_commit ops tx result state db ex"
proof -
  from assms obtain db res where run:
    "op_transact ops (exe_env ex) (exe_precompiles ex) tx (exe_db ex) = Returns (db, res)"
    by (auto simp: execute_eq run_bind_eq_Returns_iff split: if_splits)
  with assms that show thesis
    by (cases res) (auto simp: execute_eq not_less split: if_splits)
qed

lemma after_commit_simps [simp]:
  "exe_env (after_commit ops tx result state db ex) = exe_env ex"
  "exe_ctx (after_commit ops tx result state db ex) = exe_ctx ex"
  "exe_gas_used (after_commit ops tx result state db ex) =
     (if is_system_transaction tx then exe_gas_used ex else exe_gas_used ex + result_gas_used result)"
  "exe_receipts (after_commit ops tx result state db ex) = exe_receipts ex @
     [build_receipt tx result (if is_system_transaction tx then exe_gas_used ex
        else exe_gas_used ex + result_gas_used result)]"
  by (simp_all add: after_commit_def Let_def)

lemma user_gas_Nil [simp]: "user_gas [] = 0"
  by (simp add: user_gas_def)

lemma user_gas_snoc [simp]:
  "user_gas (h @ [(tx, g)]) = user_gas h + (if is_system_transaction tx then 0 else unat g)"
  by (simp add: user_gas_def)

definition accounted :: "(transaction_signed \<times> u64) list \<Rightarrow> 'db hl_block_executor \<Rightarrow> bool" where
  "accounted h ex \<longleftrightarrow> unat (exe_gas_used ex) = user_gas h \<and> exe_gas_used ex \<le> be_gas_limit (exe_env ex) \<and>
     length (exe_receipts ex) = length h \<and>
     (\<forall>i < length h. unat (rc_cumulative_gas_used (exe_receipts ex ! i)) = user_gas (take (Suc i) h))"

lemma accounted_db [simp]: "accounted h (ex\<lparr>exe_db := db\<rparr>) = accounted h ex"
  by (simp add: accounted_def)

lemma accounted_committed:
  assumes "accounted h ex" "transact_within_gas_limit ops"
    and "execute_transaction_with_commit_condition ops tx f ex = Returns (ex', Ok (Some g))"
  shows "accounted (h @ [(tx, g)]) ex'"
proof -
  from assms(3) obtain db result state where
    fits: "tx_gas_limit tx \<le> be_gas_limit (exe_env ex) - exe_gas_used ex"
    and run: "op_transact ops (exe_env ex) (exe_precompiles ex) tx (exe_db ex) = Returns (db, Ok (result, state))"
    and g: "g = result_gas_used result"
    and ex': "ex' = after_commit ops tx result state db ex"
    by (rule execute_committed)
  have le: "unat (exe_gas_used ex) \<le> unat (be_gas_limit (exe_env ex))"
    using assms(1) by (simp add: accounted_def word_le_nat_alt)
  have "unat g \<le> unat (tx_gas_limit tx)"
    using assms(2) run unfolding transact_within_gas_limit_def g word_le_nat_alt by blast
  also have "\<dots> \<le> unat (be_gas_limit (exe_env ex)) - unat (exe_gas_used ex)"
    using fits unat_sub_no_wrap [OF le] by (simp add: word_le_nat_alt)
  finally have room: "unat (exe_gas_used ex) + unat g \<le> unat (be_gas_limit (exe_env ex))"
    using le by simp
  then have "unat (exe_gas_used ex + g) = unat (exe_gas_used ex) + unat g"
    using unat_u64_less [of "be_gas_limit (exe_env ex)"] by (intro unat_add_no_wrap) simp
  then have total: "unat (exe_gas_used ex') = user_gas (h @ [(tx, g)])"
    and bound: "exe_gas_used ex' \<le> be_gas_limit (exe_env ex')"
    using assms(1) room le by (simp_all add: ex' g accounted_def word_le_nat_alt)
  have "unat (rc_cumulative_gas_used (exe_receipts ex' ! i)) = user_gas (take (Suc i) (h @ [(tx, g)]))"
    if "i < Suc (length h)" for i
  proof (cases "i = length h")
    case True
    with assms(1) show ?thesis using total by (simp add: ex' accounted_def nth_append build_receipt_def)
  next
    case False
    with that assms(1) show ?thesis by (auto simp: ex' accounted_def nth_append)
  qed
  with total bound assms(1) show ?thesis by (simp add: accounted_def ex')
qed

lemma executor_reach_accounted:
  assumes "executor_reach ops env pm db ctx h ex" "transact_within_gas_limit ops"
  shows "accounted h ex \<and> exe_env ex = env"
  using assms(1)
proof induction
  case (created ex)
  then show ?case by (simp add: accounted_def executor_new_cases)
next
  case (prepared h ex ex' r)
  then show ?case using apply_pre_execution_changes_frame [OF prepared.hyps(2)]
    by (auto simp: accounted_def)
next
  case (committed h ex tx f ex' g)
  moreover from committed.hyps(2) have "exe_env ex' = exe_env ex" by (rule execute_committed) simp
  ultimately show ?case using assms(2) accounted_committed by metis
next
  case (skipped h ex tx f ex')
  from execute_not_committed [OF skipped.hyps(2)] skipped.IH show ?case by auto
next
  case (failed h ex tx f ex' e)
  from execute_not_committed [OF failed.hyps(2)] failed.IH show ?case by auto
qed

text \<open>System transactions leave the cumulative gas at zero; any other transaction raises it.\<close>

lemma accounted_cumulative_zero:
  assumes "accounted h ex" "prefix_closed is_system_transaction (map fst h)"
    and "\<forall>(tx, g) \<in> set h. \<not> is_system_transaction tx \<longrightarrow> g \<noteq> 0"
    and "i < length h"
  shows "rc_cumulative_gas_used (exe_receipts ex ! i) = 0 \<longleftrightarrow> is_system_transaction (fst (h ! i))"
proof -
  let ?sys = "\<lambda>k. is_system_transaction (fst (h ! k))"
  let ?g = "\<lambda>(tx, g). if is_system_transaction tx then 0 else unat g"
  have "rc_cumulative_gas_used (exe_receipts ex ! i) = 0 \<longleftrightarrow> user_gas (take (Suc i) h) = 0"
    using assms(1,4) by (metis accounted_def unat_eq_zero)
  also have "\<dots> \<longleftrightarrow> (\<forall>p \<in> set (take (Suc i) h). ?g p = 0)"
    unfolding user_gas_def sum_list_eq_0_iff by auto
  also have "\<dots> \<longleftrightarrow> (\<forall>p \<in> set (take (Suc i) h). is_system_transaction (fst p))"
  proof (intro ball_cong refl)
    fix p assume "p \<in> set (take (Suc i) h)"
    then have "p \<in> set h" by (rule in_set_takeD)
    with assms(3) show "(?g p = 0) = is_system_transaction (fst p)"
      by (cases p) (auto simp: unat_eq_zero)
  qed
  also have "\<dots> \<longleftrightarrow> (\<forall>k \<le> i. ?sys k)"
    using assms(4) by (auto simp: all_set_conv_all_nth less_Suc_eq_le)
  also have "\<dots> \<longleftrightarrow> ?sys i"
    using prefix_closed_nth [OF assms(2)] assms(4)
    by (metis (no_types, lifting) length_map nth_map order.refl order.strict_trans1)
  finally show ?thesis .
qed

lemma filter_eq_by_nth:
  assumes "length xs = length ys" "\<And>i. i < length xs \<Longrightarrow> P (xs ! i) \<longleftrightarrow> Q (ys ! i)"
  shows "filter P xs = map fst (filter (\<lambda>(x, y). Q y) (zip xs ys))"
  using assms
proof (induction xs ys rule: list_induct2)
  case (Cons x xs y ys)
  have "P x = Q y" using Cons.prems [of 0] by simp
  moreover have "filter P xs = map fst (filter (\<lambda>(x, y). Q y) (zip xs ys))"
    by (rule Cons.IH) (use Cons.prems [of "Suc _"] in auto)
  ultimately show ?case by simp
qed simp

section \<open>Properties\<close>

text \<open>
  C20. The patch table is applied exactly: after the transaction of index \<open>i\<close> of block \<open>n\<close>
  the changes to the accounts the table lists for that transaction are dropped and all
  other changes are kept. The test against the first and the last block of the table
  is only a shortcut.
\<close>

theorem patch_mainnet_after_tx_exact:
  "patch_mainnet_after_tx n i s changes =
     Ok (changes |` {a. (n, i, s, a) \<notin> set MAINNET_PATCHES_AFTER_TX})"
  by (simp add: patch_mainnet_after_tx_eq restrict_map_def fun_eq_iff)

text \<open>
  C5. Gas accounting. Whatever calls have been made, the gas an executor has used is the
  sum of the gas of the committed transactions other than system transactions, without
  wrap-around; it never exceeds the block's gas limit; there is one receipt for each
  committed transaction, in order, and each receipt's cumulative gas is the gas used up
  to and including its transaction.
\<close>

theorem executor_gas_accounting:
  assumes "transact_within_gas_limit ops"
    and "executor_reach ops env pm db ctx h ex"
  shows "unat (exe_gas_used ex) = user_gas h \<and> exe_gas_used ex \<le> be_gas_limit env \<and>
    length (exe_receipts ex) = length h \<and>
    (\<forall>i < length h. unat (rc_cumulative_gas_used (exe_receipts ex ! i)) = user_gas (take (Suc i) h))"
  using executor_reach_accounted [OF assms(2,1)] by (auto simp: accounted_def)

text \<open>
  C39. The filter the block assembler and the consensus use to tell system receipts from
  the others, a cumulative gas of zero, is right: when the system transactions stand
  first and every other transaction uses gas, the receipts with a non-zero cumulative gas
  are the receipts of exactly the transactions that are not system transactions.
\<close>

theorem executor_system_receipts:
  assumes "transact_within_gas_limit ops"
    and "executor_reach ops env pm db ctx h ex"
    and "prefix_closed is_system_transaction (map fst h)"
    and "\<forall>(tx, g) \<in> set h. \<not> is_system_transaction tx \<longrightarrow> g \<noteq> 0"
  shows "filter (\<lambda>r. rc_cumulative_gas_used r \<noteq> 0) (exe_receipts ex) =
    map fst (filter (\<lambda>(r, tx). \<not> is_system_transaction tx) (zip (exe_receipts ex) (map fst h)))"
proof -
  have acc: "accounted h ex" using executor_reach_accounted [OF assms(2,1)] by simp
  then have len: "length (exe_receipts ex) = length (map fst h)" by (simp add: accounted_def)
  then show ?thesis
    by (rule filter_eq_by_nth) (use accounted_cumulative_zero [OF acc assms(3,4)] len in simp)
qed

text \<open>
  C23. A transaction is refused for lack of block gas exactly when its gas limit is more
  than what the executed transactions leave of the block's limit, and then nothing
  changes. A call that does not commit, whatever the reason, leaves gas, receipts,
  precompiles and environment as they were, and of the database everything that is not a
  cache: \<open>view\<close> is what the database holds, which running a transaction in the EVM
  without committing its state does not change.
\<close>

theorem execute_transaction_refusal:
  assumes "execute_transaction_with_commit_condition ops tx f ex = Returns (ex', r)"
    and "\<And>env pm tx db db' res. op_transact ops env pm tx db = Returns (db', res) \<Longrightarrow> view db' = view db"
  shows "((\<exists>limit avail. r = Err (TransactionGasLimitMoreThanAvailableBlockGas limit avail)) \<longleftrightarrow>
      tx_gas_limit tx > be_gas_limit (exe_env ex) - exe_gas_used ex) \<and>
    (tx_gas_limit tx > be_gas_limit (exe_env ex) - exe_gas_used ex \<longrightarrow> ex' = ex) \<and>
    ((\<exists>g. r = Ok (Some g)) \<or> ex' = ex\<lparr>exe_db := exe_db ex'\<rparr> \<and> view (exe_db ex') = view (exe_db ex))"
proof -
  have "tx_gas_limit tx > be_gas_limit (exe_env ex) - exe_gas_used ex"
    if "r = Err (TransactionGasLimitMoreThanAvailableBlockGas limit avail)" for limit avail
    using assms(1) that
    by (cases "op_transact ops (exe_env ex) (exe_precompiles ex) tx (exe_db ex)")
      (auto simp: execute_eq split: if_splits sum.splits prod.splits)
  moreover have "r = Err (TransactionGasLimitMoreThanAvailableBlockGas (tx_gas_limit tx)
      (be_gas_limit (exe_env ex) - exe_gas_used ex))"
    if "tx_gas_limit tx > be_gas_limit (exe_env ex) - exe_gas_used ex"
    using assms(1) that by (auto simp: execute_eq)
  moreover have "ex' = ex" if "tx_gas_limit tx > be_gas_limit (exe_env ex) - exe_gas_used ex"
    using assms(1) that by (auto simp: execute_eq)
  moreover have "ex' = ex\<lparr>exe_db := exe_db ex'\<rparr> \<and> view (exe_db ex') = view (exe_db ex)" if "\<nexists>g. r = Ok (Some g)"
    using execute_not_committed [OF assms(1)] that assms(2) by fastforce
  ultimately show ?thesis by blast
qed

text \<open>
  The account cache of the database: an account that was changed reads as what it was
  changed to, other accounts are not touched, and recording a transition is not visible
  to a reader of the cache.
\<close>

definition account_cache_laws :: "('db, 'acc, 'tr, 'e) evm_ops \<Rightarrow> bool" where
  "account_cache_laws ops \<longleftrightarrow>
     (\<forall>a info db b. op_account_info ops (fst (op_change ops a info db)) b =
        (if b = a then Some info else op_account_info ops db b)) \<and>
     (\<forall>ts db b. op_account_info ops (op_apply_transition ops ts db) b = op_account_info ops db b)"

lemma account_info_update:
  "i\<lparr>ai_code_hash := h, ai_code := c\<rparr> =
     \<lparr>ai_balance = ai_balance i, ai_nonce = ai_nonce i, ai_code_hash = h, ai_code = c\<rparr>"
  by (cases i) simp

text \<open>
  C22. The core writer contract is deployed in its activation block and in no other. After
  the pre-execution changes of that block its account holds the contract's code and the
  hash of that code, with the balance and nonce it had before; no other account changes.
  In every other block the database is left alone.
\<close>

theorem corewriter_deployment:
  assumes "account_cache_laws ops"
    and "apply_pre_execution_changes ops ex = Returns (ex', Ok ())"
  shows "(if be_number (exe_env ex) = 7578300 then
      let db = fst (op_load_cache_account ops COREWRITER_CONTRACT_ADDRESS (exe_db ex));
          old = (case op_account_info ops db COREWRITER_CONTRACT_ADDRESS of
                   None \<Rightarrow> default_account_info | Some i \<Rightarrow> i)
      in op_account_info ops (exe_db ex') COREWRITER_CONTRACT_ADDRESS =
           Some \<lparr>ai_balance = ai_balance old, ai_nonce = ai_nonce old,
             ai_code_hash = op_hash_slow ops COREWRITER_CODE, ai_code = Some COREWRITER_CODE\<rparr> \<and>
         (\<forall>a. a \<noteq> COREWRITER_CONTRACT_ADDRESS \<longrightarrow>
           op_account_info ops (exe_db ex') a = op_account_info ops db a)
    else exe_db ex' = exe_db ex)"
proof -
  obtain pm where dep: "deploy_corewriter_contract ops (ex\<lparr>exe_precompiles := pm\<rparr>) = (ex', Ok ())"
    using assms(2) by (auto simp: apply_pre_execution_changes_def run_bind_eq_Returns_iff)
  show ?thesis
  proof (cases "be_number (exe_env ex) = 7578300")
    case False
    with dep show ?thesis
      by (auto simp: deploy_corewriter_contract_def COREWRITER_ENABLED_BLOCK_NUMBER_def)
  next
    case True
    with dep assms(1) show ?thesis
      by (auto simp: deploy_corewriter_contract_def COREWRITER_ENABLED_BLOCK_NUMBER_def Let_def
          account_cache_laws_def case_prod_beta account_info_update split: sum.splits)
  qed
qed

section \<open>An example\<close>

text \<open>A database that is a map of accounts, and an EVM that charges 21000 gas or less.\<close>

definition example_ops :: "(address \<rightharpoonup> account_info, account_info, unit, unit) evm_ops" where
  "example_ops = \<lparr>
     op_transact = (\<lambda>env pm tx db. Returns (db, Ok (Success ''Stop'' (min 21000 (tx_gas_limit tx)) 0 [] [], Map.empty))),
     op_commit = (\<lambda>changes db. db ++ changes),
     op_load_cache_account = (\<lambda>a db. (db, Ok ())),
     op_account_info = (\<lambda>db a. db a),
     op_change = (\<lambda>a info db. (db(a \<mapsto> info), ())),
     op_apply_transition = (\<lambda>ts db. db),
     op_hash_slow = (\<lambda>bs. of_nat (length bs)),
     op_trie_hash = (\<lambda>tx. 0)\<rparr>"

definition example_env :: "u256 \<Rightarrow> block_env" where
  "example_env n = \<lparr>be_number = n, be_beneficiary = 0, be_timestamp = 1, be_gas_limit = 30000000,
     be_basefee = 0, be_difficulty = 0, be_prevrandao = None, be_blob_excess_gas_and_price = None\<rparr>"

definition example_ctx :: hl_block_execution_ctx where
  "example_ctx = \<lparr>eth_ctx = \<lparr>ctx_parent_hash = 0, ctx_parent_beacon_block_root = None, ctx_ommers = [],
     ctx_withdrawals = None\<rparr>, ctx_extras = default_extras\<rparr>"

definition example_tx :: "u128 \<Rightarrow> transaction_signed" where
  "example_tx price = Default (InnerLegacy (Signed (example_legacy price)
     \<lparr>sig_r = 8, sig_s = 9, sig_y_parity = False\<rparr>))"

definition example_executor :: "u256 \<Rightarrow> (address \<rightharpoonup> account_info) hl_block_executor" where
  "example_executor n = \<lparr>exe_env = example_env n, exe_precompiles = replay_entry n default_extras Map.empty,
     exe_db = Map.empty, exe_gas_used = 0, exe_receipts = [], exe_ctx = example_ctx\<rparr>"

definition example_executor_done :: "(address \<rightharpoonup> account_info) hl_block_executor" where
  "example_executor_done = (example_executor 5)\<lparr>exe_gas_used := 21000, exe_receipts :=
     [\<lparr>rc_tx_type = TyLegacy, rc_success = True, rc_cumulative_gas_used = 0, rc_logs = []\<rparr>,
      \<lparr>rc_tx_type = TyLegacy, rc_success = True, rc_cumulative_gas_used = 21000, rc_logs = []\<rparr>]\<rparr>"

lemma example_gas_law: "transact_within_gas_limit example_ops"
  by (auto simp: transact_within_gas_limit_def example_ops_def)

lemma example_executor_new:
  "executor_new (example_env n) Map.empty Map.empty example_ctx = Returns (example_executor n)"
proof -
  have "apply_precompiles n default_extras Map.empty = Returns (replay_entry n default_extras Map.empty)"
    by (rule apply_precompiles_eq) (simp add: highest_address_def default_extras_def)
  then show ?thesis
    by (simp add: executor_new_def example_executor_def example_ctx_def example_env_def)
qed

lemmas example_executor_simps = execute_eq example_executor_def example_env_def example_tx_def
  example_legacy_def example_ops_def after_commit_def build_receipt_def Let_def
  is_system_transaction_def into_inner_def MAINNET_PATCHES_AFTER_TX_def

lemma example_executor_reach:
  "executor_reach example_ops (example_env 5) Map.empty Map.empty example_ctx
     [(example_tx 0, 21000), (example_tx 3, 21000)] example_executor_done"
proof -
  let ?reach = "executor_reach example_ops (example_env 5) Map.empty Map.empty example_ctx"
  let ?ex = "(example_executor 5)\<lparr>exe_receipts :=
     [\<lparr>rc_tx_type = TyLegacy, rc_success = True, rc_cumulative_gas_used = 0, rc_logs = []\<rparr>]\<rparr>"
  have "?reach [] (example_executor 5)" by (rule created, rule example_executor_new)
  moreover have "execute_transaction_with_commit_condition example_ops (example_tx 0) (\<lambda>_. True)
      (example_executor 5) = Returns (?ex, Ok (Some 21000))"
    by (simp add: example_executor_simps map_add_def)
  ultimately have "?reach ([] @ [(example_tx 0, 21000)]) ?ex" by (rule committed)
  moreover have "execute_transaction_with_commit_condition example_ops (example_tx 3) (\<lambda>_. True)
      ?ex = Returns (example_executor_done, Ok (Some 21000))"
    by (simp add: example_executor_simps map_add_def example_executor_done_def)
  ultimately have "?reach (([] @ [(example_tx 0, 21000)]) @ [(example_tx 3, 21000)]) example_executor_done"
    by (rule committed)
  then show ?thesis by simp
qed

theorem executor_gas_accounting_witness:
  "unat (exe_gas_used example_executor_done) = user_gas [(example_tx 0, 21000), (example_tx 3, 21000)] \<and>
   user_gas [(example_tx 0, 21000), (example_tx 3, 21000)] = 21000"
  using executor_gas_accounting [OF example_gas_law example_executor_reach]
  by (simp add: example_executor_done_def)

theorem executor_system_receipts_witness:
  "filter (\<lambda>r. rc_cumulative_gas_used r \<noteq> 0) (exe_receipts example_executor_done) =
     [exe_receipts example_executor_done ! 1]"
  using executor_system_receipts [OF example_gas_law example_executor_reach]
  by (simp add: example_executor_done_def example_tx_def example_legacy_def
      is_system_transaction_def into_inner_def)

theorem execute_transaction_refusal_witness:
  "(\<exists>limit avail. Err (TransactionGasLimitMoreThanAvailableBlockGas 100000 50000) =
     (Err (TransactionGasLimitMoreThanAvailableBlockGas limit avail) :: (u64 option, unit block_execution_error) result))
   \<longleftrightarrow> tx_gas_limit (example_tx 3) > 30000000 - 29950000"
proof -
  have "execute_transaction_with_commit_condition example_ops (example_tx 3) (\<lambda>_. True)
      ((example_executor 5)\<lparr>exe_gas_used := 29950000\<rparr>) =
    Returns ((example_executor 5)\<lparr>exe_gas_used := 29950000\<rparr>,
      Err (TransactionGasLimitMoreThanAvailableBlockGas 100000 50000))"
    by (simp add: example_executor_simps)
  from execute_transaction_refusal [OF this, where view = id] show ?thesis
    by (simp add: example_executor_def example_env_def example_ops_def)
qed

theorem corewriter_deployment_witness:
  "\<exists>ex'. apply_pre_execution_changes example_ops (example_executor 7578300) = Returns (ex', Ok ()) \<and>
     map_option ai_code (exe_db ex' COREWRITER_CONTRACT_ADDRESS) = Some (Some COREWRITER_CODE)"
proof -
  let ?ex = "example_executor 7578300"
  have laws: "account_cache_laws example_ops"
    by (auto simp: account_cache_laws_def example_ops_def)
  have "apply_precompiles 7578300 default_extras (exe_precompiles ?ex) =
      Returns (replay_entry 7578300 default_extras (exe_precompiles ?ex))"
    by (rule apply_precompiles_eq) (simp add: highest_address_def default_extras_def)
  then obtain ex' where run: "apply_pre_execution_changes example_ops ?ex = Returns (ex', Ok ())"
    by (auto simp: apply_pre_execution_changes_def example_executor_def example_env_def example_ctx_def
        deploy_corewriter_contract_def COREWRITER_ENABLED_BLOCK_NUMBER_def example_ops_def Let_def
        split: option.splits)
  from corewriter_deployment [OF laws run] run show ?thesis
    by (auto simp: example_executor_def example_env_def Let_def example_ops_def)
qed

end
