(* ===== verification/Chain_Spec.thy ===== *)
theory Chain_Spec
  imports Hl_Types Spot_Meta Decimal
begin

text \<open>
  The chains the node knows (\<open>src/src/chainspec/parser.rs\<close>, \<open>hl.rs\<close>, \<open>mod.rs\<close>): the
  command line names one, and from then on the node takes its chain id, its genesis
  header, its hard forks, and the address of the official RPC server and block bucket
  from the specification the name stands for.
\<close>

datatype ethereum_hardfork =
    Frontier | Homestead | Dao | Tangerine | SpuriousDragon | Byzantium | Constantinople
  | Petersburg | Istanbul | Berlin | London | Paris | Shanghai | Cancun | Prague

datatype fork_condition = ForkBlock u64 | ForkTTD u64 "u64 option" u256 | ForkTimestamp u64 | ForkNever

definition GENESIS_HASH :: b256 where
  "GENESIS_HASH = 0xd8fcc13b6a195b88b7b2da3722ff6cad767b13a8c1e9ffb1c73aa9d216d895f0"

definition HL_HARDFORKS :: "(ethereum_hardfork \<times> fork_condition) list" where
  "HL_HARDFORKS =
     [(Frontier, ForkBlock 0), (Homestead, ForkBlock 0), (Dao, ForkBlock 0), (Tangerine, ForkBlock 0),
      (SpuriousDragon, ForkBlock 0), (Byzantium, ForkBlock 0), (Constantinople, ForkBlock 0),
      (Petersburg, ForkBlock 0), (Istanbul, ForkBlock 0), (Berlin, ForkBlock 0), (London, ForkBlock 0),
      (Paris, ForkTTD 0 None 0), (Shanghai, ForkTimestamp 0), (Cancun, ForkTimestamp 0)]"

text \<open>The genesis file is data; \<open>genesis\<close> stands for its parsed contents.\<close>

record 'g chain_spec =
  chain_id :: u64
  genesis :: 'g
  genesis_header :: sealed_header
  paris_block_and_final_difficulty :: "(u64 \<times> u256) option"
  hardforks :: "(ethereum_hardfork \<times> fork_condition) list"
  prune_delete_limit :: nat

definition empty_genesis_header :: sealed_header where
  "empty_genesis_header = \<lparr>sh_hash = GENESIS_HASH, sh_header =
     \<lparr>parent_hash = 0, ommers_hash = 0, beneficiary = 0, state_root = 0, transactions_root = 0,
      receipts_root = 0, logs_bloom = 0, difficulty = 0, hdr_number = 0, hdr_gas_limit = 0x1c9c380,
      hdr_gas_used = 0, timestamp = 0, extra_data = [], mix_hash = 0, hdr_nonce = 0,
      base_fee_per_gas = Some 0, withdrawals_root = Some 0, blob_gas_used = Some 0,
      excess_blob_gas = Some 0, parent_beacon_block_root = Some 0, requests_hash = Some 0\<rparr>\<rparr>"

definition hl_chainspec :: "u64 \<Rightarrow> 'g \<Rightarrow> 'g chain_spec" where
  "hl_chainspec chain g = \<lparr>chain_id = chain, genesis = g, genesis_header = empty_genesis_header,
     paris_block_and_final_difficulty = Some (0, 0), hardforks = HL_HARDFORKS, prune_delete_limit = 10000\<rparr>"

text \<open>The id of the chain alloy names \<open>Hyperliquid\<close> is 999.\<close>

definition hl_mainnet :: "'g \<Rightarrow> 'g chain_spec" where
  "hl_mainnet g = hl_chainspec 999 g"

definition hl_testnet :: "'g \<Rightarrow> 'g chain_spec" where
  "hl_testnet g = hl_chainspec 998 g"

definition SUPPORTED_CHAINS :: "string list" where
  "SUPPORTED_CHAINS = [''mainnet'', ''testnet'']"

definition chain_value_parser :: "'g \<Rightarrow> string \<Rightarrow> ('g chain_spec, string) result" where
  "chain_value_parser g s =
     (if s = ''mainnet'' then Ok (hl_mainnet g)
      else if s = ''testnet'' then Ok (hl_testnet g)
      else Err (''Unsupported chain: '' @ s))"

definition MAINNET_RPC_URL :: string where
  "MAINNET_RPC_URL = ''https://rpc.hyperliquid.xyz/evm''"

definition TESTNET_RPC_URL :: string where
  "TESTNET_RPC_URL = ''https://rpc.hyperliquid-testnet.xyz/evm''"

text \<open>The last branch of both functions is \<open>unreachable!\<close>.\<close>

definition official_rpc_url :: "'g chain_spec \<Rightarrow> string run" where
  "official_rpc_url self =
     (if chain_id self = MAINNET_CHAIN_ID then Returns MAINNET_RPC_URL
      else if chain_id self = TESTNET_CHAIN_ID then Returns TESTNET_RPC_URL
      else Panics)"

definition official_s3_bucket :: "'g chain_spec \<Rightarrow> string run" where
  "official_s3_bucket self =
     (if chain_id self = MAINNET_CHAIN_ID then Returns ''hl-mainnet-evm-blocks''
      else if chain_id self = TESTNET_CHAIN_ID then Returns ''hl-testnet-evm-blocks''
      else Panics)"

text \<open>
  The parser accepts exactly the supported chains, and for every chain it accepts the
  official RPC address and bucket are defined (the \<open>unreachable!\<close> branches are never
  reached), are those of the named network, and differ between the networks.
\<close>

theorem parsed_chain_endpoints:
  "case chain_value_parser g s of
     Err _ \<Rightarrow> s \<notin> set SUPPORTED_CHAINS
   | Ok spec \<Rightarrow> s \<in> set SUPPORTED_CHAINS \<and>
       official_rpc_url spec = Returns (if s = ''mainnet'' then MAINNET_RPC_URL else TESTNET_RPC_URL) \<and>
       official_s3_bucket spec = Returns (''hl-'' @ s @ ''-evm-blocks'') \<and>
       hardforks spec = HL_HARDFORKS \<and> sh_hash (genesis_header spec) = GENESIS_HASH"
  by (auto simp: chain_value_parser_def SUPPORTED_CHAINS_def hl_mainnet_def hl_testnet_def
      hl_chainspec_def official_rpc_url_def official_s3_bucket_def MAINNET_CHAIN_ID_def
      TESTNET_CHAIN_ID_def empty_genesis_header_def)

end
