(* ===== verification/Evm_Api.thy ===== *)
theory Evm_Api
  imports Executor Chain_Spec
begin

text \<open>
  The HyperEVM flavour of revm (\<open>src/src/evm\<close>, \<open>src/src/node/evm/mod.rs\<close>, \<open>factory.rs\<close>):
  the specification id, the transaction environment and its sender, the \<open>BLOCKHASH\<close>
  instruction that early mainnet blocks ran with, and the choice of that instruction when
  an EVM is created. The interpreter is revm's; of its state, \<open>BLOCKHASH\<close> reads and
  writes the stack (listed from the top) and whether the frame has halted.
\<close>

section \<open>Specification ids\<close>

datatype hl_spec_id = V1

text \<open>revm numbers its specifications; a later one has a greater number.\<close>

abbreviation MERGE :: nat where "MERGE \<equiv> 15"
abbreviation CANCUN :: nat where "CANCUN \<equiv> 17"

fun into_eth_spec :: "hl_spec_id \<Rightarrow> nat" where
  "into_eth_spec V1 = CANCUN"

section \<open>The BLOCKHASH instruction\<close>

definition BLOCK_HASH_HISTORY :: u64 where
  "BLOCK_HASH_HISTORY = 256"

record interpreter =
  stack :: "u256 list"
  halted_underflow :: bool

definition checked_sub :: "u256 \<Rightarrow> u256 \<Rightarrow> u256 option" where
  "checked_sub a b = (if b \<le> a then Some (a - b) else None)"

definition blockhash_returning_placeholder ::
  "(bytes \<Rightarrow> b256) \<Rightarrow> u256 \<Rightarrow> interpreter \<Rightarrow> interpreter" where
  "blockhash_returning_placeholder keccak256 number ip =
     (case stack ip of
        [] \<Rightarrow> ip\<lparr>halted_underflow := True\<rparr>
      | requested_number # rest \<Rightarrow>
          (case checked_sub number requested_number of
             None \<Rightarrow> ip\<lparr>stack := 0 # rest\<rparr>
           | Some diff \<Rightarrow>
               let diff = saturating_to_u64 diff
               in if diff = 0 then ip\<lparr>stack := 0 # rest\<rparr>
                  else if diff \<le> BLOCK_HASH_HISTORY
                  then ip\<lparr>stack := keccak256 (map of_char (show_u64 (saturating_to_u64 requested_number))) # rest\<rparr>
                  else ip\<lparr>stack := 0 # rest\<rparr>))"

section \<open>Creating an EVM\<close>

datatype blockhash_instruction = MainnetBlockhash | PlaceholderBlockhash u64

definition NON_PLACEHOLDER_BLOCK_HASH_HEIGHT :: u64 where
  "NON_PLACEHOLDER_BLOCK_HASH_HEIGHT = 243538"

record cfg_env =
  cfg_chain_id :: u64
  cfg_spec :: hl_spec_id
  cfg_max_blobs_per_tx :: "u64 option"
  cfg_disable_base_fee :: bool
  cfg_disable_eip3607 :: bool

record evm_env =
  env_cfg :: cfg_env
  env_block :: block_env

record ('db, 'i) hl_evm =
  evm_env_of :: evm_env
  evm_db :: 'db
  evm_inspector :: 'i
  evm_blockhash :: blockhash_instruction
  evm_precompiles :: precompiles_map
  evm_inspect :: bool

text \<open>\<open>HlEvmInner::new\<close>: the second component of the placeholder is its gas cost.\<close>

definition hl_blockhash :: "u64 \<Rightarrow> u256 \<Rightarrow> blockhash_instruction" where
  "hl_blockhash chain number =
     (if chain = MAINNET_CHAIN_ID \<and> number < ucast NON_PLACEHOLDER_BLOCK_HASH_HEIGHT
      then PlaceholderBlockhash 20 else MainnetBlockhash)"

text \<open>\<open>precompiles_of\<close>: revm's precompiles of a specification.\<close>

definition create_evm :: "(nat \<Rightarrow> precompiles_map) \<Rightarrow> 'db \<Rightarrow> evm_env \<Rightarrow> ('db, unit) hl_evm" where
  "create_evm precompiles_of db env =
     \<lparr>evm_env_of = env, evm_db = db, evm_inspector = (),
      evm_blockhash = hl_blockhash (cfg_chain_id (env_cfg env)) (be_number (env_block env)),
      evm_precompiles = precompiles_of (into_eth_spec (cfg_spec (env_cfg env))), evm_inspect = False\<rparr>"

definition create_evm_with_inspector ::
  "(nat \<Rightarrow> precompiles_map) \<Rightarrow> 'db \<Rightarrow> evm_env \<Rightarrow> 'i \<Rightarrow> ('db, 'i) hl_evm" where
  "create_evm_with_inspector precompiles_of db env inspector =
     \<lparr>evm_env_of = env, evm_db = db, evm_inspector = inspector,
      evm_blockhash = hl_blockhash (cfg_chain_id (env_cfg env)) (be_number (env_block env)),
      evm_precompiles = precompiles_of (into_eth_spec (cfg_spec (env_cfg env))), evm_inspect = True\<rparr>"

text \<open>A system call succeeds without doing anything.\<close>

definition transact_system_call ::
  "address \<Rightarrow> address \<Rightarrow> bytes \<Rightarrow> (execution_result \<times> (address \<rightharpoonup> 'acc), 'e) result" where
  "transact_system_call caller contract data = Ok (Success ''Stop'' 0 0 [] [], Map.empty)"

definition transact_raw ::
  "('tx \<Rightarrow> ('db, 'i) hl_evm \<Rightarrow> 'r) \<Rightarrow> ('tx \<Rightarrow> ('db, 'i) hl_evm \<Rightarrow> 'r) \<Rightarrow> 'tx \<Rightarrow> ('db, 'i) hl_evm \<Rightarrow> 'r" where
  "transact_raw inspect_tx transact tx self =
     (if evm_inspect self then inspect_tx tx self else transact tx self)"

section \<open>The transaction environment\<close>

text \<open>
  \<open>from_recovered_tx\<close> builds revm's environment from a transaction and its sender. A system
  transaction runs as its pseudo signer, whatever sender it comes with.
\<close>

definition hl_from_recovered_tx ::
  "(transaction_signed \<Rightarrow> address \<Rightarrow> 'env) \<Rightarrow> (inner_tx \<Rightarrow> (address, 'e) result) \<Rightarrow>
   transaction_signed \<Rightarrow> address \<Rightarrow> 'env run" where
  "hl_from_recovered_tx from_recovered_tx inner_recover tx sender =
     (if tx_gas_price tx \<noteq> None \<and> the (tx_gas_price tx) = 0
      then run_bind (unwrap_res (recover_signer inner_recover tx)) (\<lambda>a. Returns (from_recovered_tx tx a))
      else Returns (from_recovered_tx tx sender))"

text \<open>The variant for an encoded transaction dispatches on its type and keeps the sender.\<close>

definition hl_from_encoded_tx ::
  "(inner_tx \<Rightarrow> address \<Rightarrow> 'env) \<Rightarrow> transaction_signed \<Rightarrow> address \<Rightarrow> bytes \<Rightarrow> 'env" where
  "hl_from_encoded_tx from_typed_tx tx sender encoded = from_typed_tx (into_inner tx) sender"

section \<open>Properties\<close>

lemma saturating_to_u64_eq_0: "saturating_to_u64 n = 0 \<longleftrightarrow> unat n = 0"
  by (auto simp: u64_eq_iff unat_saturating_to_u64 min_def)

lemma saturating_to_u64_le_256: "saturating_to_u64 n \<le> 256 \<longleftrightarrow> unat n \<le> 256"
  by (auto simp: word_le_nat_alt unat_saturating_to_u64 min_def)

text \<open>
  The placeholder \<open>BLOCKHASH\<close> of early mainnet. An empty stack halts the frame;
  otherwise the top of the stack becomes the hash of the decimal notation of the requested
  number if that number is one of the 256 before the current block, and zero if not; the
  rest of the stack is kept. An EVM has this instruction exactly on mainnet before
  block 243538.
\<close>

theorem blockhash_placeholder_spec:
  "blockhash_returning_placeholder keccak n ip =
     (case stack ip of [] \<Rightarrow> ip\<lparr>halted_underflow := True\<rparr>
      | r # rest \<Rightarrow> ip\<lparr>stack :=
          (if unat r < unat n \<and> unat n \<le> unat r + 256
           then keccak (map of_char (show_u64 (saturating_to_u64 r))) else 0) # rest\<rparr>) \<and>
   (evm_blockhash (create_evm pre db env) = PlaceholderBlockhash 20 \<longleftrightarrow>
      cfg_chain_id (env_cfg env) = 999 \<and> unat (be_number (env_block env)) < 243538)"
proof
  have "unat (n - r) = unat n - unat r" if "r \<le> n" for r :: u256
    using that by (simp add: unat_sub)
  then show "blockhash_returning_placeholder keccak n ip =
     (case stack ip of [] \<Rightarrow> ip\<lparr>halted_underflow := True\<rparr>
      | r # rest \<Rightarrow> ip\<lparr>stack :=
          (if unat r < unat n \<and> unat n \<le> unat r + 256
           then keccak (map of_char (show_u64 (saturating_to_u64 r))) else 0) # rest\<rparr>)"
    by (auto simp: blockhash_returning_placeholder_def checked_sub_def Let_def saturating_to_u64_eq_0
        saturating_to_u64_le_256 BLOCK_HASH_HISTORY_def word_le_nat_alt [where 'a = 256]
        split: list.splits)
  show "evm_blockhash (create_evm pre db env) = PlaceholderBlockhash 20 \<longleftrightarrow>
      cfg_chain_id (env_cfg env) = 999 \<and> unat (be_number (env_block env)) < 243538"
    by (simp add: create_evm_def hl_blockhash_def MAINNET_CHAIN_ID_def
        NON_PLACEHOLDER_BLOCK_HASH_HEIGHT_def word_less_nat_alt)
qed

end
