(* ===== verification/Evm_Config.thy ===== *)
theory Evm_Config
  imports Evm_Api
begin

text \<open>
  The EVM configuration (\<open>src/src/node/evm/config.rs\<close>, \<open>assembler.rs\<close>): the environment
  and the context a block is executed with, and the assembly of a block from what
  executing it gave.

  Trie roots, blob fees and the hard-fork schedule are computed by alloy and reth: they
  are the fields of \<open>chain_ops\<close>.
\<close>

record blob_params =
  max_blobs_per_tx :: u64
  blob_params_id :: nat

record chain_ops =
  co_chain_id :: u64
  co_byzantium_active :: "u64 \<Rightarrow> bool"
  co_shanghai_active :: "u64 \<Rightarrow> bool"
  co_cancun_active :: "u64 \<Rightarrow> bool"
  co_prague_active :: "u64 \<Rightarrow> bool"
  co_blob_params :: "u64 \<Rightarrow> blob_params option"
  co_calc_blob_fee :: "blob_params \<Rightarrow> u64 \<Rightarrow> u128"
  co_next_block_base_fee :: "header \<Rightarrow> u64 \<Rightarrow> u64 option"
  co_next_block_excess_blob_gas :: "header \<Rightarrow> blob_params option \<Rightarrow> u64 option"
  co_first_excess_blob_gas :: u64
  co_transaction_root :: "transaction_signed list \<Rightarrow> b256"
  co_receipt_root_no_memo :: "receipt list \<Rightarrow> b256"
  co_receipt_root :: "(receipt \<times> bloom) list \<Rightarrow> b256"
  co_withdrawals_root :: "withdrawal list \<Rightarrow> b256"
  co_requests_hash :: "bytes list \<Rightarrow> b256"
  co_log_bloom :: "log_data \<Rightarrow> bloom"
  co_tx_blob_gas_used :: "transaction_signed \<Rightarrow> u64 option"
  co_extra_data :: bytes

definition EMPTY_OMMER_ROOT_HASH :: b256 where
  "EMPTY_OMMER_ROOT_HASH = 0x1dcc4de8dec75d7aab85b567b6ccd41ad312451b948a7413f0a142fd40d49347"

text \<open>\<open>logs_bloom\<close>: the bloom filters of the logs, joined.\<close>

definition logs_bloom_of :: "chain_ops \<Rightarrow> log_data list \<Rightarrow> bloom" where
  "logs_bloom_of co ls = foldl (\<lambda>b l. or b (co_log_bloom co l)) 0 ls"

section \<open>Environments and contexts\<close>

definition revm_spec_by_timestamp_and_block_number :: "u64 \<Rightarrow> u64 \<Rightarrow> hl_spec_id" where
  "revm_spec_by_timestamp_and_block_number ts n = V1"

definition hl_evm_env :: "chain_ops \<Rightarrow> header \<Rightarrow> evm_env" where
  "hl_evm_env co hdr =
     (let blob_params = co_blob_params co (timestamp hdr);
          spec = revm_spec_by_timestamp_and_block_number (timestamp hdr) (hdr_number hdr);
          cfg = \<lparr>cfg_chain_id = co_chain_id co, cfg_spec = spec,
                 cfg_max_blobs_per_tx = map_option max_blobs_per_tx blob_params,
                 cfg_disable_base_fee = True, cfg_disable_eip3607 = True\<rparr>;
          blob = (case (excess_blob_gas hdr, blob_params) of
                    (Some excess, Some params) \<Rightarrow>
                      Some \<lparr>excess_gas = excess, blob_gasprice = co_calc_blob_fee co params excess\<rparr>
                  | _ \<Rightarrow> None);
          eth_spec = into_eth_spec spec
      in \<lparr>env_cfg = cfg, env_block =
           \<lparr>be_number = ucast (hdr_number hdr), be_beneficiary = beneficiary hdr,
            be_timestamp = ucast (timestamp hdr), be_gas_limit = hdr_gas_limit hdr,
            be_basefee = (case base_fee_per_gas hdr of None \<Rightarrow> 0 | Some f \<Rightarrow> f),
            be_difficulty = (if eth_spec \<ge> MERGE then 0 else difficulty hdr),
            be_prevrandao = (if eth_spec \<ge> MERGE then Some (mix_hash hdr) else None),
            be_blob_excess_gas_and_price = blob\<rparr>\<rparr>)"

record next_block_env_attributes =
  at_timestamp :: u64
  at_suggested_fee_recipient :: address
  at_prev_randao :: b256
  at_gas_limit :: u64
  at_parent_beacon_block_root :: "b256 option"
  at_withdrawals :: "withdrawal list option"

definition hl_next_evm_env :: "chain_ops \<Rightarrow> header \<Rightarrow> next_block_env_attributes \<Rightarrow> (evm_env, unit) result" where
  "hl_next_evm_env co parent attrs =
     (let spec_id = revm_spec_by_timestamp_and_block_number (at_timestamp attrs) (hdr_number parent + 1);
          cfg = \<lparr>cfg_chain_id = co_chain_id co, cfg_spec = spec_id, cfg_max_blobs_per_tx = None,
                 cfg_disable_base_fee = False, cfg_disable_eip3607 = False\<rparr>;
          blob = (if into_eth_spec spec_id \<ge> CANCUN then Some \<lparr>excess_gas = 0, blob_gasprice = 0\<rparr> else None);
          basefee = co_next_block_base_fee co parent (at_timestamp attrs)
      in Ok \<lparr>env_cfg = cfg, env_block =
           \<lparr>be_number = ucast (hdr_number parent + 1), be_beneficiary = at_suggested_fee_recipient attrs,
            be_timestamp = ucast (at_timestamp attrs), be_gas_limit = at_gas_limit attrs,
            be_basefee = (case basefee of None \<Rightarrow> 0 | Some f \<Rightarrow> f), be_difficulty = 0,
            be_prevrandao = Some (at_prev_randao attrs), be_blob_excess_gas_and_price = blob\<rparr>\<rparr>)"

definition context_for_block :: "hl_block \<Rightarrow> hl_block_execution_ctx" where
  "context_for_block blk = \<lparr>eth_ctx =
      \<lparr>ctx_parent_hash = parent_hash (block_header blk),
       ctx_parent_beacon_block_root = parent_beacon_block_root (block_header blk),
       ctx_ommers = ommers (body_inner (block_body blk)),
       ctx_withdrawals = withdrawals (body_inner (block_body blk))\<rparr>,
     ctx_extras = \<lparr>ex_read_precompile_calls = read_precompile_calls (block_body blk),
       ex_highest_precompile_address = highest_precompile_address (block_body blk)\<rparr>\<rparr>"

definition context_for_next_block :: "b256 \<Rightarrow> next_block_env_attributes \<Rightarrow> hl_block_execution_ctx" where
  "context_for_next_block parent_block_hash attrs = \<lparr>eth_ctx =
      \<lparr>ctx_parent_hash = parent_block_hash, ctx_parent_beacon_block_root = at_parent_beacon_block_root attrs,
       ctx_ommers = [], ctx_withdrawals = at_withdrawals attrs\<rparr>,
     ctx_extras = default_extras\<rparr>"

definition evm_env_for_payload :: "chain_ops \<Rightarrow> hl_block \<Rightarrow> evm_env" where
  "evm_env_for_payload co payload = hl_evm_env co (block_header payload)"

definition context_for_payload :: "hl_block \<Rightarrow> hl_block_execution_ctx" where
  "context_for_payload payload = \<lparr>eth_ctx =
      \<lparr>ctx_parent_hash = parent_hash (block_header payload),
       ctx_parent_beacon_block_root = parent_beacon_block_root (block_header payload),
       ctx_ommers = ommers (body_inner (block_body payload)),
       ctx_withdrawals = withdrawals (body_inner (block_body payload))\<rparr>,
     ctx_extras = \<lparr>ex_read_precompile_calls = read_precompile_calls (block_body payload),
       ex_highest_precompile_address = highest_precompile_address (block_body payload)\<rparr>\<rparr>"

text \<open>A payload's transactions with their recovered signers; a failed recovery is an error.\<close>

definition tx_iterator_for_payload ::
  "(transaction_signed \<Rightarrow> (address, 'e) result) \<Rightarrow> (transaction_signed \<Rightarrow> bytes) \<Rightarrow> hl_block \<Rightarrow>
   (bytes \<times> transaction_signed \<times> address, 'e) result list" where
  "tx_iterator_for_payload recover encoded_2718 payload =
     map (\<lambda>tx. case recover tx of Err e \<Rightarrow> Err e | Ok a \<Rightarrow> Ok (encoded_2718 tx, tx, a))
       (transactions (body_inner (block_body payload)))"

section \<open>Assembling a block\<close>

record block_assembler_input =
  in_evm_env :: evm_env
  in_execution_ctx :: hl_block_execution_ctx
  in_parent :: header
  in_transactions :: "transaction_signed list"
  in_output :: block_execution_result
  in_state_root :: b256

definition assemble_block :: "chain_ops \<Rightarrow> block_assembler_input \<Rightarrow> (hl_block, 'e block_execution_error) result" where
  "assemble_block co input =
     (let ctx = in_execution_ctx input; env = env_block (in_evm_env input);
          txs = in_transactions input; receipts = ber_receipts (in_output input);
          ts = saturating_to_u64 (be_timestamp env);
          transactions_for_root = filter (\<lambda>t. \<not> executor_is_system_transaction t) txs;
          receipts_for_root = filter (\<lambda>r. rc_cumulative_gas_used r \<noteq> 0) receipts;
          bloom = logs_bloom_of co (concat (map rc_logs receipts));
          ws = (if co_shanghai_active co ts
                then Some (case ctx_withdrawals (eth_ctx ctx) of None \<Rightarrow> [] | Some w \<Rightarrow> w) else None);
          requests = (if co_prague_active co ts then Some (co_requests_hash co (ber_requests (in_output input))) else None);
          cancun = co_cancun_active co ts;
          blob_used = (if cancun
                then Some (foldl (+) 0 (map (\<lambda>tx. case co_tx_blob_gas_used co tx of None \<Rightarrow> 0 | Some g \<Rightarrow> g) txs))
                else None);
          excess = (if cancun
                then (if co_cancun_active co (timestamp (in_parent input))
                      then co_next_block_excess_blob_gas co (in_parent input) (co_blob_params co ts)
                      else Some (co_first_excess_blob_gas co))
                else None)
      in Ok \<lparr>block_header =
           \<lparr>parent_hash = ctx_parent_hash (eth_ctx ctx), ommers_hash = EMPTY_OMMER_ROOT_HASH,
            beneficiary = be_beneficiary env, state_root = in_state_root input,
            transactions_root = co_transaction_root co transactions_for_root,
            receipts_root = co_receipt_root_no_memo co receipts_for_root,
            logs_bloom = bloom, difficulty = be_difficulty env,
            hdr_number = saturating_to_u64 (be_number env), hdr_gas_limit = be_gas_limit env,
            hdr_gas_used = ber_gas_used (in_output input), timestamp = ts,
            extra_data = co_extra_data co,
            mix_hash = (case be_prevrandao env of None \<Rightarrow> 0 | Some r \<Rightarrow> r), hdr_nonce = 0,
            base_fee_per_gas = Some (be_basefee env),
            withdrawals_root = map_option (co_withdrawals_root co) ws,
            blob_gas_used = blob_used, excess_blob_gas = excess,
            parent_beacon_block_root = ctx_parent_beacon_block_root (eth_ctx ctx),
            requests_hash = requests\<rparr>,
         block_body = \<lparr>body_inner = \<lparr>transactions = txs, ommers = [], withdrawals = ws\<rparr>,
           sidecars = None,
           read_precompile_calls = ex_read_precompile_calls (ctx_extras ctx),
           highest_precompile_address = ex_highest_precompile_address (ctx_extras ctx)\<rparr>\<rparr>)"

section \<open>Properties\<close>

lemma saturating_to_u64_ucast [simp]: "saturating_to_u64 (ucast (n :: u64)) = n"
proof -
  have "unat (ucast n :: u256) = unat n"
    using unat_u64_less [of n] by (simp add: unsigned_ucast_eq take_bit_eq_mod)
  then show ?thesis using unat_u64_less [of n] by (simp add: saturating_to_u64_def)
qed

lemma assemble_block_header:
  assumes "assemble_block co input = Ok blk"
  shows "hdr_gas_used (block_header blk) = ber_gas_used (in_output input)"
    "receipts_root (block_header blk) =
       co_receipt_root_no_memo co (filter (\<lambda>r. rc_cumulative_gas_used r \<noteq> 0) (ber_receipts (in_output input)))"
    "logs_bloom (block_header blk) = logs_bloom_of co (concat (map rc_logs (ber_receipts (in_output input))))"
    "requests_hash (block_header blk) =
       (if co_prague_active co (timestamp (block_header blk))
        then Some (co_requests_hash co (ber_requests (in_output input))) else None)"
  using assms by (auto simp: assemble_block_def Let_def)

text \<open>
  C28. Assembling inverts the execution context. A block assembled in the environment and
  context of a block \<open>blk\<close>, whatever transactions and output it is given, has the number,
  timestamp, beneficiary, gas limit, randomness, base fee, parent hash and beacon root of
  \<open>blk\<close>, and its recorded precompile calls; its transactions are the ones given, its gas
  is the gas of the output, and executing it again happens in the same context and, where
  the blob fields agree, in the same environment.
\<close>

theorem assemble_inverts_context:
  assumes "assemble_block co \<lparr>in_evm_env = hl_evm_env co (block_header blk),
      in_execution_ctx = context_for_block blk, in_parent = parent, in_transactions = txs,
      in_output = out, in_state_root = root\<rparr> = (Ok blk' :: (hl_block, unit block_execution_error) result)"
    and "withdrawals (body_inner (block_body blk)) \<noteq> None" "ommers (body_inner (block_body blk)) = []"
    and "co_shanghai_active co (timestamp (block_header blk))"
  shows "context_for_block blk' = context_for_block blk \<and>
    env_cfg (hl_evm_env co (block_header blk')) = env_cfg (hl_evm_env co (block_header blk)) \<and>
    (excess_blob_gas (block_header blk') = excess_blob_gas (block_header blk) \<longrightarrow>
       hl_evm_env co (block_header blk') = hl_evm_env co (block_header blk)) \<and>
    block_txs blk' = txs \<and> hdr_gas_used (block_header blk') = ber_gas_used out \<and>
    state_root (block_header blk') = root"
  using assms
  by (auto simp: assemble_block_def hl_evm_env_def context_for_block_def Let_def
      revm_spec_by_timestamp_and_block_number_def cong: option.case_cong)

definition example_chain_ops :: chain_ops where
  "example_chain_ops = \<lparr>co_chain_id = 999, co_byzantium_active = (\<lambda>_. True),
     co_shanghai_active = (\<lambda>_. True), co_cancun_active = (\<lambda>_. True), co_prague_active = (\<lambda>_. False),
     co_blob_params = (\<lambda>_. Some \<lparr>max_blobs_per_tx = 6, blob_params_id = 0\<rparr>),
     co_calc_blob_fee = (\<lambda>_ excess. 1 + ucast excess), co_next_block_base_fee = (\<lambda>_ _. Some 7),
     co_next_block_excess_blob_gas = (\<lambda>_ _. Some 0), co_first_excess_blob_gas = 0,
     co_transaction_root = (\<lambda>txs. of_nat (length txs)),
     co_receipt_root_no_memo = (\<lambda>rs. of_nat (length rs)), co_receipt_root = (\<lambda>rs. of_nat (length rs)),
     co_withdrawals_root = (\<lambda>ws. of_nat (length ws)), co_requests_hash = (\<lambda>rs. of_nat (length rs)),
     co_log_bloom = (\<lambda>l. 1), co_tx_blob_gas_used = (\<lambda>_. None), co_extra_data = []\<rparr>"

definition example_input :: "hl_block \<Rightarrow> transaction_signed list \<Rightarrow> block_execution_result \<Rightarrow> block_assembler_input" where
  "example_input blk txs out = \<lparr>in_evm_env = hl_evm_env example_chain_ops (block_header blk),
     in_execution_ctx = context_for_block blk, in_parent = example_header, in_transactions = txs,
     in_output = out, in_state_root = 5\<rparr>"

definition example_block_ws :: hl_block where
  "example_block_ws = example_block\<lparr>block_body := (block_body example_block)\<lparr>body_inner :=
     (body_inner (block_body example_block))\<lparr>withdrawals := Some []\<rparr>\<rparr>\<rparr>"

theorem assemble_inverts_context_witness:
  "\<exists>blk'. assemble_block example_chain_ops (example_input example_block_ws (block_txs example_block_ws)
       \<lparr>ber_receipts = [], ber_requests = [], ber_gas_used = 0\<rparr>) =
       (Ok blk' :: (hl_block, unit block_execution_error) result) \<and>
     context_for_block blk' = context_for_block example_block_ws \<and>
     block_txs blk' = block_txs example_block_ws"
proof -
  obtain blk' where run: "assemble_block example_chain_ops (example_input example_block_ws
       (block_txs example_block_ws) \<lparr>ber_receipts = [], ber_requests = [], ber_gas_used = 0\<rparr>) =
       (Ok blk' :: (hl_block, unit block_execution_error) result)"
    by (simp add: assemble_block_def Let_def)
  have body: "withdrawals (body_inner (block_body example_block_ws)) \<noteq> None"
    "ommers (body_inner (block_body example_block_ws)) = []"
    "co_shanghai_active example_chain_ops (timestamp (block_header example_block_ws))"
    by (simp_all add: example_block_ws_def example_block_def example_chain_ops_def)
  from assemble_inverts_context [OF run [unfolded example_input_def] body] run show ?thesis by blast
qed

end
