(* ===== verification/Storage.thy ===== *)
theory Storage
  imports Hl_Types
begin

text \<open>
  The node's chain storage (\<open>src/src/node/storage/mod.rs\<close>, \<open>tables.rs\<close>). reth's own storage
  keeps the bodies; the precompile calls of a block and its highest precompile address go, as
  MessagePack, into one more table, keyed by the block number. The database transaction, reth's
  \<open>EthStorage\<close> and the MessagePack codec are arguments. A database operation returns the
  transaction it leaves behind, also when it fails.
\<close>

section \<open>The database\<close>

datatype storage_location = Database | StaticFiles | Both

record ('db, 'e) store_ops =
  st_write_bodies :: "(u64 \<times> inner_tx block_body option) list \<Rightarrow> storage_location \<Rightarrow> 'db \<Rightarrow> 'db \<times> (unit, 'e) result"
  st_read_bodies :: "(header \<times> inner_tx list) list \<Rightarrow> 'db \<Rightarrow> (inner_tx block_body list, 'e) result"
  st_remove_above :: "u64 \<Rightarrow> storage_location \<Rightarrow> 'db \<Rightarrow> 'db \<times> (unit, 'e) result"
  st_cursor :: "'db \<Rightarrow> (unit, 'e) result"
  st_append :: "u64 \<Rightarrow> bytes \<Rightarrow> 'db \<Rightarrow> 'db \<times> (unit, 'e) result"
  st_seek_exact :: "u64 \<Rightarrow> 'db \<Rightarrow> ((u64 \<times> bytes) option, 'e) result"
  st_unwind :: "u64 \<Rightarrow> 'db \<Rightarrow> 'db \<times> (unit, 'e) result"
  st_to_vec :: "hl_extras \<Rightarrow> bytes option"
  st_from_slice :: "bytes \<Rightarrow> hl_extras option"

section \<open>Writing\<close>

fun append_calls :: "('db, 'e) store_ops \<Rightarrow> (u64 \<times> hl_extras) list \<Rightarrow> 'db \<Rightarrow> ('db \<times> (unit, 'e) result) run" where
  "append_calls ops [] db = Returns (db, Ok ())"
| "append_calls ops ((number, extras) # inputs) db =
     run_bind (unwrap (st_to_vec ops extras)) (\<lambda>v.
       case st_append ops number v db of
         (db, Err e) \<Rightarrow> Returns (db, Err e)
       | (db, Ok _) \<Rightarrow> append_calls ops inputs db)"

definition write_precompile_calls ::
  "('db, 'e) store_ops \<Rightarrow> (u64 \<times> hl_extras) list \<Rightarrow> 'db \<Rightarrow> ('db \<times> (unit, 'e) result) run" where
  "write_precompile_calls ops inputs db =
     (case st_cursor ops db of Err e \<Rightarrow> Returns (db, Err e) | Ok _ \<Rightarrow> append_calls ops inputs db)"

definition eth_body_of :: "u64 \<times> hl_block_body option \<Rightarrow> u64 \<times> inner_tx block_body option" where
  "eth_body_of = (\<lambda>(number, body). (number, map_option (\<lambda>b. convert_to_eth_block_body (body_inner b)) body))"

definition extras_of :: "hl_block_body \<Rightarrow> hl_extras" where
  "extras_of b = \<lparr>ex_read_precompile_calls = read_precompile_calls b,
                  ex_highest_precompile_address = highest_precompile_address b\<rparr>"

definition calls_of_body :: "u64 \<times> hl_block_body option \<Rightarrow> u64 \<times> hl_extras" where
  "calls_of_body = (\<lambda>(number, body). (number,
     case body of Some b \<Rightarrow> extras_of b
     | None \<Rightarrow> \<lparr>ex_read_precompile_calls = None, ex_highest_precompile_address = None\<rparr>))"

definition write_block_bodies ::
  "('db, 'e) store_ops \<Rightarrow> (u64 \<times> hl_block_body option) list \<Rightarrow> storage_location \<Rightarrow> 'db \<Rightarrow>
     ('db \<times> (unit, 'e) result) run" where
  "write_block_bodies ops bodies write_to db =
     (case st_write_bodies ops (map eth_body_of bodies) write_to db of
        (db, Err e) \<Rightarrow> Returns (db, Err e)
      | (db, Ok _) \<Rightarrow> write_precompile_calls ops (map calls_of_body bodies) db)"

definition remove_block_bodies_above ::
  "('db, 'e) store_ops \<Rightarrow> u64 \<Rightarrow> storage_location \<Rightarrow> 'db \<Rightarrow> 'db \<times> (unit, 'e) result" where
  "remove_block_bodies_above ops block remove_from db =
     (case st_remove_above ops block remove_from db of
        (db, Err e) \<Rightarrow> (db, Err e)
      | (db, Ok _) \<Rightarrow> st_unwind ops block db)"

section \<open>Reading\<close>

fun seek_calls ::
  "('db, 'e) store_ops \<Rightarrow> (header \<times> transaction_signed list) list \<Rightarrow> 'db \<Rightarrow> (hl_extras list, 'e) result run" where
  "seek_calls ops [] db = Returns (Ok [])"
| "seek_calls ops ((header, _) # inputs) db =
     (case st_seek_exact ops (hdr_number header) db of
        Err e \<Rightarrow> Returns (Err e)
      | Ok found \<Rightarrow>
          run_bind (case found of None \<Rightarrow> Returns default_extras | Some (_, calls) \<Rightarrow> unwrap (st_from_slice ops calls))
            (\<lambda>x. run_bind (seek_calls ops inputs db) (\<lambda>r. Returns (res_bind r (\<lambda>xs. Ok (x # xs))))))"

definition read_calls ::
  "('db, 'e) store_ops \<Rightarrow> (header \<times> transaction_signed list) list \<Rightarrow> 'db \<Rightarrow> (hl_extras list, 'e) result run" where
  "read_calls ops inputs db =
     (case st_cursor ops db of Err e \<Rightarrow> Returns (Err e) | Ok _ \<Rightarrow> seek_calls ops inputs db)"

definition body_with_extras :: "inner_tx block_body \<times> hl_extras \<Rightarrow> hl_block_body" where
  "body_with_extras = (\<lambda>(inner, extra).
     \<lparr>body_inner = convert_to_hl_block_body inner, sidecars = None,
      read_precompile_calls = ex_read_precompile_calls extra,
      highest_precompile_address = ex_highest_precompile_address extra\<rparr>)"

definition read_block_bodies ::
  "('db, 'e) store_ops \<Rightarrow> (header \<times> transaction_signed list) list \<Rightarrow> 'db \<Rightarrow> (hl_block_body list, 'e) result run" where
  "read_block_bodies ops inputs db =
     run_bind (read_calls ops inputs db) (\<lambda>calls. case calls of
       Err e \<Rightarrow> Returns (Err e)
     | Ok calls \<Rightarrow>
         (case st_read_bodies ops (map (\<lambda>(header, transactions). (header, map into_inner transactions)) inputs) db of
            Err e \<Rightarrow> Returns (Err e)
          | Ok eth_bodies \<Rightarrow> Returns (Ok (map body_with_extras (zip eth_bodies calls)))))"

section \<open>What the storage relies on\<close>

text \<open>
  \<open>table\<close> is the table of extras. \<open>rows\<close> is what reth's two tables hold for a block, its
  ommers and its withdrawals, empty where there is no row: reth stores neither the header
  nor the transactions here. A body without ommers, or without withdrawals, writes no row.
  Reading builds the body from the transactions it is given and from the rows; the hardforks
  of the header decide whether it can have ommers (before Paris) and whether it has
  withdrawals (from Shanghai on).
\<close>

definition rows_after ::
  "inner_tx block_body option \<Rightarrow> header list \<times> withdrawal list \<Rightarrow> header list \<times> withdrawal list" where
  "rows_after body old =
     (case body of None \<Rightarrow> old
      | Some b \<Rightarrow> (if ommers b = [] then fst old else ommers b,
                  case withdrawals b of None \<Rightarrow> snd old | Some ws \<Rightarrow> if ws = [] then snd old else ws))"

definition body_of_rows ::
  "(header \<Rightarrow> bool) \<Rightarrow> (header \<Rightarrow> bool) \<Rightarrow> header list \<times> withdrawal list \<Rightarrow> header \<Rightarrow> inner_tx list \<Rightarrow> inner_tx block_body" where
  "body_of_rows paris shanghai r header txs =
     \<lparr>transactions = txs, ommers = (if paris header then [] else fst r),
      withdrawals = (if shanghai header then Some (snd r) else None)\<rparr>"

text \<open>The bodies that go with a header.\<close>

definition storable :: "(header \<Rightarrow> bool) \<Rightarrow> (header \<Rightarrow> bool) \<Rightarrow> header \<Rightarrow> inner_tx block_body \<Rightarrow> bool" where
  "storable paris shanghai header b \<longleftrightarrow>
     (paris header \<longrightarrow> ommers b = []) \<and> (withdrawals b \<noteq> None \<longleftrightarrow> shanghai header)"

text \<open>Every row belongs to a block whose extras are in the table.\<close>

definition store_ok :: "('db \<Rightarrow> u64 \<rightharpoonup> bytes) \<Rightarrow> ('db \<Rightarrow> u64 \<Rightarrow> header list \<times> withdrawal list) \<Rightarrow> 'db \<Rightarrow> bool" where
  "store_ok table rows db \<longleftrightarrow> (\<forall>k. rows db k \<noteq> ([], []) \<longrightarrow> table db k \<noteq> None)"

text \<open>
  The laws of an operation that succeeds: it has its effect on its own tables and leaves the
  others alone. An entry is appended only behind all others. What is looked up is the entry
  of the key. The codec is faithful.
\<close>

locale chain_store =
  fixes ops :: "('db, 'e) store_ops"
    and table :: "'db \<Rightarrow> u64 \<rightharpoonup> bytes"
    and rows :: "'db \<Rightarrow> u64 \<Rightarrow> header list \<times> withdrawal list"
    and paris :: "header \<Rightarrow> bool" and shanghai :: "header \<Rightarrow> bool"
  assumes write_bodies: "st_write_bodies ops bs loc db = (db', Ok ()) \<Longrightarrow>
      table db' = table db \<and> rows db' = fold (\<lambda>(n, b) m. m(n := rows_after b (m n))) bs (rows db)"
    and read_bodies: "st_read_bodies ops inputs db = Ok bodies \<Longrightarrow>
      bodies = map (\<lambda>(h, txs). body_of_rows paris shanghai (rows db (hdr_number h)) h txs) inputs"
    and remove_above: "st_remove_above ops n loc db = (db', Ok ()) \<Longrightarrow>
      table db' = table db \<and> (\<forall>k. rows db' k = (if k \<le> n then rows db k else ([], [])))"
    and append_entry: "st_append ops n v db = (db', Ok ()) \<Longrightarrow>
      (\<forall>k \<in> dom (table db). k < n) \<and> table db' = (table db)(n \<mapsto> v) \<and> rows db' = rows db"
    and seek_exact: "st_seek_exact ops n db = Ok r \<Longrightarrow> r = map_option (\<lambda>v. (n, v)) (table db n)"
    and unwind_table: "st_unwind ops n db = (db', Ok ()) \<Longrightarrow>
      (\<forall>k. table db' k = (if k \<le> n then table db k else None)) \<and> rows db' = rows db"
    and codec: "st_to_vec ops x = Some v \<Longrightarrow> st_from_slice ops v = Some x"

text \<open>
  A database that works: what an operation asks for it gets, as long as the entries to be
  appended are in order and behind those that are there.
\<close>

locale working_store = chain_store ops table rows paris shanghai
  for ops :: "('db, 'e) store_ops" and table rows paris shanghai +
  assumes write_works: "sorted_wrt (<) (map fst bs) \<Longrightarrow>
      (\<And>k n. rows db k \<noteq> ([], []) \<Longrightarrow> n \<in> fst ` set bs \<Longrightarrow> k < n) \<Longrightarrow> \<exists>db'. st_write_bodies ops bs loc db = (db', Ok ())"
    and read_works: "\<exists>bodies. st_read_bodies ops inputs db = Ok bodies"
    and remove_works: "\<exists>db'. st_remove_above ops n loc db = (db', Ok ())"
    and cursor_opens: "st_cursor ops db = Ok ()"
    and append_works: "(\<And>k. k \<in> dom (table db) \<Longrightarrow> k < n) \<Longrightarrow> \<exists>db'. st_append ops n v db = (db', Ok ())"
    and seek_works: "\<exists>r. st_seek_exact ops n db = Ok r"
    and unwind_works: "\<exists>db'. st_unwind ops n db = (db', Ok ())"

section \<open>Lemmas\<close>

lemma fold_rows_other: "n \<notin> fst ` set bs \<Longrightarrow> fold (\<lambda>(n, b) m. m(n := rows_after b (m n))) bs m n = m n"
  by (induction bs arbitrary: m) auto

lemma fold_rows_entry:
  "distinct (map fst bs) \<Longrightarrow> (n, b) \<in> set bs \<Longrightarrow>
    fold (\<lambda>(n, b) m. m(n := rows_after b (m n))) bs m n = rows_after b (m n)"
proof (induction bs arbitrary: m)
  case (Cons nb bs)
  show ?case
  proof (cases "(n, b) \<in> set bs")
    case True
    then have "n \<in> fst ` set bs" by force
    with Cons.prems(1) have "fst nb \<noteq> n" by auto
    with Cons True show ?thesis by (cases nb) simp
  next
    case False
    with Cons.prems(2) have nb: "nb = (n, b)" by simp
    with Cons.prems(1) have "n \<notin> fst ` set bs" by simp
    from fold_rows_other [OF this, of "m(n := rows_after b (m n))"] show ?thesis
      by (simp only: nb fold.simps prod.case comp_def fun_upd_same)
  qed
qed simp

text \<open>A storable body is what reading builds from its transactions and the rows it was written to.\<close>

lemma body_of_rows_after:
  assumes "storable paris shanghai h b"
  shows "body_of_rows paris shanghai (rows_after (Some b) ([], [])) h (transactions b) = b"
  using assms by (cases b) (auto simp: body_of_rows_def rows_after_def storable_def)

lemma body_numbers [simp]:
  "map fst (map eth_body_of bs) = map fst bs" "map fst (map calls_of_body bs) = map fst bs"
  "fst ` eth_body_of ` set bs = fst ` set bs" "fst ` calls_of_body ` set bs = fst ` set bs"
  by (force simp: eth_body_of_def calls_of_body_def)+

lemma body_entries:
  assumes "(n, Some b) \<in> set bs"
  shows "(n, Some (convert_to_eth_block_body (body_inner b))) \<in> set (map eth_body_of bs)"
    "(n, extras_of b) \<in> set (map calls_of_body bs)"
  using imageI [OF assms, of eth_body_of] imageI [OF assms, of calls_of_body]
  by (simp_all add: eth_body_of_def calls_of_body_def)

context chain_store
begin

text \<open>Block \<open>h\<close> is stored with body \<open>b\<close>.\<close>

definition stored :: "'db \<Rightarrow> header \<times> hl_block_body \<Rightarrow> bool" where
  "stored db = (\<lambda>(h, b).
     rows db (hdr_number h) = rows_after (Some (convert_to_eth_block_body (body_inner b))) ([], []) \<and>
     storable paris shanghai h (convert_to_eth_block_body (body_inner b)) \<and>
     (\<exists>v. table db (hdr_number h) = Some v \<and> st_from_slice ops v = Some (extras_of b)))"

lemma append_calls_effect:
  assumes "append_calls ops xs db = Returns (db', Ok ())"
  shows "rows db' = rows db \<and> dom (table db') = dom (table db) \<union> fst ` set xs \<and>
    (\<forall>k \<in> dom (table db). table db' k = table db k) \<and> (\<forall>k \<in> dom (table db). \<forall>n \<in> fst ` set xs. k < n) \<and>
    sorted_wrt (<) (map fst xs) \<and>
    (\<forall>(n, x) \<in> set xs. \<exists>v. table db' n = Some v \<and> st_from_slice ops v = Some x)"
  using assms
proof (induction xs arbitrary: db)
  case (Cons nx xs)
  obtain n x where nx: "nx = (n, x)" by (cases nx)
  from Cons.prems obtain v where v: "st_to_vec ops x = Some v"
    by (auto simp: nx run_bind_eq_Returns_iff unwrap_def split: option.splits)
  obtain db1 r where app: "st_append ops n v db = (db1, r)" by (cases "st_append ops n v db")
  from Cons.prems v app have r: "r = Ok ()" "append_calls ops xs db1 = Returns (db', Ok ())"
    by (auto simp: nx split: sum.splits)
  have db1: "\<forall>k \<in> dom (table db). k < n" "table db1 = (table db)(n \<mapsto> v)" "rows db1 = rows db"
    using append_entry app r(1) by auto
  have dom1: "dom (table db1) = insert n (dom (table db))" using db1(2) by simp
  have IH: "rows db' = rows db1" "dom (table db') = dom (table db1) \<union> fst ` set xs"
    "\<forall>k \<in> dom (table db1). table db' k = table db1 k" "\<forall>k \<in> dom (table db1). \<forall>n \<in> fst ` set xs. k < n"
    "sorted_wrt (<) (map fst xs)" "\<forall>(n, x) \<in> set xs. \<exists>v. table db' n = Some v \<and> st_from_slice ops v = Some x"
    using Cons.IH [OF r(2)] by blast+
  have entry: "table db' n = Some v" using IH(3) db1(2) dom1 by simp
  have kept: "table db' k = table db k" if "k \<in> dom (table db)" for k
    using IH(3) db1(1,2) dom1 that by auto
  show ?case
  proof (intro conjI)
    show "rows db' = rows db" using IH(1) db1(3) by simp
    show "dom (table db') = dom (table db) \<union> fst ` set (nx # xs)" using IH(2) dom1 by (simp add: nx)
    show "\<forall>k \<in> dom (table db). table db' k = table db k" using kept by blast
    show "\<forall>k \<in> dom (table db). \<forall>n \<in> fst ` set (nx # xs). k < n" using IH(4) db1(1) dom1 by (simp add: nx)
    show "sorted_wrt (<) (map fst (nx # xs))" using IH(4,5) dom1 by (simp add: nx)
    show "\<forall>(n, x) \<in> set (nx # xs). \<exists>v. table db' n = Some v \<and> st_from_slice ops v = Some x"
      using IH(6) entry codec [OF v] by (simp add: nx)
  qed
qed simp

text \<open>What a write that succeeds has done, and that it only succeeds in order and behind the table.\<close>

lemma write_effect:
  assumes "write_block_bodies ops bs loc db = Returns (db', Ok ())"
  shows "rows db' = fold (\<lambda>(n, b) m. m(n := rows_after b (m n))) (map eth_body_of bs) (rows db)"
    and "dom (table db') = dom (table db) \<union> fst ` set bs"
    and "\<And>k. k \<in> dom (table db) \<Longrightarrow> table db' k = table db k"
    and "\<And>k n. k \<in> dom (table db) \<Longrightarrow> n \<in> fst ` set bs \<Longrightarrow> k < n" and "distinct (map fst bs)"
    and "\<And>n b. (n, Some b) \<in> set bs \<Longrightarrow> \<exists>v. table db' n = Some v \<and> st_from_slice ops v = Some (extras_of b)"
proof -
  obtain db1 r where w: "st_write_bodies ops (map eth_body_of bs) loc db = (db1, r)" by force
  with assms have r: "r = Ok ()" "append_calls ops (map calls_of_body bs) db1 = Returns (db', Ok ())"
    by (auto simp: write_block_bodies_def write_precompile_calls_def split: sum.splits)
  note db1 = write_bodies [OF w [unfolded r(1)]]
  note eff = append_calls_effect [OF r(2), unfolded body_numbers]
  show "rows db' = fold (\<lambda>(n, b) m. m(n := rows_after b (m n))) (map eth_body_of bs) (rows db)"
    using db1 eff by simp
  show "dom (table db') = dom (table db) \<union> fst ` set bs" using db1 eff by simp
  show "\<And>k. k \<in> dom (table db) \<Longrightarrow> table db' k = table db k" using db1 eff by simp
  show "\<And>k n. k \<in> dom (table db) \<Longrightarrow> n \<in> fst ` set bs \<Longrightarrow> k < n" using db1 eff by auto
  show "distinct (map fst bs)" using eff by (simp add: strict_sorted_iff)
  show "\<exists>v. table db' n = Some v \<and> st_from_slice ops v = Some (extras_of b)" if "(n, Some b) \<in> set bs" for n b
    using eff body_entries(2) [OF that] by blast
qed

lemma write_store_ok:
  assumes "write_block_bodies ops bs loc db = Returns (db', Ok ())" "store_ok table rows db"
  shows "store_ok table rows db'"
  unfolding store_ok_def
proof (intro allI impI)
  fix k assume "rows db' k \<noteq> ([], [])"
  then have "k \<in> fst ` set bs \<or> rows db k \<noteq> ([], [])"
    using write_effect(1) [OF assms(1)] fold_rows_other [of k "map eth_body_of bs" "rows db"] by auto
  then show "table db' k \<noteq> None"
    using write_effect(2) [OF assms(1)] assms(2) by (auto simp: store_ok_def)
qed

lemma write_stores:
  assumes "write_block_bodies ops bs loc db = Returns (db', Ok ())" "store_ok table rows db"
    and "(hdr_number h, Some b) \<in> set bs" "storable paris shanghai h (convert_to_eth_block_body (body_inner b))"
  shows "stored db' (h, b)"
proof -
  have mem: "hdr_number h \<in> fst ` set bs" using assms(3) by force
  then have "hdr_number h \<notin> dom (table db)" using write_effect(4) [OF assms(1)] by blast
  then have fresh: "rows db (hdr_number h) = ([], [])" using assms(2) by (auto simp: store_ok_def)
  have "distinct (map fst (map eth_body_of bs))" using write_effect(5) [OF assms(1)] by (simp only: body_numbers)
  from fold_rows_entry [OF this body_entries(1) [OF assms(3)], of "rows db"]
  have "rows db' (hdr_number h) = rows_after (Some (convert_to_eth_block_body (body_inner b))) ([], [])"
    unfolding write_effect(1) [OF assms(1)] fresh .
  with assms(4) write_effect(6) [OF assms(1,3)] show ?thesis by (simp add: stored_def)
qed

lemma write_keeps:
  assumes "write_block_bodies ops bs loc db = Returns (db', Ok ())" "stored db (h, b)"
  shows "stored db' (h, b)"
proof -
  have dom: "hdr_number h \<in> dom (table db)" using assms(2) by (auto simp: stored_def)
  then have "hdr_number h \<notin> fst ` set bs" using write_effect(4) [OF assms(1) dom] by blast
  then have "rows db' (hdr_number h) = rows db (hdr_number h)"
    unfolding write_effect(1) [OF assms(1)] by (intro fold_rows_other) simp
  with write_effect(3) [OF assms(1) dom] assms(2) show ?thesis by (simp add: stored_def)
qed

lemma remove_effect:
  assumes "remove_block_bodies_above ops n loc db = (db', Ok ())"
  shows "table db' k = (if k \<le> n then table db k else None) \<and> rows db' k = (if k \<le> n then rows db k else ([], []))"
proof -
  obtain db1 r where w: "st_remove_above ops n loc db = (db1, r)" by force
  with assms have r: "r = Ok ()" "st_unwind ops n db1 = (db', Ok ())"
    by (auto simp: remove_block_bodies_above_def split: sum.splits)
  from remove_above [OF w [unfolded r(1)]] unwind_table [OF r(2)] show ?thesis by simp
qed

lemma remove_keeps:
  assumes "remove_block_bodies_above ops n loc db = (db', Ok ())" "stored db (h, b)" "hdr_number h \<le> n"
  shows "stored db' (h, b)"
  using remove_effect [OF assms(1), of "hdr_number h"] assms(2,3) by (simp add: stored_def)

lemma remove_store_ok:
  assumes "remove_block_bodies_above ops n loc db = (db', Ok ())" "store_ok table rows db"
  shows "store_ok table rows db'"
  using remove_effect [OF assms(1)] assms(2) by (auto simp: store_ok_def)

end

context working_store
begin

lemma append_calls_works:
  assumes "sorted_wrt (<) (map fst xs)" "\<And>k n. k \<in> dom (table db) \<Longrightarrow> n \<in> fst ` set xs \<Longrightarrow> k < n"
    and "\<And>x. x \<in> snd ` set xs \<Longrightarrow> st_to_vec ops x \<noteq> None"
  shows "\<exists>db'. append_calls ops xs db = Returns (db', Ok ())"
  using assms
proof (induction xs arbitrary: db)
  case (Cons nx xs)
  obtain n x where nx: "nx = (n, x)" by (cases nx)
  obtain v where v: "st_to_vec ops x = Some v" using Cons.prems(3) by (auto simp: nx)
  obtain db1 where db1: "st_append ops n v db = (db1, Ok ())"
    using append_works [of db n v] Cons.prems(2) by (auto simp: nx)
  have tbl: "table db1 = (table db)(n \<mapsto> v)" using append_entry [OF db1] by simp
  have "k < m" if "k \<in> dom (table db1)" "m \<in> fst ` set xs" for k m
    using that Cons.prems(1) Cons.prems(2) [of k m] by (cases "k = n") (auto simp: tbl nx)
  then have "\<exists>db'. append_calls ops xs db1 = Returns (db', Ok ())"
    using Cons.prems(1,3) by (intro Cons.IH) (simp_all add: nx)
  then show ?case by (simp add: nx v db1)
qed simp

text \<open>Bodies in order, behind everything that is stored, can be written.\<close>

lemma write_succeeds:
  assumes "store_ok table rows db" "sorted_wrt (<) (map fst bs)"
    and "\<And>k n. k \<in> dom (table db) \<Longrightarrow> n \<in> fst ` set bs \<Longrightarrow> k < n"
    and "\<And>x. x \<in> snd ` calls_of_body ` set bs \<Longrightarrow> st_to_vec ops x \<noteq> None"
  shows "\<exists>db'. write_block_bodies ops bs loc db = Returns (db', Ok ())"
proof -
  have "\<exists>db1. st_write_bodies ops (map eth_body_of bs) loc db = (db1, Ok ())"
  proof (rule write_works)
    show "sorted_wrt (<) (map fst (map eth_body_of bs))" using assms(2) by (simp only: body_numbers)
    show "k < n" if "rows db k \<noteq> ([], [])" "n \<in> fst ` set (map eth_body_of bs)" for k n
      using assms(1,3) that by (auto simp: store_ok_def)
  qed
  then obtain db1 where db1: "st_write_bodies ops (map eth_body_of bs) loc db = (db1, Ok ())" ..
  have "table db1 = table db" using write_bodies [OF db1] by simp
  then have "\<exists>db'. append_calls ops (map calls_of_body bs) db1 = Returns (db', Ok ())"
    using assms(2-4) by (intro append_calls_works) (auto simp only: body_numbers set_map)
  with db1 show ?thesis by (simp add: write_block_bodies_def write_precompile_calls_def cursor_opens)
qed

lemma remove_succeeds: "\<exists>db'. remove_block_bodies_above ops n loc db = (db', Ok ())"
proof -
  obtain db1 where "st_remove_above ops n loc db = (db1, Ok ())" using remove_works by blast
  then show ?thesis using unwind_works [of n db1] by (simp add: remove_block_bodies_above_def)
qed

lemma seek_stored:
  "list_all (stored db) hbs \<Longrightarrow>
    seek_calls ops (map (\<lambda>hb. (fst hb, transactions (body_inner (snd hb)))) hbs) db =
      Returns (Ok (map (\<lambda>hb. extras_of (snd hb)) hbs))"
proof (induction hbs)
  case (Cons hb hbs)
  obtain h b where hb: "hb = (h, b)" by (cases hb)
  from Cons.prems obtain v where v: "table db (hdr_number h) = Some v" "st_from_slice ops v = Some (extras_of b)"
    by (auto simp: hb stored_def)
  obtain r where r: "st_seek_exact ops (hdr_number h) db = Ok r" using seek_works by blast
  from seek_exact [OF r] v Cons r show ?case by (simp add: hb)
qed simp

lemma read_bodies_stored:
  assumes "list_all (stored db) hbs"
  shows "st_read_bodies ops (map (\<lambda>hb. (fst hb, map into_inner (transactions (body_inner (snd hb))))) hbs) db =
    Ok (map (\<lambda>hb. convert_to_eth_block_body (body_inner (snd hb))) hbs)"
proof -
  let ?inputs = "map (\<lambda>hb. (fst hb, map into_inner (transactions (body_inner (snd hb))))) hbs"
  obtain bodies where bodies: "st_read_bodies ops ?inputs db = Ok bodies" using read_works by blast
  have "body_of_rows paris shanghai (rows db (hdr_number h)) h (map into_inner (transactions (body_inner b))) =
      convert_to_eth_block_body (body_inner b)" if "(h, b) \<in> set hbs" for h b
  proof -
    have "stored db (h, b)" using assms that by (auto simp: list_all_iff)
    then show ?thesis
      using body_of_rows_after [of paris shanghai h "convert_to_eth_block_body (body_inner b)"]
      by (simp add: stored_def) (simp add: convert_to_eth_block_body_def)
  qed
  then have "bodies = map (\<lambda>hb. convert_to_eth_block_body (body_inner (snd hb))) hbs"
    unfolding read_bodies [OF bodies] by auto
  with bodies show ?thesis by simp
qed

lemma read_stored:
  assumes "list_all (stored db) hbs"
  shows "read_block_bodies ops (map (\<lambda>hb. (fst hb, transactions (body_inner (snd hb)))) hbs) db =
    Returns (Ok (map (\<lambda>hb. (snd hb)\<lparr>sidecars := None\<rparr>) hbs))"
proof -
  have zip: "zip (map f hbs) (map g hbs) = map (\<lambda>hb. (f hb, g hb)) hbs" for f :: "_ \<Rightarrow> 'x" and g :: "_ \<Rightarrow> 'y"
    by (induction hbs) simp_all
  have "map (\<lambda>(header, transactions). (header, map into_inner transactions))
      (map (\<lambda>hb. (fst hb, transactions (body_inner (snd hb)))) hbs) =
      map (\<lambda>hb. (fst hb, map into_inner (transactions (body_inner (snd hb))))) hbs"
    by simp
  then show ?thesis
    using seek_stored [OF assms] read_bodies_stored [OF assms]
    by (simp add: read_block_bodies_def read_calls_def cursor_opens zip del: map_map)
      (simp add: body_with_extras_def extras_of_def)
qed

end

section \<open>Properties\<close>

text \<open>
  What is written is read back. After bodies have been written, reading the blocks with
  their headers and transactions returns the same bodies, with the precompile calls and the
  highest precompile address they were written with; only sidecars are not kept.
\<close>

theorem storage_roundtrip:
  assumes "working_store ops table rows paris shanghai" "store_ok table rows db"
    and "write_block_bodies ops bs loc db = Returns (db', Ok ())"
    and "\<And>h b. (h, b) \<in> set hbs \<Longrightarrow>
      (hdr_number h, Some b) \<in> set bs \<and> storable paris shanghai h (convert_to_eth_block_body (body_inner b))"
  shows "read_block_bodies ops (map (\<lambda>hb. (fst hb, transactions (body_inner (snd hb)))) hbs) db' =
    Returns (Ok (map (\<lambda>hb. (snd hb)\<lparr>sidecars := None\<rparr>) hbs))"
proof (rule working_store.read_stored [OF assms(1)])
  show "list_all (chain_store.stored ops table rows paris shanghai db') hbs"
    using assms(4) chain_store.write_stores [OF working_store.axioms(1) [OF assms(1)] assms(3,2)]
    by (auto simp: list_all_iff)
qed

text \<open>
  C33. A reorganisation. Over a database that works, write a chain behind what is stored;
  while its blocks are there, none of their heights can be written again. Remove everything
  above block \<open>n\<close>, which succeeds, and other blocks can be written above \<open>n\<close>: then the blocks up
  to \<open>n\<close> of the first chain and all blocks of the second are read back as they were
  written, and nothing of the removed blocks is left in any table.
\<close>

theorem storage_reorg:
  assumes "working_store ops table rows paris shanghai" "store_ok table rows db"
    and "sorted_wrt (<) (map fst bs)" "\<And>k m. k \<in> dom (table db) \<Longrightarrow> m \<in> fst ` set bs \<Longrightarrow> k < m"
    and "sorted_wrt (<) (map fst bs')" "\<And>k. k \<in> fst ` set bs' \<Longrightarrow> n < k"
    and "\<And>x. x \<in> snd ` calls_of_body ` set (bs @ bs') \<Longrightarrow> st_to_vec ops x \<noteq> None"
    and "\<And>h b. (h, b) \<in> set hbs \<Longrightarrow> storable paris shanghai h (convert_to_eth_block_body (body_inner b)) \<and>
      ((hdr_number h, Some b) \<in> set bs \<and> hdr_number h \<le> n \<or> (hdr_number h, Some b) \<in> set bs')"
  shows "\<exists>db1 db2 db3. write_block_bodies ops bs loc db = Returns (db1, Ok ()) \<and>
    (fst ` set bs \<inter> fst ` set bs' \<noteq> {} \<longrightarrow> (\<nexists>db'. write_block_bodies ops bs' loc db1 = Returns (db', Ok ()))) \<and>
    remove_block_bodies_above ops n loc' db1 = (db2, Ok ()) \<and>
    write_block_bodies ops bs' loc db2 = Returns (db3, Ok ()) \<and>
    read_block_bodies ops (map (\<lambda>hb. (fst hb, transactions (body_inner (snd hb)))) hbs) db3 =
      Returns (Ok (map (\<lambda>hb. (snd hb)\<lparr>sidecars := None\<rparr>) hbs)) \<and>
    (\<forall>k. n < k \<and> k \<notin> fst ` set bs' \<longrightarrow> table db3 k = None \<and> rows db3 k = ([], []))"
proof -
  note store = working_store.axioms(1) [OF assms(1)]
  note effect = chain_store.write_effect [OF store] and removed = chain_store.remove_effect [OF store]
  obtain db1 where db1: "write_block_bodies ops bs loc db = Returns (db1, Ok ())"
    using working_store.write_succeeds [OF assms(1-3)] assms(4,7) by force
  obtain db2 where db2: "remove_block_bodies_above ops n loc' db1 = (db2, Ok ())"
    using working_store.remove_succeeds [OF assms(1)] by blast
  have ok1: "store_ok table rows db1" using chain_store.write_store_ok [OF store db1 assms(2)] .
  have ok2: "store_ok table rows db2" using chain_store.remove_store_ok [OF store db2 ok1] .
  have "k < m" if "k \<in> dom (table db2)" "m \<in> fst ` set bs'" for k m
    using removed [OF db2, of k] that assms(6) [OF that(2)] by (auto split: if_splits)
  then obtain db3 where db3: "write_block_bodies ops bs' loc db2 = Returns (db3, Ok ())"
    using working_store.write_succeeds [OF assms(1) ok2 assms(5)] assms(7) by force
  have refused: "\<nexists>db'. write_block_bodies ops bs' loc db1 = Returns (db', Ok ())" if "fst ` set bs \<inter> fst ` set bs' \<noteq> {}"
    using effect(4) [where db = db1 and bs = bs'] effect(2) [OF db1] that by blast
  have "chain_store.stored ops table rows paris shanghai db3 (h, b)" if "(h, b) \<in> set hbs" for h b
    using assms(8) [OF that]
  proof (elim conjE disjE)
    assume h: "storable paris shanghai h (convert_to_eth_block_body (body_inner b))" "(hdr_number h, Some b) \<in> set bs"
      "hdr_number h \<le> n"
    note old = chain_store.write_stores [OF store db1 assms(2) h(2,1)]
    show ?thesis
      by (rule chain_store.write_keeps [OF store db3 chain_store.remove_keeps [OF store db2 old h(3)]])
  next
    assume "storable paris shanghai h (convert_to_eth_block_body (body_inner b))" "(hdr_number h, Some b) \<in> set bs'"
    then show ?thesis by (intro chain_store.write_stores [OF store db3 ok2])
  qed
  then have "list_all (chain_store.stored ops table rows paris shanghai db3) hbs" by (auto simp: list_all_iff)
  from working_store.read_stored [OF assms(1) this]
  have read: "read_block_bodies ops (map (\<lambda>hb. (fst hb, transactions (body_inner (snd hb)))) hbs) db3 =
      Returns (Ok (map (\<lambda>hb. (snd hb)\<lparr>sidecars := None\<rparr>) hbs))" .
  have "table db3 k = None \<and> rows db3 k = ([], [])" if "n < k" "k \<notin> fst ` set bs'" for k
  proof -
    have "table db2 k = None" "rows db2 k = ([], [])" using removed [OF db2, of k] that(1) by auto
    moreover have "rows db3 k = rows db2 k"
      unfolding effect(1) [OF db3] by (rule fold_rows_other) (use that(2) in simp)
    moreover have "k \<notin> dom (table db3)" unfolding effect(2) [OF db3] using that(2) calculation(1) by auto
    ultimately show ?thesis by (simp add: domIff)
  qed
  with db1 db2 db3 refused read show ?thesis by blast
qed

section \<open>An example\<close>

text \<open>A database of a list of entries, newest first, and a map of rows; a codec for the default extras.\<close>

type_synonym example_db = "(u64 \<times> bytes) list \<times> (u64 \<Rightarrow> header list \<times> withdrawal list)"

definition example_store :: "(example_db, unit) store_ops" where
  "example_store = \<lparr>
     st_write_bodies = (\<lambda>bs _ (t, m). ((t, fold (\<lambda>(n, b) m. m(n := rows_after b (m n))) bs m), Ok ())),
     st_read_bodies = (\<lambda>inputs (t, m).
       Ok (map (\<lambda>(h, txs). body_of_rows (\<lambda>_. False) (\<lambda>_. False) (m (hdr_number h)) h txs) inputs)),
     st_remove_above = (\<lambda>n _ (t, m). ((t, \<lambda>k. if k \<le> n then m k else ([], [])), Ok ())),
     st_cursor = (\<lambda>_. Ok ()),
     st_append = (\<lambda>n v (t, m). if list_all (\<lambda>(k, _). k < n) t then (((n, v) # t, m), Ok ()) else ((t, m), Err ())),
     st_seek_exact = (\<lambda>n (t, m). Ok (map_option (\<lambda>v. (n, v)) (map_of t n))),
     st_unwind = (\<lambda>n (t, m). ((filter (\<lambda>(k, _). k \<le> n) t, m), Ok ())),
     st_to_vec = (\<lambda>x. if x = default_extras then Some [0xC0] else None),
     st_from_slice = (\<lambda>v. if v = [0xC0] then Some default_extras else None)\<rparr>"

lemma map_of_filter_key: "map_of (filter (\<lambda>(k, _). P k) t) k = (if P k then map_of t k else None)"
  by (induction t) auto

lemma list_all_dom: "list_all (\<lambda>(k, _). P k) t \<longleftrightarrow> (\<forall>k \<in> dom (map_of t). P k)"
  by (force simp: dom_map_of_conv_image_fst list_all_iff)

interpretation example_chain_store: working_store example_store "\<lambda>(t, m). map_of t" snd "\<lambda>_. False" "\<lambda>_. False"
  by unfold_locales
    (auto simp: example_store_def map_of_filter_key list_all_dom split: if_splits prod.splits)

definition example_store_header :: "u64 \<Rightarrow> header" where
  "example_store_header n = \<lparr>parent_hash = 0, ommers_hash = 0, beneficiary = 0, state_root = 0, transactions_root = 0,
     receipts_root = 0, logs_bloom = 0, difficulty = 0, hdr_number = n, hdr_gas_limit = 30000000,
     hdr_gas_used = 0, timestamp = 1, extra_data = [], mix_hash = 0, hdr_nonce = 0,
     base_fee_per_gas = Some 0, withdrawals_root = None, blob_gas_used = None, excess_blob_gas = None,
     parent_beacon_block_root = None, requests_hash = None\<rparr>"

definition example_store_body :: hl_block_body where
  "example_store_body = \<lparr>body_inner = \<lparr>transactions = [], ommers = [], withdrawals = None\<rparr>, sidecars = Some [],
     read_precompile_calls = None, highest_precompile_address = None\<rparr>"

lemma example_extras: "extras_of example_store_body = default_extras"
  by (simp add: extras_of_def example_store_body_def default_extras_def)

lemma example_storable: "storable (\<lambda>_. False) (\<lambda>_. False) h (convert_to_eth_block_body (body_inner example_store_body))"
  by (simp add: storable_def convert_to_eth_block_body_def example_store_body_def)

text \<open>The block of height 1 is written, removed and written again.\<close>

theorem storage_reorg_witness:
  "\<exists>db1 db2 db3. write_block_bodies example_store [(1, Some example_store_body)] Both ([], \<lambda>_. ([], [])) = Returns (db1, Ok ()) \<and>
    (\<nexists>db'. write_block_bodies example_store [(1, Some example_store_body)] Both db1 = Returns (db', Ok ())) \<and>
    remove_block_bodies_above example_store 0 Both db1 = (db2, Ok ()) \<and>
    write_block_bodies example_store [(1, Some example_store_body)] Both db2 = Returns (db3, Ok ()) \<and>
    read_block_bodies example_store [(example_store_header 1, [])] db3 = Returns (Ok [example_store_body\<lparr>sidecars := None\<rparr>])"
proof -
  let ?bs = "[(1 :: u64, Some example_store_body)]"
  have "\<exists>db1 db2 db3. write_block_bodies example_store ?bs Both ([], \<lambda>_. ([], [])) = Returns (db1, Ok ()) \<and>
    (fst ` set ?bs \<inter> fst ` set ?bs \<noteq> {} \<longrightarrow> (\<nexists>db'. write_block_bodies example_store ?bs Both db1 = Returns (db', Ok ()))) \<and>
    remove_block_bodies_above example_store 0 Both db1 = (db2, Ok ()) \<and>
    write_block_bodies example_store ?bs Both db2 = Returns (db3, Ok ()) \<and>
    read_block_bodies example_store (map (\<lambda>hb. (fst hb, transactions (body_inner (snd hb))))
        [(example_store_header 1, example_store_body)]) db3 =
      Returns (Ok (map (\<lambda>hb. (snd hb)\<lparr>sidecars := None\<rparr>) [(example_store_header 1, example_store_body)])) \<and>
    (\<forall>k. 0 < k \<and> k \<notin> fst ` set ?bs \<longrightarrow> (\<lambda>(t, m). map_of t) db3 k = None \<and> snd db3 k = ([], []))"
    by (rule storage_reorg [OF example_chain_store.working_store_axioms])
      (auto simp: store_ok_def calls_of_body_def example_extras example_storable example_store_header_def example_store_def)
  moreover have "transactions (body_inner example_store_body) = []" by (simp add: example_store_body_def)
  moreover have "fst ` set ?bs \<inter> fst ` set ?bs \<noteq> {}" by simp
  ultimately show ?thesis by (simp only: list.map fst_conv snd_conv) blast
qed

end
