(* ===== verification/Eth_Rpc.thy ===== *)
theory Eth_Rpc
  imports Evm_Config Storage
begin

text \<open>
  The parts of the eth API that run transactions (\<open>src/src/node/rpc/mod.rs\<close>,
  \<open>src/src/node/rpc/call.rs\<close>): tracing a transaction and replaying a block up to a
  transaction. Both take the precompile calls from the stored block. The provider and
  the EVM are parameters; the property says that the replay arrives at the database in
  which the block executor ran the transaction.
\<close>

section \<open>The operations\<close>

datatype ('p, 'e) eth_api_error = FromProvider 'p | FromEvm 'e

text \<open>\<open>TryInto<u64>\<close> for a 256 bit number, unwrapped.\<close>

definition u256_to_u64 :: "u256 \<Rightarrow> u64 run" where
  "u256_to_u64 n = (if unat n < 2 ^ 64 then Returns (of_nat (unat n)) else Panics)"

definition get_hl_extras ::
  "(u64 \<Rightarrow> (hl_block option, 'p) result) \<Rightarrow> u64 \<Rightarrow> (hl_extras, 'p) result" where
  "get_hl_extras block_by_number number =
     (case block_by_number number of
        Err e \<Rightarrow> Err e
      | Ok None \<Rightarrow> Ok default_extras
      | Ok (Some blk) \<Rightarrow> Ok
          \<lparr>ex_read_precompile_calls = read_precompile_calls (block_body blk),
           ex_highest_precompile_address = highest_precompile_address (block_body blk)\<rparr>)"

text \<open>
  \<open>Trace::inspect\<close>: \<open>inspect_tx\<close> and \<open>transact\<close> run a transaction with and without the
  inspector.
\<close>

definition inspect ::
  "(nat \<Rightarrow> precompiles_map) \<Rightarrow> (u64 \<Rightarrow> (hl_block option, 'p) result) \<Rightarrow>
   ('tx \<Rightarrow> ('db, 'i) hl_evm \<Rightarrow> ('r, 'e) result run) \<Rightarrow> ('tx \<Rightarrow> ('db, 'i) hl_evm \<Rightarrow> ('r, 'e) result run) \<Rightarrow>
   'db \<Rightarrow> evm_env \<Rightarrow> 'tx \<Rightarrow> 'i \<Rightarrow> ('r, ('p, 'e) eth_api_error) result run" where
  "inspect precompiles_of block_by_number inspect_tx transact db env tx inspector =
     run_bind (u256_to_u64 (be_number (env_block env))) (\<lambda>number.
       case get_hl_extras block_by_number number of
         Err e \<Rightarrow> Returns (Err (FromProvider e))
       | Ok extras \<Rightarrow>
           let evm = create_evm_with_inspector precompiles_of db env inspector
           in run_bind (apply_precompiles (be_number (env_block env)) extras (evm_precompiles evm)) (\<lambda>pm.
                run_bind (transact_raw inspect_tx transact tx (evm\<lparr>evm_precompiles := pm\<rparr>)) (\<lambda>r.
                  Returns (case r of Err e \<Rightarrow> Err (FromEvm e) | Ok x \<Rightarrow> Ok x))))"

text \<open>The loop of \<open>replay_transactions_until\<close>; \<open>transact_commit\<close> runs and commits.\<close>

fun replay_loop ::
  "('db, 'acc, 'tr, 'e) evm_ops \<Rightarrow> (transaction_signed \<Rightarrow> b256) \<Rightarrow> block_env \<Rightarrow> precompiles_map \<Rightarrow> b256 \<Rightarrow>
   transaction_signed list \<Rightarrow> 'db \<Rightarrow> nat \<Rightarrow> ('db \<times> (nat, ('p, 'e) eth_api_error) result) run" where
  "replay_loop ops tx_hash env pm target [] db index = Returns (db, Ok index)"
| "replay_loop ops tx_hash env pm target (tx # txs) db index =
     (if tx_hash tx = target then Returns (db, Ok index)
      else run_bind (op_transact ops env pm tx db) (\<lambda>(db, r).
        case r of Err e \<Rightarrow> Returns (db, Err (FromEvm e))
        | Ok (result, state) \<Rightarrow>
            replay_loop ops tx_hash env pm target txs (op_commit ops state db) (index + 1)))"

definition replay_transactions_until ::
  "('db, 'acc, 'tr, 'e) evm_ops \<Rightarrow> (nat \<Rightarrow> precompiles_map) \<Rightarrow> (u64 \<Rightarrow> (hl_block option, 'p) result) \<Rightarrow>
   (transaction_signed \<Rightarrow> b256) \<Rightarrow> 'db \<Rightarrow> evm_env \<Rightarrow> transaction_signed list \<Rightarrow> b256 \<Rightarrow>
   ('db \<times> (nat, ('p, 'e) eth_api_error) result) run" where
  "replay_transactions_until ops precompiles_of block_by_number tx_hash db env txs target =
     run_bind (u256_to_u64 (be_number (env_block env))) (\<lambda>number.
       case get_hl_extras block_by_number number of
         Err e \<Rightarrow> Returns (db, Err (FromProvider e))
       | Ok extras \<Rightarrow>
           let evm = create_evm precompiles_of db env
           in run_bind (apply_precompiles (be_number (env_block env)) extras (evm_precompiles evm)) (\<lambda>pm.
                replay_loop ops tx_hash (env_block env) pm target txs db 0))"

section \<open>The execution it is compared with\<close>

text \<open>The executor runs transactions in order and commits each of them.\<close>

fun execute_transactions ::
  "('db, 'acc, 'tr, 'e) evm_ops \<Rightarrow> transaction_signed list \<Rightarrow> 'db hl_block_executor \<Rightarrow>
   ('db hl_block_executor \<times> (unit, 'e block_execution_error) result) run" where
  "execute_transactions ops [] ex = Returns (ex, Ok ())"
| "execute_transactions ops (tx # txs) ex =
     run_bind (execute_transaction_with_commit_condition ops tx (\<lambda>_. True) ex) (\<lambda>(ex', r).
       case r of Err e \<Rightarrow> Returns (ex', Err e) | Ok _ \<Rightarrow> execute_transactions ops txs ex')"

definition unpatched :: "u64 \<Rightarrow> bool" where
  "unpatched n \<longleftrightarrow> n \<notin> fst ` set MAINNET_PATCHES_AFTER_TX"

section \<open>Lemmas\<close>

lemma u256_to_u64_ucast [simp]: "u256_to_u64 (ucast (n :: u64)) = Returns n"
proof -
  have "unat (ucast n :: u256) = unat n"
    using unat_u64_less [of n] by (simp add: unsigned_ucast_eq take_bit_eq_mod)
  with unat_u64_less [of n] show ?thesis by (simp add: u256_to_u64_def)
qed

lemma after_commit_unpatched:
  assumes "be_number (exe_env ex) = ucast n" "unpatched n"
  shows "exe_db (after_commit ops tx result state db ex) = op_commit ops state db"
proof -
  have "(n, i, s, a) \<notin> set MAINNET_PATCHES_AFTER_TX" for i s a
    using assms(2) by (force simp: unpatched_def)
  with assms(1) show ?thesis by (simp add: after_commit_def Let_def)
qed

text \<open>Committing every transaction, the replay loop and the executor do the same.\<close>

lemma replay_loop_executes:
  assumes "execute_transactions ops txs ex = Returns (ex', Ok ())"
    and "be_number (exe_env ex) = ucast n" "unpatched n" "target \<notin> tx_hash ` set txs"
  shows "replay_loop ops tx_hash (exe_env ex) (exe_precompiles ex) target (txs @ rest) (exe_db ex) index =
         replay_loop ops tx_hash (exe_env ex) (exe_precompiles ex) target rest (exe_db ex') (index + length txs)"
  using assms
proof (induction txs arbitrary: ex index)
  case Nil
  then show ?case by simp
next
  case (Cons tx txs)
  from Cons.prems(1) obtain ex1 r where
    "execute_transaction_with_commit_condition ops tx (\<lambda>_. True) ex = Returns (ex1, r)"
    by (auto simp: run_bind_eq_Returns_iff)
  with Cons.prems(1) obtain g where
    step: "execute_transaction_with_commit_condition ops tx (\<lambda>_. True) ex = Returns (ex1, Ok g)"
    and more: "execute_transactions ops txs ex1 = Returns (ex', Ok ())"
    by (cases r) auto
  from step obtain db res where
    "op_transact ops (exe_env ex) (exe_precompiles ex) tx (exe_db ex) = Returns (db, res)"
    by (auto simp: execute_eq run_bind_eq_Returns_iff split: if_splits)
  with step obtain result state where
    run: "op_transact ops (exe_env ex) (exe_precompiles ex) tx (exe_db ex) = Returns (db, Ok (result, state))"
    and ex1: "ex1 = after_commit ops tx result state db ex"
    by (cases res) (auto simp: execute_eq split: if_splits)
  have "exe_precompiles ex1 = exe_precompiles ex" "exe_env ex1 = exe_env ex"
    by (simp_all add: ex1 after_commit_def Let_def)
  moreover have "exe_db ex1 = op_commit ops state db"
    unfolding ex1 using Cons.prems(2,3) by (rule after_commit_unpatched)
  ultimately show ?case
    using Cons.IH [OF more, of "index + 1"] Cons.prems run by auto
qed

lemma prepared_executor:
  assumes "executor_new env pm db ctx = Returns ex0"
    and "apply_pre_execution_changes ops ex0 = Returns (ex, Ok ())"
    and "be_number env \<noteq> ucast COREWRITER_ENABLED_BLOCK_NUMBER"
  shows "exe_env ex = env" "exe_db ex = db"
    "apply_precompiles (be_number env) (ctx_extras ctx) pm = Returns (exe_precompiles ex)"
proof -
  from assms(1) obtain pm' where pm: "apply_precompiles (be_number env) (ctx_extras ctx) pm = Returns pm'"
    and ex0: "ex0 = \<lparr>exe_env = env, exe_precompiles = pm', exe_db = db, exe_gas_used = 0,
               exe_receipts = [], exe_ctx = ctx\<rparr>"
    by (auto simp: executor_new_def run_bind_eq_Returns_iff)
  have "apply_precompiles (be_number env) (ctx_extras ctx) pm' = Returns pm'"
    using apply_precompiles_idempotent [of "be_number env" "ctx_extras ctx" pm] by (simp add: pm)
  with assms(2,3) have "ex = ex0"
    by (simp add: ex0 apply_pre_execution_changes_def deploy_corewriter_contract_def)
  with pm ex0 show "exe_env ex = env" "exe_db ex = db"
    "apply_precompiles (be_number env) (ctx_extras ctx) pm = Returns (exe_precompiles ex)"
    by simp_all
qed

section \<open>Properties\<close>

text \<open>
  C36. Replaying a stored block up to a transaction returns the index of the transaction
  and leaves the database in the state in which the block executor ran it: the precompile
  calls come from the stored block on both sides, and the executor's gas accounting does
  not matter. The block must not be the one that deploys the core writer contract and
  must have no entry in the table of storage patches: the replay does neither.
\<close>

theorem replay_matches_execution:
  assumes "block_by_number (hdr_number (block_header blk)) = Ok (Some blk)"
    and "hdr_number (block_header blk) \<noteq> COREWRITER_ENABLED_BLOCK_NUMBER"
    and "unpatched (hdr_number (block_header blk))"
    and "executor_new (env_block (hl_evm_env co (block_header blk)))
           (evm_precompiles (create_evm precompiles_of db (hl_evm_env co (block_header blk))))
           db (context_for_block blk) = Returns ex0"
    and "apply_pre_execution_changes ops ex0 = Returns (ex, Ok ())"
    and "execute_transactions ops txs ex = Returns (ex', Ok ())"
    and "target \<notin> tx_hash ` set txs" "tx_hash tx = target"
  shows "replay_transactions_until ops precompiles_of block_by_number tx_hash db
           (hl_evm_env co (block_header blk)) (txs @ tx # rest) target =
         Returns (exe_db ex', Ok (length txs))"
proof -
  let ?n = "hdr_number (block_header blk)" and ?env = "hl_evm_env co (block_header blk)"
  have number: "be_number (env_block ?env) = ucast ?n" by (simp add: hl_evm_env_def Let_def)
  have "(ucast ?n :: u256) \<noteq> ucast COREWRITER_ENABLED_BLOCK_NUMBER"
    using assms(2) u256_to_u64_ucast [of ?n] u256_to_u64_ucast [of COREWRITER_ENABLED_BLOCK_NUMBER]
    by (metis run.inject)
  note ready = prepared_executor [OF assms(4,5), unfolded number, OF this]
  have "get_hl_extras block_by_number ?n = Ok (ctx_extras (context_for_block blk))"
    using assms(1) by (simp add: get_hl_extras_def context_for_block_def)
  then have "replay_transactions_until ops precompiles_of block_by_number tx_hash db ?env (txs @ tx # rest) target =
      replay_loop ops tx_hash (exe_env ex) (exe_precompiles ex) target (txs @ tx # rest) (exe_db ex) 0"
    using ready by (simp add: replay_transactions_until_def number Let_def)
  also have "\<dots> = replay_loop ops tx_hash (exe_env ex) (exe_precompiles ex) target (tx # rest) (exe_db ex') (0 + length txs)"
    using assms(3,6,7) ready(1) number by (intro replay_loop_executes) simp_all
  finally show ?thesis using assms(8) by simp
qed

section \<open>Examples\<close>

text \<open>An EVM in which every transaction writes one account, the first of the patched ones.\<close>

definition patched_account :: address where
  "patched_account = 0x33f6fe38c55cb100ce27b3138e5d2d041648364f"

definition writing_ops :: "(address \<rightharpoonup> account_info, account_info, unit, unit) evm_ops" where
  "writing_ops = example_ops\<lparr>op_transact := (\<lambda>env pm tx db.
     Returns (db, Ok (Success ''Stop'' 21000 0 [] [], [patched_account \<mapsto> default_account_info])))\<rparr>"

definition writing_env :: "u64 \<Rightarrow> block_env" where
  "writing_env n = env_block (hl_evm_env example_chain_ops (example_store_header n))"

definition writing_block :: "u64 \<Rightarrow> hl_block" where
  "writing_block n = \<lparr>block_header = example_store_header n, block_body = example_store_body\<rparr>"

definition writing_executor :: "u64 \<Rightarrow> (address \<rightharpoonup> account_info) hl_block_executor" where
  "writing_executor n = \<lparr>exe_env = writing_env n,
     exe_precompiles = replay_entry (ucast n) default_extras Map.empty,
     exe_db = Map.empty, exe_gas_used = 0, exe_receipts = [], exe_ctx = context_for_block (writing_block n)\<rparr>"

lemma writing_env_simps [simp]:
  "be_number (writing_env n) = ucast n" "be_gas_limit (writing_env n) = 30000000"
  by (simp_all add: writing_env_def hl_evm_env_def Let_def example_store_header_def)

lemma writing_extras [simp]: "ctx_extras (context_for_block (writing_block n)) = default_extras"
  by (simp add: context_for_block_def writing_block_def example_store_body_def default_extras_def)

lemma writing_apply: "apply_precompiles (ucast n) default_extras pm = Returns (replay_entry (ucast n) default_extras pm)"
  by (rule apply_precompiles_eq) (simp add: highest_address_def default_extras_def)

lemma writing_executor_new:
  "executor_new (writing_env n) Map.empty Map.empty (context_for_block (writing_block n)) = Returns (writing_executor n)"
  by (simp add: executor_new_def writing_apply writing_executor_def)

lemma writing_prepared:
  assumes "(ucast n :: u256) \<noteq> ucast COREWRITER_ENABLED_BLOCK_NUMBER"
  shows "apply_pre_execution_changes ops (writing_executor n) = Returns (writing_executor n, Ok ())"
  using assms
  by (simp add: apply_pre_execution_changes_def writing_executor_def writing_apply replay_entry_idem
      deploy_corewriter_contract_def)

lemmas writing_simps = execute_eq writing_executor_def writing_ops_def example_ops_def example_tx_def
  example_legacy_def is_system_transaction_def into_inner_def after_commit_def Let_def saturating_to_u64_def

theorem replay_matches_execution_witness:
  "replay_transactions_until writing_ops (\<lambda>_. Map.empty) (\<lambda>_. Ok (Some (writing_block 5)) :: (_, unit) result)
     (\<lambda>tx. if tx = example_tx 3 then 1 else 2) Map.empty (hl_evm_env example_chain_ops (example_store_header 5))
     [example_tx 3, example_tx 4] 2 = Returns ([patched_account \<mapsto> default_account_info], Ok 1)"
proof -
  let ?hash = "\<lambda>tx. if tx = example_tx 3 then 1 else (2 :: b256)"
  let ?rest = "[] :: transaction_signed list"
  have "example_tx 4 \<noteq> example_tx 3" by (simp add: example_tx_def example_legacy_def)
  moreover obtain ex' where "execute_transactions writing_ops [example_tx 3] (writing_executor 5) = Returns (ex', Ok ())"
    and "exe_db ex' = [patched_account \<mapsto> default_account_info]"
    by (simp add: writing_simps MAINNET_PATCHES_AFTER_TX_def)
  moreover have "unpatched 5" by (simp add: unpatched_def MAINNET_PATCHES_AFTER_TX_def)
  ultimately show ?thesis
    using replay_matches_execution [where blk = "writing_block 5" and co = example_chain_ops and db = Map.empty
        and precompiles_of = "\<lambda>_. Map.empty" and ex = "writing_executor 5" and ops = writing_ops
        and ex0 = "writing_executor 5" and ex' = ex' and txs = "[example_tx 3]" and tx = "example_tx 4"
        and target = 2 and tx_hash = ?hash and rest = ?rest
        and block_by_number = "\<lambda>_. Ok (Some (writing_block 5)) :: (_, unit) result"]
      writing_executor_new [of 5] writing_prepared [of 5 writing_ops]
    by (simp add: writing_block_def writing_env_def create_evm_def example_store_header_def
        COREWRITER_ENABLED_BLOCK_NUMBER_def)
qed

text \<open>
  In a patched block the two differ: after the first transaction of block 1467569 the
  executor has dropped the change of the patched account, the replay has committed it.
\<close>

lemma replay_misses_patch:
  "\<exists>ex. execute_transactions writing_ops [example_tx 3] (writing_executor 1467569) = Returns (ex, Ok ()) \<and>
     exe_db ex patched_account = None"
  "tx_hash (example_tx 3) \<noteq> target \<Longrightarrow>
     replay_loop writing_ops tx_hash (writing_env 1467569) pm target [example_tx 3] Map.empty 0 =
     Returns ([patched_account \<mapsto> default_account_info], Ok 1)"
  by (simp_all add: writing_simps MAINNET_PATCHES_AFTER_TX_def patched_account_def)

end
