(* ===== verification/Node_Consensus.thy ===== *)
theory Node_Consensus
  imports Evm_Config
begin

text \<open>
  The consensus rules (\<open>src/src/node/consensus/mod.rs\<close>, \<open>reth_copy.rs\<close>): a header is
  checked against its parent, and a block against the receipts its execution gave. System
  receipts are left out of the receipts root.

  The checks shared with Ethereum (\<open>validate_header\<close>, the parent's hash and number, the
  blob fields) are reth's and arguments here.
\<close>

datatype 'e consensus_error =
    TimestampIsInPast u64 u64
  | BlockGasUsed u64 u64 "(u64 \<times> u64) list"
  | BodyReceiptRootDiff b256 b256
  | BodyBloomLogDiff bloom bloom
  | RequestsHashMissing
  | BodyRequestsHashDiff b256 b256
  | EthConsensusError 'e

section \<open>Headers\<close>

definition validate_against_parent_timestamp :: "header \<Rightarrow> header \<Rightarrow> (unit, 'e consensus_error) result" where
  "validate_against_parent_timestamp hdr parent =
     (if timestamp hdr < timestamp parent then Err (TimestampIsInPast (timestamp parent) (timestamp hdr))
      else Ok ())"

definition validate_header_against_parent ::
  "(header \<Rightarrow> sealed_header \<Rightarrow> (unit, 'e) result) \<Rightarrow> (u64 \<Rightarrow> blob_params option) \<Rightarrow>
   (header \<Rightarrow> header \<Rightarrow> blob_params \<Rightarrow> (unit, 'e) result) \<Rightarrow>
   sealed_header \<Rightarrow> sealed_header \<Rightarrow> (unit, 'e consensus_error) result" where
  "validate_header_against_parent hash_number blob_params_at_timestamp against_parent_4844 hdr parent =
     res_bind (res_map_err EthConsensusError (hash_number (sh_header hdr) parent)) (\<lambda>_.
     res_bind (validate_against_parent_timestamp (sh_header hdr) (sh_header parent)) (\<lambda>_.
       case blob_params_at_timestamp (timestamp (sh_header hdr)) of None \<Rightarrow> Ok ()
       | Some bp \<Rightarrow> res_map_err EthConsensusError (against_parent_4844 (sh_header hdr) (sh_header parent) bp)))"

definition validate_body_against_header :: "('b \<Rightarrow> sealed_header \<Rightarrow> (unit, 'e) result) \<Rightarrow> 'b \<Rightarrow> sealed_header \<Rightarrow> (unit, 'e) result" where
  "validate_body_against_header inner body hdr = inner body hdr"

definition validate_block_pre_execution :: "hl_block \<Rightarrow> (unit, 'e consensus_error) result" where
  "validate_block_pre_execution blk = Ok ()"

section \<open>Blocks after execution\<close>

definition compare_receipts_root_and_logs_bloom ::
  "b256 \<Rightarrow> bloom \<Rightarrow> b256 \<Rightarrow> bloom \<Rightarrow> (unit, 'e consensus_error) result" where
  "compare_receipts_root_and_logs_bloom calculated_root calculated_bloom expected_root expected_bloom =
     (if calculated_root \<noteq> expected_root then Err (BodyReceiptRootDiff calculated_root expected_root)
      else if calculated_bloom \<noteq> expected_bloom then Err (BodyBloomLogDiff calculated_bloom expected_bloom)
      else Ok ())"

definition with_bloom :: "chain_ops \<Rightarrow> receipt \<Rightarrow> receipt \<times> bloom" where
  "with_bloom co r = (r, logs_bloom_of co (rc_logs r))"

definition verify_receipts ::
  "chain_ops \<Rightarrow> b256 \<Rightarrow> bloom \<Rightarrow> receipt list \<Rightarrow> (unit, 'e consensus_error) result" where
  "verify_receipts co expected_root expected_bloom receipts =
     (let receipts_with_bloom = map (with_bloom co) receipts;
          receipts_root = co_receipt_root co receipts_with_bloom;
          bloom = foldl (\<lambda>b r. or b (snd r)) 0 receipts_with_bloom
      in compare_receipts_root_and_logs_bloom receipts_root bloom expected_root expected_bloom)"

text \<open>\<open>gas_spent_by_transactions\<close>: the index of each receipt with its cumulative gas.\<close>

definition gas_spent_by_transactions :: "receipt list \<Rightarrow> (u64 \<times> u64) list" where
  "gas_spent_by_transactions receipts =
     map (\<lambda>(i, r). (of_nat i, rc_cumulative_gas_used r)) (enumerate 0 receipts)"

definition validate_block_post_execution ::
  "chain_ops \<Rightarrow> header \<Rightarrow> receipt list \<Rightarrow> bytes list \<Rightarrow> (unit, 'e consensus_error) result" where
  "validate_block_post_execution co hdr receipts reqs =
     (let cumulative = (if receipts = [] then 0 else rc_cumulative_gas_used (last receipts))
      in if hdr_gas_used hdr \<noteq> cumulative
         then Err (BlockGasUsed cumulative (hdr_gas_used hdr) (gas_spent_by_transactions receipts))
         else res_bind
           (if co_byzantium_active co (hdr_number hdr)
            then verify_receipts co (receipts_root hdr) (logs_bloom hdr)
                   (filter (\<lambda>r. rc_cumulative_gas_used r \<noteq> 0) receipts)
            else Ok ()) (\<lambda>_.
           if co_prague_active co (timestamp hdr)
           then (case requests_hash hdr of None \<Rightarrow> Err RequestsHashMissing
                 | Some h \<Rightarrow> let calculated = co_requests_hash co reqs
                     in if calculated \<noteq> h then Err (BodyRequestsHashDiff calculated h) else Ok ())
           else Ok ()))"

section \<open>Lemmas\<close>

lemma foldl_or_shift:
  "foldl (\<lambda>b x. or b (f x)) c xs = or c (foldl (\<lambda>b x. or b (f x)) (0 :: 'w::len word) xs)"
proof (induction xs arbitrary: c)
  case (Cons x xs)
  have "foldl (\<lambda>b x. or b (f x)) c (x # xs) = or (or c (f x)) (foldl (\<lambda>b x. or b (f x)) 0 xs)"
    by (simp add: Cons.IH [of "or c (f x)"])
  also have "\<dots> = or c (foldl (\<lambda>b x. or b (f x)) 0 (x # xs))"
    by (simp add: Cons.IH [of "f x"] or.assoc)
  finally show ?case .
qed simp

lemma logs_bloom_of_append:
  "logs_bloom_of co (xs @ ys) = or (logs_bloom_of co xs) (logs_bloom_of co ys)"
  unfolding logs_bloom_of_def foldl_append by (rule foldl_or_shift)

text \<open>Joining the filters of the receipts gives the filter of all their logs.\<close>

lemma verify_bloom_eq:
  "foldl (\<lambda>b r. or b (snd r)) 0 (map (with_bloom co) rs) = logs_bloom_of co (concat (map rc_logs rs))"
proof (induction rs rule: rev_induct)
  case Nil
  show ?case by (simp add: logs_bloom_of_def)
qed (simp add: logs_bloom_of_append with_bloom_def)

text \<open>The two ways of computing the receipts root agree: one computes the blooms itself.\<close>

definition receipt_roots_agree :: "chain_ops \<Rightarrow> bool" where
  "receipt_roots_agree co \<longleftrightarrow>
     (\<forall>rs. co_receipt_root_no_memo co rs = co_receipt_root co (map (with_bloom co) rs))"

lemma accounted_last:
  assumes "accounted h ex"
  shows "exe_gas_used ex = (if exe_receipts ex = [] then 0 else rc_cumulative_gas_used (last (exe_receipts ex)))"
proof (cases "exe_receipts ex = []")
  case True
  with assms have "unat (exe_gas_used ex) = 0" by (auto simp: accounted_def)
  with True show ?thesis by (simp add: unat_eq_zero)
next
  case False
  have len: "length (exe_receipts ex) = length h" using assms by (simp add: accounted_def)
  with False have n: "length (exe_receipts ex) - 1 < length h"
    by (metis diff_less length_greater_0_conv less_numeral_extra(1))
  have "unat (rc_cumulative_gas_used (exe_receipts ex ! (length (exe_receipts ex) - 1))) =
      user_gas (take (Suc (length (exe_receipts ex) - 1)) h)"
    using assms n unfolding accounted_def by blast
  with False assms n show ?thesis
    by (simp add: accounted_def last_conv_nth u64_eq_iff)
qed

section \<open>Properties\<close>

text \<open>
  Timestamps may repeat. A header passes the timestamp rule exactly when it is not
  older than its parent, so along a chain of accepted headers timestamps never decrease,
  and (big and small blocks) may stay the same.
\<close>

theorem timestamps_never_decrease:
  assumes "\<forall>i. Suc i < length hs \<longrightarrow>
      validate_against_parent_timestamp (hs ! Suc i) (hs ! i) = (Ok () :: (unit, unit consensus_error) result)"
  shows "sorted (map timestamp hs)"
  using assms
  by (fastforce simp: sorted_iff_nth_Suc validate_against_parent_timestamp_def not_less
      split: if_splits)

theorem timestamps_never_decrease_witness:
  "sorted (map timestamp [example_header, example_header, example_header\<lparr>timestamp := timestamp example_header + 1\<rparr>])"
  by (rule timestamps_never_decrease)
    (auto simp: validate_against_parent_timestamp_def example_header_def less_Suc_eq nth_Cons')

text \<open>
  C10. The block the assembler builds from an executor's result passes the node's own
  post-execution validation exactly when the logs of the system receipts add nothing to
  the bloom filter of the others; the assembler takes the filter over all receipts, the
  validation over those with a non-zero cumulative gas, and there is no other way for the
  validation to fail.
\<close>

theorem assembled_block_validates:
  assumes "transact_within_gas_limit ops" "executor_reach ops env pm db ctx h ex"
    and "receipt_roots_agree co" "\<forall>n. co_byzantium_active co n"
    and "in_output input = snd (finish ex)"
    and "assemble_block co input = (Ok blk :: (hl_block, unit block_execution_error) result)"
  shows "(validate_block_post_execution co (block_header blk) (exe_receipts ex) [] =
      (Ok () :: (unit, unit consensus_error) result)) \<longleftrightarrow>
    logs_bloom_of co (concat (map rc_logs (exe_receipts ex))) =
    logs_bloom_of co (concat (map rc_logs (filter (\<lambda>r. rc_cumulative_gas_used r \<noteq> 0) (exe_receipts ex))))"
proof -
  have "accounted h ex" using executor_reach_accounted [OF assms(2,1)] by simp
  note gas = accounted_last [OF this]
  have out: "ber_receipts (in_output input) = exe_receipts ex" "ber_gas_used (in_output input) = exe_gas_used ex"
    "ber_requests (in_output input) = []"
    using assms(5) by (simp_all add: finish_def)
  note hdr = assemble_block_header [OF assms(6), unfolded out]
  let ?rs = "filter (\<lambda>r. rc_cumulative_gas_used r \<noteq> 0) (exe_receipts ex)"
  have root: "co_receipt_root co (map (with_bloom co) ?rs) = receipts_root (block_header blk)"
    using assms(3) hdr(2) by (simp add: receipt_roots_agree_def)
  have "validate_block_post_execution co (block_header blk) (exe_receipts ex) [] =
      (verify_receipts co (receipts_root (block_header blk)) (logs_bloom (block_header blk)) ?rs
        :: (unit, unit consensus_error) result)"
    unfolding validate_block_post_execution_def Let_def hdr(1) gas [symmetric]
    using assms(4) by (auto simp: hdr(4) res_bind_def split: sum.splits)
  then show ?thesis
    by (auto simp: verify_receipts_def verify_bloom_eq compare_receipts_root_and_logs_bloom_def
        root hdr(3) Let_def)
qed

theorem assembled_block_validates_witness:
  "\<exists>blk. assemble_block example_chain_ops (example_input example_block (block_txs example_block)
       (snd (finish example_executor_done))) = (Ok blk :: (hl_block, unit block_execution_error) result) \<and>
     validate_block_post_execution example_chain_ops (block_header blk) (exe_receipts example_executor_done) [] =
       (Ok () :: (unit, unit consensus_error) result)"
proof -
  obtain blk where run: "assemble_block example_chain_ops (example_input example_block (block_txs example_block)
       (snd (finish example_executor_done))) = (Ok blk :: (hl_block, unit block_execution_error) result)"
    by (simp add: assemble_block_def Let_def)
  have roots: "receipt_roots_agree example_chain_ops" "\<forall>n. co_byzantium_active example_chain_ops n"
    "in_output (example_input example_block (block_txs example_block) (snd (finish example_executor_done))) =
       snd (finish example_executor_done)"
    by (simp_all add: receipt_roots_agree_def example_chain_ops_def example_input_def)
  from assembled_block_validates [OF example_gas_law example_executor_reach roots run] run
  show ?thesis by (auto simp: example_executor_done_def)
qed

end
