(* ===== verification/Node_Components.thy ===== *)
theory Node_Components
  imports Eth_Rpc Chain_Spec Node_Consensus
begin

text \<open>
  The parts a node is put together from (\<open>src/src/node\<close>): the hard-fork schedule behind the
  chain specification, the EVM configuration with its executor factory and assembler, the
  container of the eth API, the built payload, and the placeholder for the transaction pool.

  Much of it passes calls on to reth. What reth does with a schedule of hard forks is the locale
  \<open>fork_schedule\<close>; it connects the specification of the chain with the activation flags
  that block assembly and validation use.
\<close>

section \<open>Hard forks\<close>

text \<open>Reth's lookup of a fork in a schedule, and when its condition holds.\<close>

record fork_ops =
  fo_fork :: "(ethereum_hardfork \<times> fork_condition) list \<Rightarrow> ethereum_hardfork \<Rightarrow> fork_condition"
  fo_active_at_block :: "fork_condition \<Rightarrow> u64 \<Rightarrow> bool"
  fo_active_at_timestamp :: "fork_condition \<Rightarrow> u64 \<Rightarrow> bool"

locale fork_schedule =
  fixes fo :: fork_ops
  assumes fork_lookup: "fo_fork fo forks f = (case map_of forks f of Some c \<Rightarrow> c | None \<Rightarrow> ForkNever)"
    and block_active: "fo_active_at_block fo (ForkBlock n) m \<longleftrightarrow> n \<le> m"
    and timestamp_active: "fo_active_at_timestamp fo (ForkTimestamp t) s \<longleftrightarrow> t \<le> s"
    and never_active: "\<not> fo_active_at_block fo ForkNever m" "\<not> fo_active_at_timestamp fo ForkNever s"

definition ethereum_fork_activation :: "fork_ops \<Rightarrow> 'g chain_spec \<Rightarrow> ethereum_hardfork \<Rightarrow> fork_condition" where
  "ethereum_fork_activation fo spec f = fo_fork fo (hardforks spec) f"

text \<open>
  Reth's \<open>is_..._active_at_...\<close> for the specification of the node, in place of the flags of a
  set of chain operations; the other operations are kept.
\<close>

definition with_chain :: "fork_ops \<Rightarrow> 'g chain_spec \<Rightarrow> chain_ops \<Rightarrow> chain_ops" where
  "with_chain fo spec co = co\<lparr>co_chain_id := chain_id spec,
     co_byzantium_active := (\<lambda>n. fo_active_at_block fo (ethereum_fork_activation fo spec Byzantium) n),
     co_shanghai_active := (\<lambda>t. fo_active_at_timestamp fo (ethereum_fork_activation fo spec Shanghai) t),
     co_cancun_active := (\<lambda>t. fo_active_at_timestamp fo (ethereum_fork_activation fo spec Cancun) t),
     co_prague_active := (\<lambda>t. fo_active_at_timestamp fo (ethereum_fork_activation fo spec Prague) t)\<rparr>"

text \<open>The trait \<open>EthChainSpec\<close>: everything but the deposit contract is reth's specification's.\<close>

record ('s, 'bp, 'bf, 'dc, 'disp, 'node, 'gen) chain_spec_ops =
  cs_blob_params_at_timestamp :: "'s \<Rightarrow> u64 \<Rightarrow> 'bp option"
  cs_final_paris_total_difficulty :: "'s \<Rightarrow> u256 option"
  cs_chain :: "'s \<Rightarrow> u64"
  cs_base_fee_params_at_timestamp :: "'s \<Rightarrow> u64 \<Rightarrow> 'bf"
  cs_deposit_contract :: "'s \<Rightarrow> 'dc option"
  cs_genesis_hash :: "'s \<Rightarrow> b256"
  cs_prune_delete_limit :: "'s \<Rightarrow> nat"
  cs_display_hardforks :: "'s \<Rightarrow> 'disp"
  cs_genesis_header :: "'s \<Rightarrow> header"
  cs_genesis :: "'s \<Rightarrow> 'gen"
  cs_bootnodes :: "'s \<Rightarrow> 'node list option"

datatype 's hl_chain_spec = HlChainSpec 's

definition spec_inner :: "'s hl_chain_spec \<Rightarrow> 's" where
  "spec_inner spec = (case spec of HlChainSpec s \<Rightarrow> s)"

definition hl_chain_spec_ops ::
  "('s, 'bp, 'bf, 'dc, 'disp, 'node, 'gen) chain_spec_ops \<Rightarrow> ('s hl_chain_spec, 'bp, 'bf, 'dc, 'disp, 'node, 'gen) chain_spec_ops" where
  "hl_chain_spec_ops ops =
     \<lparr>cs_blob_params_at_timestamp = (\<lambda>spec timestamp. cs_blob_params_at_timestamp ops (spec_inner spec) timestamp),
      cs_final_paris_total_difficulty = (\<lambda>spec. cs_final_paris_total_difficulty ops (spec_inner spec)),
      cs_chain = (\<lambda>spec. cs_chain ops (spec_inner spec)),
      cs_base_fee_params_at_timestamp = (\<lambda>spec timestamp. cs_base_fee_params_at_timestamp ops (spec_inner spec) timestamp),
      cs_deposit_contract = (\<lambda>spec. None),
      cs_genesis_hash = (\<lambda>spec. cs_genesis_hash ops (spec_inner spec)),
      cs_prune_delete_limit = (\<lambda>spec. cs_prune_delete_limit ops (spec_inner spec)),
      cs_display_hardforks = (\<lambda>spec. cs_display_hardforks ops (spec_inner spec)),
      cs_genesis_header = (\<lambda>spec. cs_genesis_header ops (spec_inner spec)),
      cs_genesis = (\<lambda>spec. cs_genesis ops (spec_inner spec)),
      cs_bootnodes = (\<lambda>spec. cs_bootnodes ops (spec_inner spec))\<rparr>"

definition deposit_contract_address :: "'s hl_chain_spec \<Rightarrow> address option" where
  "deposit_contract_address spec = None"

section \<open>The EVM configuration\<close>

record 's hl_block_assembler =
  ba_chain_spec :: 's

record ('r, 's, 'f) hl_block_executor_factory =
  bf_receipt_builder :: 'r
  bf_spec :: 's
  bf_evm_factory :: 'f

record ('r, 's, 'f) hl_evm_config =
  executor_factory :: "('r, 's, 'f) hl_block_executor_factory"
  block_assembler :: "'s hl_block_assembler"

definition hl_block_assembler_new :: "'s \<Rightarrow> 's hl_block_assembler" where
  "hl_block_assembler_new spec = \<lparr>ba_chain_spec = spec\<rparr>"

definition hl_block_executor_factory_new :: "'r \<Rightarrow> 's \<Rightarrow> 'f \<Rightarrow> ('r, 's, 'f) hl_block_executor_factory" where
  "hl_block_executor_factory_new receipt_builder spec evm_factory =
     \<lparr>bf_receipt_builder = receipt_builder, bf_spec = spec, bf_evm_factory = evm_factory\<rparr>"

text \<open>The receipt builder and the EVM factory have no state.\<close>

definition new_with_evm_factory :: "'s \<Rightarrow> 'f \<Rightarrow> (unit, 's, 'f) hl_evm_config" where
  "new_with_evm_factory spec evm_factory =
     \<lparr>executor_factory = hl_block_executor_factory_new () spec evm_factory,
      block_assembler = hl_block_assembler_new spec\<rparr>"

definition hl_evm_config_hl :: "'s \<Rightarrow> (unit, 's, unit) hl_evm_config" where
  "hl_evm_config_hl spec = new_with_evm_factory spec ()"

definition hl_evm_config_new :: "'s \<Rightarrow> (unit, 's, unit) hl_evm_config" where
  "hl_evm_config_new spec = hl_evm_config_hl spec"

definition config_chain_spec :: "('r, 's, 'f) hl_evm_config \<Rightarrow> 's" where
  "config_chain_spec config = bf_spec (executor_factory config)"

definition create_executor ::
  "('r, 's, 'f) hl_block_executor_factory \<Rightarrow> ('db, 'i) hl_evm \<Rightarrow> hl_block_execution_ctx \<Rightarrow> 'db hl_block_executor run" where
  "create_executor factory evm ctx =
     executor_new (env_block (evm_env_of evm)) (evm_precompiles evm) (evm_db evm) ctx"

text \<open>\<open>BlockAssembler for HlEvmConfig\<close> takes the block of the inner assembler apart and puts it together again.\<close>

definition config_assemble_block ::
  "chain_ops \<Rightarrow> block_assembler_input \<Rightarrow> (hl_block, 'e block_execution_error) result" where
  "config_assemble_block co input = res_bind (assemble_block co input)
     (\<lambda>b. Ok \<lparr>block_header = block_header b, block_body = block_body b\<rparr>)"

text \<open>Handing the database and the environment back, and switching the inspector.\<close>

definition evm_finish :: "('db, 'i) hl_evm \<Rightarrow> 'db \<times> evm_env" where
  "evm_finish evm = (evm_db evm, evm_env_of evm)"

definition set_inspector_enabled :: "bool \<Rightarrow> ('db, 'i) hl_evm \<Rightarrow> ('db, 'i) hl_evm" where
  "set_inspector_enabled enabled evm = evm\<lparr>evm_inspect := enabled\<rparr>"

definition evm_components :: "('db, 'i) hl_evm \<Rightarrow> 'db \<times> 'i \<times> precompiles_map" where
  "evm_components evm = (evm_db evm, evm_inspector evm, evm_precompiles evm)"

section \<open>The eth API container\<close>

text \<open>Reth's inner API; \<open>HlEthApi\<close> answers with it, and its signers can be replaced.\<close>

record ('prov, 'pool, 'evm, 'net, 'cache, 'sig, 'oracle, 'fees, 'pend) eth_api_inner =
  ei_provider :: 'prov
  ei_pool :: 'pool
  ei_evm_config :: 'evm
  ei_network :: 'net
  ei_cache :: 'cache
  ei_starting_block :: u256
  ei_signers :: "'sig list"
  ei_gas_oracle :: 'oracle
  ei_fee_history_cache :: 'fees
  ei_eth_proof_window :: u64
  ei_gas_cap :: u64
  ei_max_simulate_blocks :: u64
  ei_pending_block :: 'pend

datatype 'a hl_eth_api = HlEthApi 'a

definition api_inner :: "'a hl_eth_api \<Rightarrow> 'a" where
  "api_inner api = (case api of HlEthApi inner \<Rightarrow> inner)"

type_synonym ('prov, 'pool, 'evm, 'net, 'cache, 'sig, 'oracle, 'fees, 'pend) hl_api =
  "('prov, 'pool, 'evm, 'net, 'cache, 'sig, 'oracle, 'fees, 'pend) eth_api_inner hl_eth_api"

definition node_core ::
  "('prov, 'pool, 'evm, 'net, 'cache, 'sig, 'oracle, 'fees, 'pend) hl_api \<Rightarrow> 'pool \<times> 'evm \<times> 'net \<times> 'prov" where
  "node_core api = (ei_pool (api_inner api), ei_evm_config (api_inner api), ei_network (api_inner api), ei_provider (api_inner api))"

definition api_cache :: "('prov, 'pool, 'evm, 'net, 'cache, 'sig, 'oracle, 'fees, 'pend) hl_api \<Rightarrow> 'cache" where
  "api_cache api = ei_cache (api_inner api)"

definition api_spec :: "('prov, 'pool, 'evm, 'net, 'cache, 'sig, 'oracle, 'fees, 'pend) hl_api \<Rightarrow> u256 \<times> 'sig list" where
  "api_spec api = (ei_starting_block (api_inner api), ei_signers (api_inner api))"

definition load_fee :: "('prov, 'pool, 'evm, 'net, 'cache, 'sig, 'oracle, 'fees, 'pend) hl_api \<Rightarrow> 'oracle \<times> 'fees" where
  "load_fee api = (ei_gas_oracle (api_inner api), ei_fee_history_cache (api_inner api))"

definition max_proof_window :: "('prov, 'pool, 'evm, 'net, 'cache, 'sig, 'oracle, 'fees, 'pend) hl_api \<Rightarrow> u64" where
  "max_proof_window api = ei_eth_proof_window (api_inner api)"

definition call_limits :: "('prov, 'pool, 'evm, 'net, 'cache, 'sig, 'oracle, 'fees, 'pend) hl_api \<Rightarrow> u64 \<times> u64" where
  "call_limits api = (ei_gas_cap (api_inner api), ei_max_simulate_blocks (api_inner api))"

definition with_dev_accounts ::
  "(nat \<Rightarrow> 'sig list) \<Rightarrow> ('prov, 'pool, 'evm, 'net, 'cache, 'sig, 'oracle, 'fees, 'pend) hl_api \<Rightarrow>
   ('prov, 'pool, 'evm, 'net, 'cache, 'sig, 'oracle, 'fees, 'pend) hl_api" where
  "with_dev_accounts random_signers api = HlEthApi ((api_inner api)\<lparr>ei_signers := random_signers 20\<rparr>)"

text \<open>The API's own way of sending a transaction is never to be reached.\<close>

definition api_send_raw_transaction ::
  "('prov, 'pool, 'evm, 'net, 'cache, 'sig, 'oracle, 'fees, 'pend) hl_api \<Rightarrow> bytes \<Rightarrow> b256 run" where
  "api_send_raw_transaction api tx = Panics"

section \<open>The built payload\<close>

record hl_built_payload =
  bp_block :: "hl_block \<times> b256"
  bp_fees :: u256
  bp_requests :: "bytes list option"

definition payload_parts :: "hl_built_payload \<Rightarrow> (hl_block \<times> b256) \<times> u256 \<times> bytes list option" where
  "payload_parts p = (bp_block p, bp_fees p, bp_requests p)"

section \<open>The transaction pool\<close>

text \<open>
  \<open>HlPooledTransaction\<close>: a type without contents. Its size and encoded length are zero,
  blobs are accepted and never attached, and every other method is unreachable.
\<close>

datatype pooled_query =
    QChainId | QNonce | QGasLimit | QGasPrice | QMaxFeePerGas | QMaxPriorityFeePerGas | QMaxFeePerBlobGas
  | QPriorityFeeOrPrice | QEffectiveGasPrice "u64 option" | QIsDynamicFee | QKind | QIsCreate | QValue | QInput
  | QAccessList | QBlobVersionedHashes | QAuthorizationList | QTy
  | QIntoConsensus | QFromPooled | QHash | QSender | QSenderRef | QCost | QTakeBlob
  | QSize | QEncodedLength | QTryIntoPooledEip4844 | QTryFromEip4844 | QValidateBlob

datatype pooled_answer = ASize nat | ANone | AOk

fun pooled_transaction :: "pooled_query \<Rightarrow> pooled_answer run" where
  "pooled_transaction QSize = Returns (ASize 0)"
| "pooled_transaction QEncodedLength = Returns (ASize 0)"
| "pooled_transaction QTryIntoPooledEip4844 = Returns ANone"
| "pooled_transaction QTryFromEip4844 = Returns ANone"
| "pooled_transaction QValidateBlob = Returns AOk"
| "pooled_transaction _ = Panics"

text \<open>Reth's pool that holds nothing: \<open>noop_new\<close> makes it, \<open>noop_transactions\<close> lists it.\<close>

definition build_pool :: "'p \<Rightarrow> ('p, 'e) result" where
  "build_pool noop_new = Ok noop_new"

section \<open>The builders\<close>

definition build_evm :: "'s \<Rightarrow> ((unit, 's, unit) hl_evm_config, 'e) result" where
  "build_evm spec = Ok (hl_evm_config_hl spec)"

text \<open>\<open>HlConsensus\<close> keeps the specification twice: for reth's checks and for its own.\<close>

record 's hl_consensus =
  hc_inner :: 's
  hc_chain_spec :: 's

definition hl_consensus_new :: "'s \<Rightarrow> 's hl_consensus" where
  "hl_consensus_new spec = \<lparr>hc_inner = spec, hc_chain_spec = spec\<rparr>"

definition build_consensus :: "'s \<Rightarrow> ('s hl_consensus, 'e) result" where
  "build_consensus spec = Ok (hl_consensus_new spec)"

definition consensus_validate_header :: "('s \<Rightarrow> sealed_header \<Rightarrow> (unit, 'e) result) \<Rightarrow> 's hl_consensus \<Rightarrow> sealed_header \<Rightarrow> (unit, 'e) result" where
  "consensus_validate_header eth_validate_header self hdr = eth_validate_header (hc_inner self) hdr"

definition consensus_validate_post_execution ::
  "('s \<Rightarrow> chain_ops) \<Rightarrow> 's hl_consensus \<Rightarrow> hl_block \<Rightarrow> block_execution_result \<Rightarrow> (unit, 'e consensus_error) result" where
  "consensus_validate_post_execution ops_of self blk result =
     validate_block_post_execution (ops_of (hc_chain_spec self)) (block_header blk) (ber_receipts result) (ber_requests result)"

definition build_eth_api :: "('conv \<Rightarrow> 'a) \<Rightarrow> ('s \<Rightarrow> 'conv) \<Rightarrow> 's \<Rightarrow> ('a hl_eth_api, 'e) result" where
  "build_eth_api build_inner converter_new spec = Ok (HlEthApi (build_inner (converter_new spec)))"

text \<open>
  \<open>HlNode::components\<close>: which builder makes which part. The payload builder does nothing, and the
  network builder shares the node's receiver and block source configuration.
\<close>

datatype part = PoolPart | ExecutorPart | PayloadPart | NetworkPart | ConsensusPart

datatype builder = HlPoolBuilder | HlExecutorBuilder | NoopPayloadServiceBuilder | HlNetworkBuilder | HlConsensusBuilder

fun node_components :: "part \<Rightarrow> builder" where
  "node_components PoolPart = HlPoolBuilder"
| "node_components ExecutorPart = HlExecutorBuilder"
| "node_components PayloadPart = NoopPayloadServiceBuilder"
| "node_components NetworkPart = HlNetworkBuilder"
| "node_components ConsensusPart = HlConsensusBuilder"

section \<open>The machine\<close>

text \<open>
  \<open>HlEvmInner\<close> around revm's machine: executing, finalizing, committing and inspecting are the
  machine's own.
\<close>

record ('m, 'tx, 'r, 'st, 'blk, 'i, 'e) machine_ops =
  ma_transact_one :: "'tx \<Rightarrow> 'm \<Rightarrow> ('r, 'e) result \<times> 'm"
  ma_finalize :: "'m \<Rightarrow> 'st \<times> 'm"
  ma_set_block :: "'blk \<Rightarrow> 'm \<Rightarrow> 'm"
  ma_replay :: "'m \<Rightarrow> ('r \<times> 'st, 'e) result \<times> 'm"
  ma_commit :: "'st \<Rightarrow> 'm \<Rightarrow> 'm"
  ma_set_inspector :: "'i \<Rightarrow> 'm \<Rightarrow> 'm"
  ma_inspect_one_tx :: "'tx \<Rightarrow> 'm \<Rightarrow> ('r, 'e) result \<times> 'm"

datatype 'm hl_evm_inner = HlEvmInner 'm

definition machine :: "'m hl_evm_inner \<Rightarrow> 'm" where
  "machine evm = (case evm of HlEvmInner m \<Rightarrow> m)"

definition hl_machine_ops ::
  "('m, 'tx, 'r, 'st, 'blk, 'i, 'e) machine_ops \<Rightarrow> ('m hl_evm_inner, 'tx, 'r, 'st, 'blk, 'i, 'e) machine_ops" where
  "hl_machine_ops ops =
     \<lparr>ma_transact_one = (\<lambda>tx evm. map_prod id HlEvmInner (ma_transact_one ops tx (machine evm))),
      ma_finalize = (\<lambda>evm. map_prod id HlEvmInner (ma_finalize ops (machine evm))),
      ma_set_block = (\<lambda>blk evm. HlEvmInner (ma_set_block ops blk (machine evm))),
      ma_replay = (\<lambda>evm. map_prod id HlEvmInner (ma_replay ops (machine evm))),
      ma_commit = (\<lambda>st evm. HlEvmInner (ma_commit ops st (machine evm))),
      ma_set_inspector = (\<lambda>i evm. HlEvmInner (ma_set_inspector ops i (machine evm))),
      ma_inspect_one_tx = (\<lambda>tx evm. map_prod id HlEvmInner (ma_inspect_one_tx ops tx (machine evm)))\<rparr>"

section \<open>Lemmas\<close>

definition std_fork_ops :: fork_ops where
  "std_fork_ops = \<lparr>fo_fork = (\<lambda>forks f. case map_of forks f of Some c \<Rightarrow> c | None \<Rightarrow> ForkNever),
     fo_active_at_block = (\<lambda>c m. case c of ForkBlock n \<Rightarrow> n \<le> m | ForkTTD _ (Some n) _ \<Rightarrow> n \<le> m | _ \<Rightarrow> False),
     fo_active_at_timestamp = (\<lambda>c s. case c of ForkTimestamp t \<Rightarrow> t \<le> s | _ \<Rightarrow> False)\<rparr>"

interpretation std_forks: fork_schedule std_fork_ops
  by unfold_locales (simp_all add: std_fork_ops_def)

lemma parsed_hardforks:
  assumes "chain_value_parser g s = Ok spec"
  shows "hardforks spec = HL_HARDFORKS" "chain_id spec = (if s = ''mainnet'' then 999 else 998)"
  using assms
  by (auto simp: chain_value_parser_def hl_mainnet_def hl_testnet_def hl_chainspec_def split: if_splits)

lemma config_spec_shared [simp]:
  "config_chain_spec (hl_evm_config_new spec) = spec" "ba_chain_spec (block_assembler (hl_evm_config_new spec)) = spec"
  by (simp_all add: config_chain_spec_def hl_evm_config_new_def hl_evm_config_hl_def new_with_evm_factory_def
      hl_block_executor_factory_new_def hl_block_assembler_new_def)

lemma config_assemble_block_eq: "config_assemble_block co input = assemble_block co input"
  by (simp add: config_assemble_block_def res_bind_def split: sum.split)

text \<open>The executor that the configuration makes for a block runs in the environment of its header, with its calls.\<close>

lemma executor_for_block:
  assumes "create_executor factory (create_evm precompiles_of db (hl_evm_env co (block_header blk))) (context_for_block blk) =
    Returns ex"
  shows "be_number (exe_env ex) = ucast (hdr_number (block_header blk)) \<and> exe_db ex = db \<and> exe_receipts ex = [] \<and>
    ctx_extras (exe_ctx ex) = \<lparr>ex_read_precompile_calls = read_precompile_calls (block_body blk),
      ex_highest_precompile_address = highest_precompile_address (block_body blk)\<rparr>"
  using assms
  by (auto simp: create_executor_def executor_new_def run_bind_eq_Returns_iff create_evm_def hl_evm_env_def
      context_for_block_def Let_def)

text \<open>An inspector is asked exactly while it is enabled.\<close>

lemma set_inspector_enabled_transact:
  "transact_raw inspect_tx transact tx (set_inspector_enabled b evm) =
     (if b then inspect_tx else transact) tx (evm\<lparr>evm_inspect := b\<rparr>)"
  by (simp add: transact_raw_def set_inspector_enabled_def)

text \<open>
  The wrapper adds nothing: executing a list of transactions through it and committing gives the
  results and the machine that revm gives.
\<close>

fun run_txs :: "('m, 'tx, 'r, 'st, 'blk, 'i, 'e) machine_ops \<Rightarrow> 'tx list \<Rightarrow> 'm \<Rightarrow> ('r, 'e) result list \<times> 'm" where
  "run_txs ops [] m = ([], let (st, m) = ma_finalize ops m in ma_commit ops st m)"
| "run_txs ops (tx # txs) m = (let (r, m) = ma_transact_one ops tx m; (rs, m) = run_txs ops txs m in (r # rs, m))"

lemma hl_machine_refines:
  "run_txs (hl_machine_ops ops) txs (HlEvmInner m) = map_prod id HlEvmInner (run_txs ops txs m)"
  by (induction ops txs m rule: run_txs.induct)
    (simp_all add: hl_machine_ops_def machine_def map_prod_def split: prod.split)

text \<open>A pool that holds nothing never asks a transaction anything.\<close>

lemma pool_asks_nothing:
  assumes "noop_transactions noop_new = []" "build_pool noop_new = Ok pool"
  shows "run_list (map (\<lambda>_. pooled_transaction q) (noop_transactions pool)) = Returns []"
  using assms by (simp add: build_pool_def)

section \<open>Properties\<close>

text \<open>
  Which Ethereum rules hold. On each chain the parser accepts, every block at every
  height and time is under the rules of Byzantium, Shanghai and Cancun and never under those of
  Prague, so that a block always has a withdrawals root and blob gas fields and receipts
  with a status, and never a hash of requests.
\<close>

theorem hl_fork_flags:
  assumes "fork_schedule fo" "chain_value_parser g s = Ok spec"
  shows "let co' = with_chain fo spec co
    in co_byzantium_active co' n \<and> co_shanghai_active co' t \<and> co_cancun_active co' t \<and> \<not> co_prague_active co' t \<and>
       co_chain_id co' = (if s = ''mainnet'' then MAINNET_CHAIN_ID else TESTNET_CHAIN_ID)"
  using parsed_hardforks [OF assms(2)] fork_schedule.fork_lookup [OF assms(1)] fork_schedule.block_active [OF assms(1)]
    fork_schedule.timestamp_active [OF assms(1)] fork_schedule.never_active [OF assms(1)]
  by (simp add: with_chain_def ethereum_fork_activation_def HL_HARDFORKS_def MAINNET_CHAIN_ID_def TESTNET_CHAIN_ID_def)

theorem hl_fork_flags_witness:
  "let co' = with_chain std_fork_ops (hl_mainnet ()) example_chain_ops
   in co_cancun_active co' 1700000000 \<and> \<not> co_prague_active co' 1800000000 \<and> co_chain_id co' = 999"
proof -
  have "chain_value_parser () ''mainnet'' = Ok (hl_mainnet ())" by (simp add: chain_value_parser_def)
  from hl_fork_flags [OF std_forks.fork_schedule_axioms this, where co = example_chain_ops and t = 1700000000]
    hl_fork_flags [OF std_forks.fork_schedule_axioms this, where co = example_chain_ops and t = 1800000000]
  show ?thesis by (simp add: Let_def MAINNET_CHAIN_ID_def)
qed

end
