(* ===== verification/Evm_Machine.thy ===== *)
theory Evm_Machine
  imports Node_Components
begin

text \<open>
  The EVM as it is laid out (\<open>src/src/evm/api/mod.rs\<close>, \<open>builder.rs\<close>, \<open>ctx.rs\<close>,
  \<open>src/src/node/evm/mod.rs\<close>, \<open>factory.rs\<close>): \<open>HlEvm\<close> holds \<open>HlEvmInner\<close>, which holds revm's machine
  with its context, inspector, instruction table, precompiles and stack of frames. The
  factory builds it by a chain of calls on revm's context. \<open>Evm_Api\<close> has the same EVM as one
  flat record; here its operations are shown to be those of the layout.

  Revm's context is a parameter, with what its builder methods promise as a locale; so are
  the frames and what is done with them.
\<close>

section \<open>The layout\<close>

datatype 'x opcode_instruction = RevmInstruction 'x | BlockhashReturningPlaceholder u64

record ('c, 'i, 'x, 'p, 'f) revm_evm =
  re_ctx :: 'c
  re_inspector :: 'i
  re_instruction :: "u8 \<Rightarrow> 'x opcode_instruction"
  re_precompiles :: 'p
  re_frame_stack :: "'f list"

text \<open>
  Revm's context: \<open>Context::mainnet\<close> over the empty database, and the methods that replace its
  parts. \<open>with_db\<close> makes a context over another database.
\<close>

record ('c0, 'c, 'tx, 'db) context_ops =
  co_mainnet :: 'c0
  co_with_tx :: "'tx \<Rightarrow> 'c0 \<Rightarrow> 'c0"
  co_with_cfg :: "cfg_env \<Rightarrow> 'c0 \<Rightarrow> 'c0"
  co_with_block :: "block_env \<Rightarrow> 'c0 \<Rightarrow> 'c0"
  co_with_db :: "'db \<Rightarrow> 'c0 \<Rightarrow> 'c"
  co_block :: "'c \<Rightarrow> block_env"
  co_cfg :: "'c \<Rightarrow> cfg_env"
  co_database :: "'c \<Rightarrow> 'db"

definition default_hl :: "('c0, 'c, 'tx, 'db) context_ops \<Rightarrow> 'tx \<Rightarrow> cfg_env \<Rightarrow> 'c0" where
  "default_hl ops default_tx default_cfg = co_with_cfg ops default_cfg (co_with_tx ops default_tx (co_mainnet ops))"

definition BLOCKHASH :: u8 where
  "BLOCKHASH = 0x40"

definition hl_evm_inner_new ::
  "('c0, 'c, 'tx, 'db) context_ops \<Rightarrow> (u8 \<Rightarrow> 'x) \<Rightarrow> 'p \<Rightarrow> 'c \<Rightarrow> 'i \<Rightarrow> ('c, 'i, 'x, 'p, 'f) revm_evm hl_evm_inner" where
  "hl_evm_inner_new ops new_mainnet default_precompiles ctx inspector =
     (let instruction = (\<lambda>opcode. RevmInstruction (new_mainnet opcode));
          instruction = (if cfg_chain_id (co_cfg ops ctx) = MAINNET_CHAIN_ID \<and>
               be_number (co_block ops ctx) < ucast NON_PLACEHOLDER_BLOCK_HASH_HEIGHT
             then instruction(BLOCKHASH := BlockhashReturningPlaceholder 20) else instruction)
      in HlEvmInner \<lparr>re_ctx = ctx, re_inspector = inspector, re_instruction = instruction,
           re_precompiles = default_precompiles, re_frame_stack = []\<rparr>)"

definition build_hl_with_inspector ::
  "('c0, 'c, 'tx, 'db) context_ops \<Rightarrow> (u8 \<Rightarrow> 'x) \<Rightarrow> 'p \<Rightarrow> 'c \<Rightarrow> 'i \<Rightarrow> ('c, 'i, 'x, 'p, 'f) revm_evm hl_evm_inner" where
  "build_hl_with_inspector = hl_evm_inner_new"

definition with_precompiles ::
  "'q \<Rightarrow> ('c, 'i, 'x, 'p, 'f) revm_evm hl_evm_inner \<Rightarrow> ('c, 'i, 'x, 'q, 'f) revm_evm hl_evm_inner" where
  "with_precompiles precompiles evm =
     (let m = machine evm
      in HlEvmInner \<lparr>re_ctx = re_ctx m, re_inspector = re_inspector m, re_instruction = re_instruction m,
           re_precompiles = precompiles, re_frame_stack = re_frame_stack m\<rparr>)"

text \<open>\<open>HlEvm\<close>.\<close>

record ('c, 'i, 'x, 'p, 'f) evm_layout =
  le_inner :: "('c, 'i, 'x, 'p, 'f) revm_evm hl_evm_inner"
  le_inspect :: bool

text \<open>The two functions of the factory, which differ in the inspector and in whether it is on.\<close>

definition layout_over ::
  "('c0, 'c, 'tx, 'db) context_ops \<Rightarrow> (u8 \<Rightarrow> 'x) \<Rightarrow> 'p \<Rightarrow> 'tx \<Rightarrow> cfg_env \<Rightarrow> (nat \<Rightarrow> precompiles_map) \<Rightarrow> 'db \<Rightarrow> evm_env \<Rightarrow>
   'i \<Rightarrow> bool \<Rightarrow> ('c, 'i, 'x, precompiles_map, 'f) evm_layout" where
  "layout_over ops new_mainnet default_precompiles default_tx default_cfg precompiles_of db env inspector inspect_on =
     (let ctx = co_with_db ops db (co_with_cfg ops (env_cfg env) (co_with_block ops (env_block env)
                  (default_hl ops default_tx default_cfg)))
      in \<lparr>le_inner = with_precompiles (precompiles_of (into_eth_spec (cfg_spec (env_cfg env))))
            (build_hl_with_inspector ops new_mainnet default_precompiles ctx inspector),
          le_inspect = inspect_on\<rparr>)"

text \<open>\<open>ctx\<close>, \<open>ctx_mut\<close> and the operations of \<open>Evm\<close> that read or change the layout.\<close>

definition layout_ctx :: "('c, 'i, 'x, 'p, 'f) evm_layout \<Rightarrow> 'c" where
  "layout_ctx self = re_ctx (machine (le_inner self))"

definition layout_ctx_mut :: "('c \<Rightarrow> 'c) \<Rightarrow> ('c, 'i, 'x, 'p, 'f) evm_layout \<Rightarrow> ('c, 'i, 'x, 'p, 'f) evm_layout" where
  "layout_ctx_mut f self =
     self\<lparr>le_inner := HlEvmInner ((machine (le_inner self))\<lparr>re_ctx := f (layout_ctx self)\<rparr>)\<rparr>"

definition layout_chain_id :: "('c0, 'c, 'tx, 'db) context_ops \<Rightarrow> ('c, 'i, 'x, 'p, 'f) evm_layout \<Rightarrow> u64" where
  "layout_chain_id ops self = cfg_chain_id (co_cfg ops (layout_ctx self))"

definition layout_block :: "('c0, 'c, 'tx, 'db) context_ops \<Rightarrow> ('c, 'i, 'x, 'p, 'f) evm_layout \<Rightarrow> block_env" where
  "layout_block ops self = co_block ops (layout_ctx self)"

definition layout_finish :: "('c0, 'c, 'tx, 'db) context_ops \<Rightarrow> ('c, 'i, 'x, 'p, 'f) evm_layout \<Rightarrow> 'db \<times> evm_env" where
  "layout_finish ops self =
     (let ctx = layout_ctx self in (co_database ops ctx, \<lparr>env_cfg = co_cfg ops ctx, env_block = co_block ops ctx\<rparr>))"

definition layout_set_inspector_enabled :: "bool \<Rightarrow> ('c, 'i, 'x, 'p, 'f) evm_layout \<Rightarrow> ('c, 'i, 'x, 'p, 'f) evm_layout" where
  "layout_set_inspector_enabled enabled self = self\<lparr>le_inspect := enabled\<rparr>"

definition layout_components ::
  "('c0, 'c, 'tx, 'db) context_ops \<Rightarrow> ('c, 'i, 'x, 'p, 'f) evm_layout \<Rightarrow> 'db \<times> 'i \<times> 'p" where
  "layout_components ops self =
     (co_database ops (layout_ctx self), re_inspector (machine (le_inner self)), re_precompiles (machine (le_inner self)))"

text \<open>\<open>transact_raw\<close> over the inner machine's \<open>inspect_tx\<close> and \<open>transact\<close>.\<close>

definition layout_transact_raw ::
  "('tx \<Rightarrow> ('c, 'i, 'x, 'p, 'f) revm_evm hl_evm_inner \<Rightarrow> 'r \<times> ('c, 'i, 'x, 'p, 'f) revm_evm hl_evm_inner) \<Rightarrow>
   ('tx \<Rightarrow> ('c, 'i, 'x, 'p, 'f) revm_evm hl_evm_inner \<Rightarrow> 'r \<times> ('c, 'i, 'x, 'p, 'f) revm_evm hl_evm_inner) \<Rightarrow>
   'tx \<Rightarrow> ('c, 'i, 'x, 'p, 'f) evm_layout \<Rightarrow> 'r \<times> ('c, 'i, 'x, 'p, 'f) evm_layout" where
  "layout_transact_raw inspect_tx transact tx self =
     map_prod id (\<lambda>inner. self\<lparr>le_inner := inner\<rparr>)
       (if le_inspect self then inspect_tx tx (le_inner self) else transact tx (le_inner self))"

section \<open>Frames\<close>

text \<open>
  What revm's handler does with a machine (\<open>EvmTr\<close>, \<open>InspectorEvmTr\<close>): it works on the context
  with the inspector, the current frame, the instructions or the precompiles, and on the
  stack of frames; it starts, runs and ends a frame.
\<close>

record ('m, 'c, 'i, 'f, 'x, 'p, 'init, 'ires, 'rres, 'fres, 'e) evm_tr =
  tr_ctx :: "'m \<Rightarrow> 'c"
  tr_ctx_instructions :: "'m \<Rightarrow> 'c \<times> (u8 \<Rightarrow> 'x opcode_instruction)"
  tr_ctx_precompiles :: "'m \<Rightarrow> 'c \<times> 'p"
  tr_frame_stack :: "'m \<Rightarrow> 'f list"
  tr_frame_init :: "'init \<Rightarrow> 'm \<Rightarrow> ('ires, 'e) result \<times> 'm"
  tr_frame_run :: "'m \<Rightarrow> ('rres, 'e) result \<times> 'm"
  tr_frame_return_result :: "'fres \<Rightarrow> 'm \<Rightarrow> ('fres option, 'e) result \<times> 'm"

definition hl_evm_tr ::
  "(('c, 'i, 'x, 'p, 'f) revm_evm, 'c, 'i, 'f, 'x, 'p, 'init, 'ires, 'rres, 'fres, 'e) evm_tr \<Rightarrow>
   (('c, 'i, 'x, 'p, 'f) revm_evm hl_evm_inner, 'c, 'i, 'f, 'x, 'p, 'init, 'ires, 'rres, 'fres, 'e) evm_tr" where
  "hl_evm_tr tr =
     \<lparr>tr_ctx = (\<lambda>evm. re_ctx (machine evm)),
      tr_ctx_instructions = (\<lambda>evm. (re_ctx (machine evm), re_instruction (machine evm))),
      tr_ctx_precompiles = (\<lambda>evm. (re_ctx (machine evm), re_precompiles (machine evm))),
      tr_frame_stack = (\<lambda>evm. re_frame_stack (machine evm)),
      tr_frame_init = (\<lambda>input evm. map_prod id HlEvmInner (tr_frame_init tr input (machine evm))),
      tr_frame_run = (\<lambda>evm. map_prod id HlEvmInner (tr_frame_run tr (machine evm))),
      tr_frame_return_result = (\<lambda>r evm. map_prod id HlEvmInner (tr_frame_return_result tr r (machine evm)))\<rparr>"

text \<open>\<open>frame_stack.get\<close> is the frame on top, and revm's own precondition that there is one.\<close>

definition ctx_inspector :: "('c, 'i, 'x, 'p, 'f) revm_evm hl_evm_inner \<Rightarrow> 'c \<times> 'i" where
  "ctx_inspector evm = (re_ctx (machine evm), re_inspector (machine evm))"

definition ctx_inspector_frame :: "('f list \<Rightarrow> 'f) \<Rightarrow> ('c, 'i, 'x, 'p, 'f) revm_evm hl_evm_inner \<Rightarrow> 'c \<times> 'i \<times> 'f" where
  "ctx_inspector_frame stack_get evm =
     (re_ctx (machine evm), re_inspector (machine evm), stack_get (re_frame_stack (machine evm)))"

definition ctx_inspector_frame_instructions ::
  "('f list \<Rightarrow> 'f) \<Rightarrow> ('c, 'i, 'x, 'p, 'f) revm_evm hl_evm_inner \<Rightarrow> 'c \<times> 'i \<times> 'f \<times> (u8 \<Rightarrow> 'x opcode_instruction)" where
  "ctx_inspector_frame_instructions stack_get evm =
     (re_ctx (machine evm), re_inspector (machine evm), stack_get (re_frame_stack (machine evm)), re_instruction (machine evm))"

section \<open>The flat record\<close>

text \<open>What revm's context promises: each method replaces its part and keeps the others.\<close>

locale context_builder =
  fixes ops :: "('c0, 'c, 'tx, 'db) context_ops"
    and block0 :: "'c0 \<Rightarrow> block_env" and cfg0 :: "'c0 \<Rightarrow> cfg_env"
  assumes block_with_block: "block0 (co_with_block ops b c) = b"
    and block_with_cfg: "block0 (co_with_cfg ops x c) = block0 c"
    and cfg_with_cfg: "cfg0 (co_with_cfg ops x c) = x"
    and block_with_db: "co_block ops (co_with_db ops d c) = block0 c"
    and cfg_with_db: "co_cfg ops (co_with_db ops d c) = cfg0 c"
    and database_with_db: "co_database ops (co_with_db ops d c) = d"

definition flat_evm ::
  "('c0, 'c, 'tx, 'db) context_ops \<Rightarrow> ('c, 'i, 'x, precompiles_map, 'f) evm_layout \<Rightarrow> ('db, 'i) hl_evm" where
  "flat_evm ops self = (let m = machine (le_inner self); ctx = layout_ctx self
     in \<lparr>evm_env_of = \<lparr>env_cfg = co_cfg ops ctx, env_block = co_block ops ctx\<rparr>, evm_db = co_database ops ctx,
         evm_inspector = re_inspector m,
         evm_blockhash = (case re_instruction m BLOCKHASH of
             RevmInstruction _ \<Rightarrow> MainnetBlockhash | BlockhashReturningPlaceholder gas \<Rightarrow> PlaceholderBlockhash gas),
         evm_precompiles = re_precompiles m, evm_inspect = le_inspect self\<rparr>)"

context context_builder
begin

lemma flat_layout_over:
  "flat_evm ops (layout_over ops new_mainnet default_precompiles default_tx default_cfg precompiles_of db env inspector b) =
     (create_evm_with_inspector precompiles_of db env inspector)\<lparr>evm_inspect := b\<rparr>"
  by (simp add: flat_evm_def layout_over_def layout_ctx_def machine_def with_precompiles_def build_hl_with_inspector_def
      hl_evm_inner_new_def create_evm_with_inspector_def hl_blockhash_def Let_def block_with_block block_with_cfg cfg_with_cfg
      block_with_db cfg_with_db database_with_db)

end

text \<open>Only the instruction at the opcode of \<open>BLOCKHASH\<close> is ever replaced.\<close>

lemma other_instructions:
  "opcode \<noteq> BLOCKHASH \<Longrightarrow> re_instruction (machine (hl_evm_inner_new ops new_mainnet default_precompiles ctx inspector)) opcode =
     RevmInstruction (new_mainnet opcode)"
  by (simp add: hl_evm_inner_new_def machine_def Let_def)

text \<open>Whatever the handler does with the machine through the wrapper, it does with revm's machine.\<close>

datatype ('init, 'fres) frame_call = FrameInit 'init | FrameRun | FrameReturn 'fres

fun frame_calls :: "('m, 'c, 'i, 'f, 'x, 'p, 'init, 'ires, 'rres, 'fres, 'e) evm_tr \<Rightarrow> ('init, 'fres) frame_call list \<Rightarrow> 'm \<Rightarrow>
    (('ires, 'e) result + ('rres, 'e) result + ('fres option, 'e) result) list \<times> 'm" where
  "frame_calls tr [] m = ([], m)"
| "frame_calls tr (FrameInit input # cs) m =
     (let (r, m) = tr_frame_init tr input m; (rs, m) = frame_calls tr cs m in (Inl r # rs, m))"
| "frame_calls tr (FrameRun # cs) m =
     (let (r, m) = tr_frame_run tr m; (rs, m) = frame_calls tr cs m in (Inr (Inl r) # rs, m))"
| "frame_calls tr (FrameReturn x # cs) m =
     (let (r, m) = tr_frame_return_result tr x m; (rs, m) = frame_calls tr cs m in (Inr (Inr r) # rs, m))"

lemma hl_frame_calls: "frame_calls (hl_evm_tr tr) cs (HlEvmInner m) = map_prod id HlEvmInner (frame_calls tr cs m)"
  by (induction tr cs m rule: frame_calls.induct)
    (simp_all add: hl_evm_tr_def machine_def map_prod_def split: prod.split)

lemma flat_reads:
  "flat_evm ops (layout_set_inspector_enabled b self) = set_inspector_enabled b (flat_evm ops self)"
  "layout_finish ops self = evm_finish (flat_evm ops self)"
  "layout_components ops self = evm_components (flat_evm ops self)"
  "layout_chain_id ops self = cfg_chain_id (env_cfg (evm_env_of (flat_evm ops self)))"
  "layout_block ops self = env_block (evm_env_of (flat_evm ops self))"
  by (simp_all add: layout_set_inspector_enabled_def set_inspector_enabled_def
      layout_finish_def evm_finish_def layout_components_def evm_components_def layout_chain_id_def layout_block_def
      flat_evm_def layout_ctx_def Let_def)

section \<open>Properties\<close>

text \<open>
  The flat record of \<open>Evm_Api\<close> is an abstraction of the layout. Over a context whose methods do
  what they promise, the EVM that the factory builds by its chain of calls is the one
  \<open>create_evm\<close> and \<open>create_evm_with_inspector\<close> describe, with the placeholder instruction for
  \<open>BLOCKHASH\<close> exactly in the early blocks of the mainnet; and reading the chain, the block, the
  database and the components, ending it and switching the inspector agree with the operations
  on the flat record.
\<close>

theorem evm_layout_refines:
  assumes "context_builder ops block0 cfg0"
  shows "flat_evm ops (layout_over ops new_mainnet dp dt dc precompiles_of db env () False) = create_evm precompiles_of db env \<and>
    flat_evm ops (layout_over ops new_mainnet dp dt dc precompiles_of db env inspector True) =
      create_evm_with_inspector precompiles_of db env inspector \<and>
    flat_evm ops (layout_set_inspector_enabled b self) = set_inspector_enabled b (flat_evm ops self) \<and>
    layout_finish ops self = evm_finish (flat_evm ops self) \<and>
    layout_components ops self = evm_components (flat_evm ops self) \<and>
    layout_chain_id ops self = cfg_chain_id (env_cfg (evm_env_of (flat_evm ops self))) \<and>
    layout_block ops self = env_block (evm_env_of (flat_evm ops self))"
proof -
  have "flat_evm ops (layout_over ops new_mainnet dp dt dc precompiles_of db env () False) = create_evm precompiles_of db env"
    by (simp add: context_builder.flat_layout_over [OF assms] create_evm_def create_evm_with_inspector_def)
  moreover have "flat_evm ops (layout_over ops new_mainnet dp dt dc precompiles_of db env inspector True) =
      create_evm_with_inspector precompiles_of db env inspector"
    by (simp add: context_builder.flat_layout_over [OF assms] create_evm_with_inspector_def)
  ultimately show ?thesis by (simp add: flat_reads)
qed

section \<open>An example\<close>

text \<open>A context that is its block, its configuration and its database.\<close>

definition early_env :: evm_env where
  "early_env = hl_evm_env example_chain_ops (example_store_header 5)"

definition plain_context :: "(block_env \<times> cfg_env, block_env \<times> cfg_env \<times> 'db, unit, 'db) context_ops" where
  "plain_context = \<lparr>co_mainnet = (env_block early_env, env_cfg early_env), co_with_tx = (\<lambda>_ c. c),
     co_with_cfg = (\<lambda>x (b, _). (b, x)), co_with_block = (\<lambda>b (_, x). (b, x)), co_with_db = (\<lambda>d (b, x). (b, x, d)),
     co_block = (\<lambda>(b, _, _). b), co_cfg = (\<lambda>(_, x, _). x), co_database = (\<lambda>(_, _, d). d)\<rparr>"

interpretation plain: context_builder plain_context fst snd
  by unfold_locales (auto simp: plain_context_def split: prod.splits)

theorem evm_layout_refines_witness:
  "evm_blockhash (flat_evm plain_context (layout_over plain_context id () () (env_cfg early_env) (\<lambda>_. Map.empty) ()
     early_env () False)) = hl_blockhash (cfg_chain_id (env_cfg early_env)) (be_number (env_block early_env))"
  by (subst conjunct1 [OF evm_layout_refines [OF plain.context_builder_axioms]]) (simp add: create_evm_def)

end
