(* ===== verification/Compliance.thy ===== *)
theory Compliance
  imports Reth_Compat
begin

text \<open>
  The RPC handlers that answer as hl-node does (\<open>src/src/addons/hl_node_compliance.rs\<close>):
  the standard \<open>eth_\<close> methods hide the system transactions of a block and count
  transactions and logs from the first one that is not a system transaction, and the
  \<open>eth_getEvmSystemTxs...\<close> methods show only the system transactions.

  Reth's own API (loading blocks and receipts, converting them to their RPC form) is the
  record \<open>eth_api\<close>, an argument of every handler. A \<open>usize\<close> is 64 bits wide.
\<close>

section \<open>What the handlers exchange with reth\<close>

datatype block_id = IdHash b256 | IdNumber u64 | IdTag string

definition default_block_id :: block_id where
  "default_block_id = IdTag ''latest''"

record recovered_block =
  rb_block :: hl_block
  rb_hash :: b256
  rb_senders :: "address list"

abbreviation rb_txs :: "recovered_block \<Rightarrow> transaction_signed list" where
  "rb_txs rb \<equiv> block_txs (rb_block rb)"

record transaction_info =
  ti_hash :: "b256 option"
  ti_block_hash :: "b256 option"
  ti_block_number :: "u64 option"
  ti_base_fee :: "u64 option"
  ti_index :: "u64 option"

record transaction_meta =
  tm_tx_hash :: b256
  tm_index :: u64
  tm_block_hash :: b256
  tm_block_number :: u64
  tm_base_fee :: "u64 option"
  tm_excess_blob_gas :: "u64 option"
  tm_timestamp :: u64

record convert_receipt_input =
  ci_receipt :: receipt
  ci_tx :: "address \<times> transaction_signed"
  ci_gas_used :: u64
  ci_next_log_index :: u64
  ci_meta :: transaction_meta

record rpc_transaction =
  rt_inner :: transaction_signed
  rt_block_hash :: "b256 option"
  rt_block_number :: "u64 option"
  rt_transaction_index :: "u64 option"

datatype block_transactions = Full "rpc_transaction list" | Hashes "b256 list" | Uncle

record rpc_block =
  rpc_header :: header
  rpc_transactions :: block_transactions

record rpc_log =
  rl_inner :: log_data
  rl_block_number :: "u64 option"
  rl_transaction_index :: "u64 option"
  rl_log_index :: "u64 option"

record ('r, 'f, 'e) eth_api =
  api_recovered_block :: "block_id \<Rightarrow> (recovered_block option, 'e) result"
  api_load_block_and_receipts :: "block_id \<Rightarrow> ((recovered_block \<times> receipt list) option, 'e) result"
  api_load_transaction_and_receipt :: "b256 \<Rightarrow> ((transaction_signed \<times> transaction_meta \<times> receipt) option, 'e) result"
  api_block_by_id :: "block_id \<Rightarrow> (hl_block option, 'e) result"
  api_receipts_by_block :: "u64 \<Rightarrow> (receipt list option, 'e) result"
  api_block_by_hash :: "b256 \<Rightarrow> bool \<Rightarrow> (rpc_block option, 'e) result"
  api_block_by_number :: "block_id \<Rightarrow> bool \<Rightarrow> (rpc_block option, 'e) result"
  api_transaction_count_by_hash :: "b256 \<Rightarrow> (u256 option, 'e) result"
  api_transaction_count_by_number :: "block_id \<Rightarrow> (u256 option, 'e) result"
  api_logs :: "'f \<Rightarrow> (rpc_log list, 'e) result"
  api_tx_hash :: "transaction_signed \<Rightarrow> b256"
  api_fill :: "address \<times> transaction_signed \<Rightarrow> transaction_info \<Rightarrow> (rpc_transaction, 'e) result"
  api_convert_receipts :: "convert_receipt_input list \<Rightarrow> ('r list, 'e) result"

section \<open>System transactions\<close>

text \<open>\<open>filter_map\<close>.\<close>

abbreviation filter_map :: "('a \<Rightarrow> 'b option) \<Rightarrow> 'a list \<Rightarrow> 'b list" where
  "filter_map f xs \<equiv> List.map_filter f xs"

definition get_system_txs_by_block_id ::
  "('r, 'f, 'e) eth_api \<Rightarrow> block_id \<Rightarrow> (rpc_transaction list option, 'e) result" where
  "get_system_txs_by_block_id api bid =
     res_bind (api_recovered_block api bid) (\<lambda>b. case b of None \<Rightarrow> Ok None
       | Some rb \<Rightarrow> Ok (Some (filter_map (\<lambda>(index, signer, tx).
           if is_system_transaction tx
           then res_ok (api_fill api (signer, tx)
             \<lparr>ti_hash = Some (api_tx_hash api tx), ti_block_hash = Some (rb_hash rb),
              ti_block_number = Some (block_number (rb_block rb)),
              ti_base_fee = base_fee_per_gas (block_header (rb_block rb)),
              ti_index = Some (of_nat index)\<rparr>)
           else None) (enumerate 0 (zip (rb_senders rb) (rb_txs rb))))))"

definition meta_at :: "('r, 'f, 'e) eth_api \<Rightarrow> recovered_block \<Rightarrow> transaction_signed \<Rightarrow> u64 \<Rightarrow> transaction_meta" where
  "meta_at api rb tx index = \<lparr>tm_tx_hash = api_tx_hash api tx, tm_index = index, tm_block_hash = rb_hash rb,
     tm_block_number = block_number (rb_block rb), tm_base_fee = base_fee_per_gas (block_header (rb_block rb)),
     tm_excess_blob_gas = excess_blob_gas (block_header (rb_block rb)),
     tm_timestamp = timestamp (block_header (rb_block rb))\<rparr>"

text \<open>The loop over transactions and receipts; it ends at the first receipt that used gas.\<close>

fun system_receipt_inputs ::
  "('r, 'f, 'e) eth_api \<Rightarrow> recovered_block \<Rightarrow> u64 \<Rightarrow> u64 \<Rightarrow> u64 \<Rightarrow>
   ((address \<times> transaction_signed) \<times> receipt) list \<Rightarrow> convert_receipt_input list" where
  "system_receipt_inputs api rb idx gas_used next_log_index [] = []"
| "system_receipt_inputs api rb idx gas_used next_log_index ((tx, rec) # rest) =
     (if rc_cumulative_gas_used rec \<noteq> 0 then []
      else \<lparr>ci_receipt = rec, ci_tx = tx, ci_gas_used = rc_cumulative_gas_used rec - gas_used,
            ci_next_log_index = next_log_index, ci_meta = meta_at api rb (snd tx) idx\<rparr> #
           system_receipt_inputs api rb (idx + 1) (rc_cumulative_gas_used rec)
             (next_log_index + of_nat (length (rc_logs rec))) rest)"

definition get_system_txs_receipts_by_block_id ::
  "('r, 'f, 'e) eth_api \<Rightarrow> block_id \<Rightarrow> ('r list option, 'e) result" where
  "get_system_txs_receipts_by_block_id api bid =
     res_bind (api_load_block_and_receipts api bid) (\<lambda>b. case b of None \<Rightarrow> Ok None
       | Some (rb, receipts) \<Rightarrow>
           res_bind (api_convert_receipts api (system_receipt_inputs api rb 0 0 0
               (zip (zip (rb_senders rb) (rb_txs rb)) receipts)))
             (\<lambda>rs. Ok (Some rs)))"

datatype 'e rpc_error = ApiError 'e | InvalidBlockHeight "block_id option"

definition get_evm_system_txs_by_block_hash ::
  "('r, 'f, 'e) eth_api \<Rightarrow> b256 \<Rightarrow> (rpc_transaction list option, 'e rpc_error) result" where
  "get_evm_system_txs_by_block_hash api h =
     (case get_system_txs_by_block_id api (IdHash h) of Ok txs \<Rightarrow> Ok txs | Err _ \<Rightarrow> Ok None)"

definition get_evm_system_txs_by_block_number ::
  "('r, 'f, 'e) eth_api \<Rightarrow> block_id option \<Rightarrow> (rpc_transaction list option, 'e rpc_error) result" where
  "get_evm_system_txs_by_block_number api i =
     (case get_system_txs_by_block_id api (case i of None \<Rightarrow> default_block_id | Some b \<Rightarrow> b) of
        Err e \<Rightarrow> Err (ApiError e)
      | Ok (Some txs) \<Rightarrow> Ok (Some txs)
      | Ok None \<Rightarrow> Err (InvalidBlockHeight i))"

definition get_evm_system_txs_receipts_by_block_hash ::
  "('r, 'f, 'e) eth_api \<Rightarrow> b256 \<Rightarrow> ('r list option, 'e rpc_error) result" where
  "get_evm_system_txs_receipts_by_block_hash api h =
     (case get_system_txs_receipts_by_block_id api (IdHash h) of Ok rs \<Rightarrow> Ok rs | Err _ \<Rightarrow> Ok None)"

definition get_evm_system_txs_receipts_by_block_number ::
  "('r, 'f, 'e) eth_api \<Rightarrow> block_id option \<Rightarrow> ('r list option, 'e rpc_error) result" where
  "get_evm_system_txs_receipts_by_block_number api i =
     (case get_system_txs_receipts_by_block_id api (case i of None \<Rightarrow> default_block_id | Some b \<Rightarrow> b) of
        Err e \<Rightarrow> Err (ApiError e)
      | Ok (Some rs) \<Rightarrow> Ok (Some rs)
      | Ok None \<Rightarrow> Err (InvalidBlockHeight i))"

section \<open>Logs\<close>

fun sys_counts :: "receipt list \<Rightarrow> u64 \<times> u64 \<Rightarrow> u64 \<times> u64" where
  "sys_counts [] (txs, logs) = (txs, logs)"
| "sys_counts (r # rs) (txs, logs) =
     sys_counts rs (if rc_cumulative_gas_used r = 0 then (txs + 1, logs + of_nat (length (rc_logs r)))
                    else (txs, logs))"

text \<open>A missing field ends the function; an error of the provider panics.\<close>

definition adjust_log :: "('r, 'f, 'e) eth_api \<Rightarrow> rpc_log \<Rightarrow> rpc_log option run" where
  "adjust_log api lg =
     (case (rl_transaction_index lg, rl_log_index lg) of
        (Some tx_idx, Some log_idx) \<Rightarrow>
          (case rl_block_number lg of None \<Rightarrow> Returns None
           | Some n \<Rightarrow> run_bind (unwrap_res (api_receipts_by_block api n)) (\<lambda>rs. case rs of None \<Rightarrow> Returns None
               | Some receipts \<Rightarrow>
                   let (sys_tx_count, sys_log_count) = sys_counts receipts (0, 0)
                   in if sys_tx_count > tx_idx then Returns None
                      else Returns (Some (lg\<lparr>rl_transaction_index := Some (tx_idx - sys_tx_count),
                                             rl_log_index := Some (log_idx - sys_log_count)\<rparr>))))
      | _ \<Rightarrow> Returns None)"

definition eth_logs :: "('r, 'f, 'e) eth_api \<Rightarrow> 'f \<Rightarrow> (rpc_log list, 'e) result run" where
  "eth_logs api f =
     (case api_logs api f of Err e \<Rightarrow> Returns (Err e)
      | Ok logs \<Rightarrow> run_bind (run_list (map (adjust_log api) logs)) (\<lambda>ls. Returns (Ok (filter_map id ls))))"

section \<open>Blocks and receipts\<close>

definition system_tx_count_for_block :: "('r, 'f, 'e) eth_api \<Rightarrow> block_id \<Rightarrow> u64 run" where
  "system_tx_count_for_block api bid =
     run_bind (unwrap_res (api_block_by_id api bid)) (\<lambda>b. run_bind (unwrap b) (\<lambda>blk.
       Returns (of_nat (length (filter is_system_transaction (block_txs blk))))))"

text \<open>\<open>Vec::drain(..n)\<close> panics when the vector is shorter than \<open>n\<close>.\<close>

definition drain :: "u64 \<Rightarrow> 'a list \<Rightarrow> 'a list run" where
  "drain n xs = (if unat n \<le> length xs then Returns (drop (unat n) xs) else Panics)"

definition adjust_block :: "('r, 'f, 'e) eth_api \<Rightarrow> rpc_block \<Rightarrow> rpc_block run" where
  "adjust_block api blk =
     run_bind (system_tx_count_for_block api (IdNumber (hdr_number (rpc_header blk)))) (\<lambda>n.
       case rpc_transactions blk of
         Full txs \<Rightarrow> run_bind (drain n txs) (\<lambda>txs. Returns (blk\<lparr>rpc_transactions := Full (map
             (\<lambda>tx. tx\<lparr>rt_transaction_index := map_option (\<lambda>i. i - n) (rt_transaction_index tx)\<rparr>) txs)\<rparr>))
       | Hashes hs \<Rightarrow> run_bind (drain n hs) (\<lambda>hs. Returns (blk\<lparr>rpc_transactions := Hashes hs\<rparr>))
       | Uncle \<Rightarrow> Returns blk)"

fun user_receipt_inputs ::
  "('r, 'f, 'e) eth_api \<Rightarrow> recovered_block \<Rightarrow> u64 \<Rightarrow> u64 \<Rightarrow> u64 \<Rightarrow> u64 \<Rightarrow>
   ((address \<times> transaction_signed) \<times> receipt) list \<Rightarrow> convert_receipt_input list" where
  "user_receipt_inputs api rb n idx gas_used next_log_index [] = []"
| "user_receipt_inputs api rb n idx gas_used next_log_index ((tx, rec) # rest) =
     (if rc_cumulative_gas_used rec = 0 then user_receipt_inputs api rb n (idx + 1) gas_used next_log_index rest
      else \<lparr>ci_receipt = rec, ci_tx = tx, ci_gas_used = rc_cumulative_gas_used rec - gas_used,
            ci_next_log_index = next_log_index, ci_meta = meta_at api rb (snd tx) (idx - n)\<rparr> #
           user_receipt_inputs api rb n (idx + 1) (rc_cumulative_gas_used rec)
             (next_log_index + of_nat (length (rc_logs rec))) rest)"

definition adjust_block_receipts ::
  "('r, 'f, 'e) eth_api \<Rightarrow> block_id \<Rightarrow> ((u64 \<times> 'r list) option, 'e) result run" where
  "adjust_block_receipts api bid =
     run_bind (system_tx_count_for_block api bid) (\<lambda>n. Returns
       (res_bind (api_load_block_and_receipts api bid) (\<lambda>b. case b of None \<Rightarrow> Ok None
         | Some (rb, receipts) \<Rightarrow>
             res_bind (api_convert_receipts api (user_receipt_inputs api rb n 0 0 0
                 (zip (zip (rb_senders rb) (rb_txs rb)) receipts)))
               (\<lambda>rs. Ok (Some (n, rs))))))"

definition adjust_transaction_receipt ::
  "('r, 'f, 'e) eth_api \<Rightarrow> b256 \<Rightarrow> ('r option, 'e) result run" where
  "adjust_transaction_receipt api tx_hash =
     (case api_load_transaction_and_receipt api tx_hash of
        Err e \<Rightarrow> Returns (Err e)
      | Ok None \<Rightarrow> Returns (Ok None)
      | Ok (Some (_, meta, _)) \<Rightarrow>
          run_bind (adjust_block_receipts api (IdHash (tm_block_hash meta))) (\<lambda>r. case r of
            Err e \<Rightarrow> Returns (Err e)
          | Ok None \<Rightarrow> Panics
          | Ok (Some (system_tx_count, block_receipts)) \<Rightarrow>
              let i = unat (tm_index meta - system_tx_count)
              in if i < length block_receipts then Returns (Ok (Some (block_receipts ! i))) else Panics))"

section \<open>Handlers\<close>

text \<open>The handlers that load a block and pass what was found to a function that may panic.\<close>

definition res_map_run :: "('a option, 'e) result \<Rightarrow> ('a \<Rightarrow> 'b run) \<Rightarrow> ('b option, 'e) result run" where
  "res_map_run r f = (case r of Err e \<Rightarrow> Returns (Err e) | Ok None \<Rightarrow> Returns (Ok None)
     | Ok (Some a) \<Rightarrow> run_bind (f a) (\<lambda>b. Returns (Ok (Some b))))"

definition block_by_hash :: "('r, 'f, 'e) eth_api \<Rightarrow> b256 \<Rightarrow> bool \<Rightarrow> (rpc_block option, 'e) result run" where
  "block_by_hash api h full = res_map_run (api_block_by_hash api h full) (adjust_block api)"

definition block_by_number :: "('r, 'f, 'e) eth_api \<Rightarrow> block_id \<Rightarrow> bool \<Rightarrow> (rpc_block option, 'e) result run" where
  "block_by_number api n full = res_map_run (api_block_by_number api n full) (adjust_block api)"

definition block_transaction_count_by_hash :: "('r, 'f, 'e) eth_api \<Rightarrow> b256 \<Rightarrow> (u256 option, 'e) result run" where
  "block_transaction_count_by_hash api h = res_map_run (api_transaction_count_by_hash api h)
     (\<lambda>count. run_bind (system_tx_count_for_block api (IdHash h)) (\<lambda>n. Returns (count - ucast n)))"

definition block_transaction_count_by_number :: "('r, 'f, 'e) eth_api \<Rightarrow> block_id \<Rightarrow> (u256 option, 'e) result run" where
  "block_transaction_count_by_number api n = res_map_run (api_transaction_count_by_number api n)
     (\<lambda>count. run_bind (system_tx_count_for_block api n) (\<lambda>k. Returns (count - ucast k)))"

definition transaction_receipt :: "('r, 'f, 'e) eth_api \<Rightarrow> b256 \<Rightarrow> ('r option, 'e) result run" where
  "transaction_receipt api h = adjust_transaction_receipt api h"

definition block_receipts_handler :: "('r, 'f, 'e) eth_api \<Rightarrow> block_id \<Rightarrow> ('r list option, 'e) result run" where
  "block_receipts_handler api bid = run_bind (adjust_block_receipts api bid)
     (\<lambda>r. Returns (case r of Err e \<Rightarrow> Err e | Ok None \<Rightarrow> Ok None | Ok (Some (_, rs)) \<Rightarrow> Ok (Some rs)))"

section \<open>Lemmas\<close>

abbreviation used_no_gas :: "receipt \<Rightarrow> bool" where
  "used_no_gas r \<equiv> rc_cumulative_gas_used r = 0"

definition log_count :: "('a \<times> receipt) list \<Rightarrow> nat" where
  "log_count xs = (\<Sum>(_, r) \<leftarrow> xs. length (rc_logs r))"

lemma log_count_simps [simp]:
  "log_count [] = 0" "log_count ((a, r) # xs) = length (rc_logs r) + log_count xs"
  by (simp_all add: log_count_def)

lemma log_count_append [simp]: "log_count (xs @ ys) = log_count xs + log_count ys"
  by (simp add: log_count_def)

text \<open>
  The receipts of a list of transactions as they should be shown: numbered from \<open>idx\<close>,
  each with the gas it used itself and the number of logs before it.
\<close>

definition receipt_inputs ::
  "('r, 'f, 'e) eth_api \<Rightarrow> recovered_block \<Rightarrow> u64 \<Rightarrow> u64 \<Rightarrow> u64 \<Rightarrow>
   ((address \<times> transaction_signed) \<times> receipt) list \<Rightarrow> convert_receipt_input list" where
  "receipt_inputs api rb idx gas logs xs = map (\<lambda>i.
     \<lparr>ci_receipt = snd (xs ! i), ci_tx = fst (xs ! i),
      ci_gas_used = rc_cumulative_gas_used (snd (xs ! i)) -
        (if i = 0 then gas else rc_cumulative_gas_used (snd (xs ! (i - 1)))),
      ci_next_log_index = logs + of_nat (log_count (take i xs)),
      ci_meta = meta_at api rb (snd (fst (xs ! i))) (idx + of_nat i)\<rparr>) [0 ..< length xs]"

lemma length_receipt_inputs [simp]: "length (receipt_inputs api rb idx gas logs xs) = length xs"
  by (simp add: receipt_inputs_def)

lemma receipt_inputs_Nil [simp]: "receipt_inputs api rb idx gas logs [] = []"
  by (simp add: receipt_inputs_def)

lemma receipt_inputs_Cons [simp]:
  "receipt_inputs api rb idx gas logs ((tx, r) # xs) =
     \<lparr>ci_receipt = r, ci_tx = tx, ci_gas_used = rc_cumulative_gas_used r - gas,
      ci_next_log_index = logs, ci_meta = meta_at api rb (snd tx) idx\<rparr> #
     receipt_inputs api rb (idx + 1) (rc_cumulative_gas_used r) (logs + of_nat (length (rc_logs r))) xs"
  unfolding receipt_inputs_def length_Cons map_upt_Suc
  by (auto simp: nth_Cons' algebra_simps)

lemma system_receipt_inputs_eq:
  "system_receipt_inputs api rb idx gas logs xs =
     receipt_inputs api rb idx gas logs (takeWhile (used_no_gas \<circ> snd) xs)"
  by (induction api rb idx gas logs xs rule: system_receipt_inputs.induct) auto

lemma user_receipt_inputs_skip:
  assumes "\<forall>x \<in> set xs. used_no_gas (snd x)"
  shows "user_receipt_inputs api rb n idx gas logs (xs @ ys) =
    user_receipt_inputs api rb n (idx + of_nat (length xs)) gas logs ys"
  using assms by (induction xs arbitrary: idx) (auto simp: algebra_simps)

lemma user_receipt_inputs_all:
  assumes "\<forall>x \<in> set xs. \<not> used_no_gas (snd x)"
  shows "user_receipt_inputs api rb n idx gas logs xs = receipt_inputs api rb (idx - n) gas logs xs"
  using assms
proof (induction api rb n idx gas logs xs rule: user_receipt_inputs.induct)
  case (2 api rb n idx gas logs tx r rest)
  have "idx + 1 - n = idx - n + 1" by simp
  with 2 show ?case by simp
qed simp

section \<open>Blocks as the executor leaves them\<close>

text \<open>
  A block with its receipts: the system transactions stand first, and a receipt shows no
  cumulative gas exactly for a system transaction.
\<close>

definition well_ordered :: "recovered_block \<Rightarrow> receipt list \<Rightarrow> bool" where
  "well_ordered rb receipts \<longleftrightarrow>
     length (rb_senders rb) = length (rb_txs rb) \<and> length receipts = length (rb_txs rb) \<and>
     length (rb_txs rb) < 2 ^ 64 \<and>
     prefix_closed is_system_transaction (rb_txs rb) \<and>
     (\<forall>i < length (rb_txs rb). used_no_gas (receipts ! i) \<longleftrightarrow> is_system_transaction (rb_txs rb ! i))"

definition sys_count :: "recovered_block \<Rightarrow> nat" where
  "sys_count rb = length (filter is_system_transaction (rb_txs rb))"

abbreviation with_receipts ::
  "recovered_block \<Rightarrow> receipt list \<Rightarrow> ((address \<times> transaction_signed) \<times> receipt) list" where
  "with_receipts rb receipts \<equiv> zip (zip (rb_senders rb) (rb_txs rb)) receipts"

lemma sys_count_le: "sys_count rb \<le> length (rb_txs rb)"
  by (simp add: sys_count_def)

lemma well_ordered_used_no_gas:
  assumes "well_ordered rb receipts" "i < length receipts"
  shows "used_no_gas (receipts ! i) \<longleftrightarrow> i < sys_count rb"
  using assms prefix_closed_nth [of is_system_transaction "rb_txs rb" i]
  by (auto simp: well_ordered_def sys_count_def)

lemma well_ordered_split:
  assumes "well_ordered rb receipts"
  shows "\<forall>x \<in> set (take (sys_count rb) (with_receipts rb receipts)). used_no_gas (snd x)"
    and "\<forall>x \<in> set (drop (sys_count rb) (with_receipts rb receipts)). \<not> used_no_gas (snd x)"
proof -
  let ?xs = "with_receipts rb receipts"
  have len: "length ?xs = length receipts" using assms by (simp add: well_ordered_def)
  have nth: "used_no_gas (snd (?xs ! i)) \<longleftrightarrow> i < sys_count rb" if "i < length ?xs" for i
    using that assms well_ordered_used_no_gas [OF assms, of i] by (simp add: well_ordered_def)
  show "\<forall>x \<in> set (take (sys_count rb) ?xs). used_no_gas (snd x)"
    using nth by (auto simp: in_set_conv_nth)
  show "\<forall>x \<in> set (drop (sys_count rb) ?xs). \<not> used_no_gas (snd x)"
  proof
    fix x assume "x \<in> set (drop (sys_count rb) ?xs)"
    then obtain j where j: "j < length ?xs - sys_count rb" "x = drop (sys_count rb) ?xs ! j"
      by (metis in_set_conv_nth length_drop)
    then have "x = ?xs ! (sys_count rb + j)" by (metis less_diff_conv2 nat_le_linear nth_drop
          diff_is_0_eq' not_less_zero)
    with nth [of "sys_count rb + j"] j(1) show "\<not> used_no_gas (snd x)" by (simp add: less_diff_conv)
  qed
qed

lemma well_ordered_takeWhile:
  assumes "well_ordered rb receipts"
  shows "takeWhile (used_no_gas \<circ> snd) (with_receipts rb receipts) =
    take (sys_count rb) (with_receipts rb receipts)"
proof -
  let ?xs = "with_receipts rb receipts" and ?k = "sys_count rb"
  note split = well_ordered_split [OF assms]
  have "takeWhile (used_no_gas \<circ> snd) (take ?k ?xs @ drop ?k ?xs) =
      take ?k ?xs @ takeWhile (used_no_gas \<circ> snd) (drop ?k ?xs)"
    using split(1) by (subst takeWhile_append2) auto
  moreover have "takeWhile (used_no_gas \<circ> snd) (drop ?k ?xs) = []"
    using split(2) by (cases "drop ?k ?xs") auto
  ultimately show ?thesis by simp
qed

lemma user_receipt_inputs_well_ordered:
  assumes "well_ordered rb receipts"
  shows "user_receipt_inputs api rb (of_nat (sys_count rb)) 0 0 0 (with_receipts rb receipts) =
    receipt_inputs api rb 0 0 0 (drop (sys_count rb) (with_receipts rb receipts))"
proof -
  let ?xs = "with_receipts rb receipts" and ?k = "sys_count rb"
  note split = well_ordered_split [OF assms]
  have k: "length (take ?k ?xs) = ?k"
    using assms sys_count_le [of rb] by (simp add: well_ordered_def)
  have "user_receipt_inputs api rb (of_nat ?k) 0 0 0 (take ?k ?xs @ drop ?k ?xs) =
      user_receipt_inputs api rb (of_nat ?k) (0 + of_nat (length (take ?k ?xs))) 0 0 (drop ?k ?xs)"
    using split(1) by (rule user_receipt_inputs_skip)
  also have "\<dots> = receipt_inputs api rb (0 + of_nat (length (take ?k ?xs)) - of_nat ?k) 0 0 (drop ?k ?xs)"
    using split(2) by (rule user_receipt_inputs_all)
  finally show ?thesis unfolding k by simp
qed

lemma system_tx_count_Returns:
  assumes "api_block_by_id api bid = Ok (Some (rb_block rb))"
  shows "system_tx_count_for_block api bid = Returns (of_nat (sys_count rb))"
  using assms by (simp add: system_tx_count_for_block_def sys_count_def)

text \<open>The API knows the block under the id, and converting receipts converts each of them.\<close>

definition serves :: "('r, 'f, 'e) eth_api \<Rightarrow> block_id \<Rightarrow> recovered_block \<Rightarrow> receipt list \<Rightarrow> bool" where
  "serves api bid rb receipts \<longleftrightarrow> api_block_by_id api bid = Ok (Some (rb_block rb)) \<and>
     api_load_block_and_receipts api bid = Ok (Some (rb, receipts))"

definition converts_each :: "('r, 'f, 'e) eth_api \<Rightarrow> (convert_receipt_input \<Rightarrow> 'r) \<Rightarrow> bool" where
  "converts_each api conv \<longleftrightarrow> (\<forall>ins. api_convert_receipts api ins = Ok (map conv ins))"

lemma system_receipts_eq:
  assumes "serves api bid rb receipts" "converts_each api conv" "well_ordered rb receipts"
  shows "get_system_txs_receipts_by_block_id api bid = Ok (Some (map conv
    (receipt_inputs api rb 0 0 0 (take (sys_count rb) (with_receipts rb receipts)))))"
  using assms
  by (simp add: get_system_txs_receipts_by_block_id_def serves_def converts_each_def
      system_receipt_inputs_eq well_ordered_takeWhile)

lemma adjust_block_receipts_eq:
  assumes "serves api bid rb receipts" "converts_each api conv" "well_ordered rb receipts"
  shows "adjust_block_receipts api bid = Returns (Ok (Some (of_nat (sys_count rb),
    map conv (receipt_inputs api rb 0 0 0 (drop (sys_count rb) (with_receipts rb receipts))))))"
  using assms
  by (simp add: adjust_block_receipts_def serves_def converts_each_def system_tx_count_Returns
      user_receipt_inputs_well_ordered)

lemma filter_eq_take:
  assumes "\<forall>x \<in> set (take k xs). P x" "\<forall>x \<in> set (drop k xs). \<not> P x"
  shows "filter P xs = take k xs"
proof -
  have "filter P (take k xs @ drop k xs) = take k xs @ []"
    unfolding filter_append using assms by (intro arg_cong2 [where f = append]) simp_all
  then show ?thesis by simp
qed

lemma ucast_of_nat_u256: "n < 2 ^ 64 \<Longrightarrow> ucast (of_nat n :: u64) = (of_nat n :: u256)"
  by (simp add: word_unat_eq_iff unsigned_ucast_eq take_bit_eq_mod unat_of_nat)

lemma sys_counts_eq:
  "sys_counts rs (a, b) = (a + of_nat (length (filter used_no_gas rs)),
     b + of_nat (\<Sum>r \<leftarrow> filter used_no_gas rs. length (rc_logs r)))"
  by (induction rs "(a, b)" arbitrary: a b rule: sys_counts.induct) (auto simp: algebra_simps)

section \<open>Properties\<close>

text \<open>
  C11. The receipts of a block are split between the two families of methods, with nothing
  lost and nothing shown twice: \<open>eth_getEvmSystemTxsReceipts...\<close> shows the receipts of the
  system transactions and \<open>eth_getBlockReceipts\<close> those of all others; each list is in block
  order and numbered from zero, and each receipt shows the gas of its own transaction and
  the number of logs before it in its own list.
\<close>

theorem block_receipts_partition:
  assumes "serves api bid rb receipts" "converts_each api conv" "well_ordered rb receipts"
  shows "get_system_txs_receipts_by_block_id api bid = Ok (Some (map conv
      (receipt_inputs api rb 0 0 0 (take (sys_count rb) (with_receipts rb receipts))))) \<and>
    block_receipts_handler api bid = Returns (Ok (Some (map conv
      (receipt_inputs api rb 0 0 0 (drop (sys_count rb) (with_receipts rb receipts))))))"
  by (simp add: system_receipts_eq [OF assms] block_receipts_handler_def adjust_block_receipts_eq [OF assms])

text \<open>
  C18. \<open>eth_getTransactionReceipt\<close> of the transaction at position \<open>i\<close> of its block returns
  the receipt that \<open>eth_getBlockReceipts\<close> shows for it, if it is not a system transaction;
  for a system transaction the handler panics, because the subtraction of the number
  of system transactions wraps around.
\<close>

theorem transaction_receipt_consistent:
  assumes "serves api (IdHash h) rb receipts" "converts_each api conv" "well_ordered rb receipts"
    and "api_load_transaction_and_receipt api tx_hash = Ok (Some (tx, meta, r))"
    and "tm_block_hash meta = h" "tm_index meta = of_nat i" "i < length (rb_txs rb)"
  shows "transaction_receipt api tx_hash =
    (if is_system_transaction (rb_txs rb ! i) then Panics
     else Returns (Ok (Some (map conv (receipt_inputs api rb 0 0 0
       (drop (sys_count rb) (with_receipts rb receipts))) ! (i - sys_count rb)))))"
proof -
  let ?k = "sys_count rb"
  have len: "length (rb_txs rb) < 2 ^ 64" "length receipts = length (rb_txs rb)"
    "length (rb_senders rb) = length (rb_txs rb)"
    using assms(3) by (auto simp: well_ordered_def)
  have sys: "is_system_transaction (rb_txs rb ! i) \<longleftrightarrow> i < ?k"
    using assms(3,7) prefix_closed_nth by (fastforce simp: well_ordered_def sys_count_def)
  have un: "unat (of_nat i :: u64) = i" "unat (of_nat ?k :: u64) = ?k"
    using assms(7) len sys_count_le [of rb] by (simp_all add: unat_of_nat_u64)
  have "unat (of_nat i - of_nat ?k :: u64) = (if i < ?k then 2 ^ 64 + i - ?k else i - ?k)"
    using un assms(7) len(1) sys_count_le [of rb] by (auto simp: unat_sub_if_size word_size)
  then show ?thesis
    using assms(4-7) len sys sys_count_le [of rb]
    by (auto simp: transaction_receipt_def adjust_transaction_receipt_def Let_def
        adjust_block_receipts_eq [OF assms(1-3)])
qed

text \<open>
  \<open>eth_getBlockReceipts\<close> of a block the provider does not know panics; the count of
  system transactions is taken before the block is looked up.
\<close>

theorem block_receipts_unknown_block:
  assumes "api_block_by_id api bid = Ok None"
  shows "block_receipts_handler api bid = Panics"
  using assms
  by (simp add: block_receipts_handler_def adjust_block_receipts_def system_tx_count_for_block_def)

text \<open>
  C16. \<open>eth_getLogs\<close> agrees with the receipts. The \<open>j\<close>-th log of the transaction at position
  \<open>i\<close> is dropped if the transaction is a system transaction; otherwise it is shown with
  the transaction index and with the log index (the receipt's first log index plus \<open>j\<close>)
  that \<open>eth_getBlockReceipts\<close> gives. (The comment at the head of the module says that such a
  log is returned as it is and the client adjusts its index; the code rewrites both indices.)
\<close>

theorem adjust_log_consistent:
  assumes "well_ordered rb receipts" "api_receipts_by_block api n = Ok (Some receipts)"
    and "rl_block_number lg = Some n" "i < length receipts"
    and "rl_transaction_index lg = Some (of_nat i)"
    and "rl_log_index lg = Some (of_nat (log_count (take i (with_receipts rb receipts)) + j))"
  shows "adjust_log api lg =
    (if is_system_transaction (rb_txs rb ! i) then Returns None
     else let shown = receipt_inputs api rb 0 0 0 (drop (sys_count rb) (with_receipts rb receipts))
              ! (i - sys_count rb)
       in Returns (Some (lg\<lparr>rl_transaction_index := Some (tm_index (ci_meta shown)),
            rl_log_index := Some (ci_next_log_index shown + of_nat j)\<rparr>)))"
proof -
  let ?k = "sys_count rb" and ?xs = "with_receipts rb receipts"
  have len: "length (rb_txs rb) < 2 ^ 64" "length receipts = length (rb_txs rb)" "length ?xs = length receipts"
    using assms(1) by (auto simp: well_ordered_def)
  have sys: "is_system_transaction (rb_txs rb ! i) \<longleftrightarrow> i < ?k"
    using assms(1,4) prefix_closed_nth by (fastforce simp: well_ordered_def sys_count_def)
  have "receipts = map snd ?xs" using assms(1) by (simp add: well_ordered_def)
  then have "filter used_no_gas receipts = map snd (filter (used_no_gas \<circ> snd) ?xs)"
    by (metis filter_map)
  also have "filter (used_no_gas \<circ> snd) ?xs = take ?k ?xs"
    using well_ordered_split [OF assms(1)] by (intro filter_eq_take) simp_all
  finally have f: "filter used_no_gas receipts = map snd (take ?k ?xs)" .
  have k: "length (take ?k ?xs) = ?k" using len sys_count_le [of rb] by simp
  have counts: "sys_counts receipts (0, 0) = (of_nat ?k, of_nat (log_count (take ?k ?xs)))"
    using k by (simp add: sys_counts_eq f log_count_def case_prod_unfold comp_def)
  have un: "(of_nat ?k :: u64) > of_nat i \<longleftrightarrow> i < ?k"
    using assms(4) len sys_count_le [of rb] by (simp add: word_less_nat_alt unat_of_nat_u64)
  show ?thesis
  proof (cases "i < ?k")
    case True
    then show ?thesis
      using assms(2,3,5,6) un sys by (simp add: adjust_log_def counts)
  next
    case False
    then have "take i ?xs = take ?k ?xs @ take (i - ?k) (drop ?k ?xs)"
      by (metis le_add_diff_inverse not_less take_add)
    with False show ?thesis
      using assms(2-6) un sys len
      by (simp add: adjust_log_def counts receipt_inputs_def meta_at_def of_nat_diff Let_def)
  qed
qed

text \<open>
  C17. \<open>eth_getBlockBy...\<close> and the transaction counts hide the system transactions, all
  of them and nothing else. Take a block whose system transactions stand first, as the
  conversion of source blocks puts them, and let reth show its transactions in block order.
  Then a full block shows the transactions that are not system transactions, in block order
  and numbered from zero; for a block of hashes the same hashes remain; and the number that
  \<open>eth_getBlockTransactionCountBy...\<close> returns is the number of these transactions.
\<close>

theorem adjust_block_hides_system_txs:
  assumes "api_block_by_id api (IdNumber (hdr_number (rpc_header blk))) = Ok (Some (rb_block rb))"
    and "length (rb_txs rb) < 2 ^ 64" "prefix_closed is_system_transaction (rb_txs rb)"
    and "rpc_transactions blk = Full txs" "map rt_inner txs = rb_txs rb"
    and "\<forall>i < length txs. rt_transaction_index (txs ! i) = Some (of_nat i)"
    and "api_transaction_count_by_number api bid = Ok (Some (of_nat (length txs)))"
    and "api_block_by_id api bid = Ok (Some (rb_block rb))"
  shows "\<exists>shown. adjust_block api blk = Returns (blk\<lparr>rpc_transactions := Full shown\<rparr>) \<and>
    map rt_inner shown = filter (\<lambda>tx. \<not> is_system_transaction tx) (rb_txs rb) \<and>
    (\<forall>i < length shown. shown ! i = (txs ! (i + sys_count rb))\<lparr>rt_transaction_index := Some (of_nat i)\<rparr>) \<and>
    adjust_block api (blk\<lparr>rpc_transactions := Hashes (map (api_tx_hash api \<circ> rt_inner) txs)\<rparr>) =
      Returns (blk\<lparr>rpc_transactions := Hashes (map (api_tx_hash api \<circ> rt_inner) shown)\<rparr>) \<and>
    block_transaction_count_by_number api bid =
      Returns (Ok (Some (of_nat (length (filter (\<lambda>tx. \<not> is_system_transaction tx) (rb_txs rb))))))"
proof -
  let ?k = "sys_count rb"
  let ?f = "\<lambda>tx. tx\<lparr>rt_transaction_index := map_option (\<lambda>i. i - of_nat ?k) (rt_transaction_index tx)\<rparr>"
  let ?shown = "map ?f (drop ?k txs)"
  have len: "length txs = length (rb_txs rb)" using arg_cong [OF assms(5), of length] by simp
  have k: "?k \<le> length txs" using len sys_count_le [of rb] by simp
  have un: "unat (of_nat ?k :: u64) = ?k" using k assms(2) len by (simp add: unat_of_nat_u64)
  have "map rt_inner ?shown = drop ?k (map rt_inner txs)" by (simp add: drop_map)
  also have "\<dots> = filter (\<lambda>tx. \<not> is_system_transaction tx) (rb_txs rb)"
    unfolding assms(5) sys_count_def by (rule prefix_closed_drop [OF assms(3)])
  finally have shown: "map rt_inner ?shown = filter (\<lambda>tx. \<not> is_system_transaction tx) (rb_txs rb)" .
  have count: "system_tx_count_for_block api (IdNumber (hdr_number (rpc_header blk))) = Returns (of_nat ?k)"
    "system_tx_count_for_block api bid = Returns (of_nat ?k)"
    using assms(1,8) by (simp_all add: system_tx_count_Returns)
  have "ucast (of_nat ?k :: u64) = (of_nat ?k :: u256)"
    using k assms(2) len by (intro ucast_of_nat_u256) simp
  then have "block_transaction_count_by_number api bid = Returns (Ok (Some (of_nat (length ?shown))))"
    using k by (simp add: block_transaction_count_by_number_def res_map_run_def assms(7) count of_nat_diff)
  also have "length ?shown = length (filter (\<lambda>tx. \<not> is_system_transaction tx) (rb_txs rb))"
    using arg_cong [OF shown, of length] by simp
  finally have number: "block_transaction_count_by_number api bid =
      Returns (Ok (Some (of_nat (length (filter (\<lambda>tx. \<not> is_system_transaction tx) (rb_txs rb))))))" .
  have full: "adjust_block api blk = Returns (blk\<lparr>rpc_transactions := Full ?shown\<rparr>)"
    using k by (simp add: adjust_block_def count assms(4) drain_def un)
  have hashes: "adjust_block api (blk\<lparr>rpc_transactions := Hashes (map (api_tx_hash api \<circ> rt_inner) txs)\<rparr>) =
      Returns (blk\<lparr>rpc_transactions := Hashes (map (api_tx_hash api \<circ> rt_inner) ?shown)\<rparr>)"
    using k by (simp add: adjust_block_def count drain_def un drop_map comp_def)
  have renumbered: "\<forall>i < length ?shown. ?shown ! i = (txs ! (i + ?k))\<lparr>rt_transaction_index := Some (of_nat i)\<rparr>"
    using assms(6) k by (simp add: add.commute)
  show ?thesis
    by (intro exI [of _ ?shown] conjI) (rule full shown renumbered hashes number)+
qed

section \<open>An example\<close>

definition example_log :: log_data where
  "example_log = \<lparr>log_address = 0xabc, log_topics = [], log_bytes = []\<rparr>"

definition example_receipts :: "receipt list" where
  "example_receipts =
     [\<lparr>rc_tx_type = TyLegacy, rc_success = True, rc_cumulative_gas_used = 0, rc_logs = [example_log]\<rparr>,
      \<lparr>rc_tx_type = TyLegacy, rc_success = True, rc_cumulative_gas_used = 21000, rc_logs = [example_log, example_log]\<rparr>]"

definition example_rb :: recovered_block where
  "example_rb = \<lparr>rb_block = example_block, rb_hash = 77, rb_senders = [1, 2]\<rparr>"

definition example_rpc_txs :: "rpc_transaction list" where
  "example_rpc_txs = map (\<lambda>(i, tx). \<lparr>rt_inner = tx, rt_block_hash = Some 77, rt_block_number = Some 5,
     rt_transaction_index = Some (of_nat i)\<rparr>) (enumerate 0 (rb_txs example_rb))"

definition example_rpc_block :: rpc_block where
  "example_rpc_block = \<lparr>rpc_header = example_header, rpc_transactions = Full example_rpc_txs\<rparr>"

text \<open>An API that knows the example block alone; transaction \<open>i\<close> of it has the hash \<open>i\<close>.\<close>

definition example_api :: "(convert_receipt_input, unit, unit) eth_api" where
  "example_api = \<lparr>
     api_recovered_block = (\<lambda>_. Ok (Some example_rb)),
     api_load_block_and_receipts = (\<lambda>_. Ok (Some (example_rb, example_receipts))),
     api_load_transaction_and_receipt = (\<lambda>h. if unat h < 2 then Ok (Some (rb_txs example_rb ! unat h,
       \<lparr>tm_tx_hash = h, tm_index = of_nat (unat h), tm_block_hash = 77, tm_block_number = 5,
        tm_base_fee = None, tm_excess_blob_gas = None, tm_timestamp = 1\<rparr>, example_receipts ! unat h)) else Ok None),
     api_block_by_id = (\<lambda>b. if b = IdHash 78 then Ok None else Ok (Some example_block)),
     api_receipts_by_block = (\<lambda>_. Ok (Some example_receipts)),
     api_block_by_hash = (\<lambda>_ _. Ok (Some example_rpc_block)),
     api_block_by_number = (\<lambda>_ _. Ok (Some example_rpc_block)),
     api_transaction_count_by_hash = (\<lambda>_. Ok (Some 2)),
     api_transaction_count_by_number = (\<lambda>_. Ok (Some 2)),
     api_logs = (\<lambda>_. Ok []),
     api_tx_hash = (\<lambda>tx. if is_system_transaction tx then 0 else 1),
     api_fill = (\<lambda>(a, tx) info. Ok \<lparr>rt_inner = tx, rt_block_hash = ti_block_hash info,
       rt_block_number = ti_block_number info, rt_transaction_index = ti_index info\<rparr>),
     api_convert_receipts = Ok\<rparr>"

lemma example_rb_sys [simp]:
  "is_system_transaction (rb_txs example_rb ! 0)" "\<not> is_system_transaction (rb_txs example_rb ! Suc 0)"
  "length (rb_txs example_rb) = 2" "sys_count example_rb = 1"
  by (simp_all add: example_rb_def example_block_def is_system_transaction_def into_inner_def
      example_legacy_def sys_count_def)

lemma example_well_ordered: "well_ordered example_rb example_receipts"
proof -
  have "prefix_closed is_system_transaction (rb_txs example_rb)"
    by (simp add: example_rb_def example_block_def is_system_transaction_def into_inner_def example_legacy_def)
  moreover have "length (rb_senders example_rb) = 2" by (simp add: example_rb_def)
  ultimately show ?thesis
    by (auto simp: well_ordered_def example_receipts_def less_2_cases_iff)
qed

lemma example_serves: "b \<noteq> IdHash 78 \<Longrightarrow> serves example_api b example_rb example_receipts"
  by (simp add: serves_def example_api_def example_rb_def)

lemma example_converts: "converts_each example_api id"
  by (simp add: converts_each_def example_api_def)

lemma example_user_part:
  "drop (Suc 0) (with_receipts example_rb example_receipts) =
     [((2, rb_txs example_rb ! Suc 0), example_receipts ! Suc 0)]"
  by (simp add: example_rb_def example_receipts_def example_block_def)

theorem block_receipts_partition_witness:
  "\<exists>r. block_receipts_handler example_api (IdHash 77) = Returns (Ok (Some [r])) \<and>
     ci_gas_used r = 21000 \<and> tm_index (ci_meta r) = 0 \<and> ci_next_log_index r = 0"
  using block_receipts_partition [OF example_serves example_converts example_well_ordered, of "IdHash 77"]
  by (simp add: example_user_part meta_at_def) (simp add: example_receipts_def)

theorem transaction_receipt_consistent_witness:
  "transaction_receipt example_api 0 = Panics"
  using transaction_receipt_consistent [OF example_serves example_converts example_well_ordered,
      of 77 0 "rb_txs example_rb ! 0" _ "example_receipts ! 0" 0]
  by (simp add: example_api_def)

theorem block_receipts_unknown_block_witness:
  "block_receipts_handler example_api (IdHash 78) = Panics"
  by (rule block_receipts_unknown_block) (simp add: example_api_def)

theorem adjust_log_consistent_witness:
  "adjust_log example_api \<lparr>rl_inner = example_log, rl_block_number = Some 5, rl_transaction_index = Some 1,
      rl_log_index = Some 2\<rparr> =
   Returns (Some \<lparr>rl_inner = example_log, rl_block_number = Some 5, rl_transaction_index = Some 0,
      rl_log_index = Some 1\<rparr>)"
  using adjust_log_consistent [OF example_well_ordered, of example_api 5
      "\<lparr>rl_inner = example_log, rl_block_number = Some 5, rl_transaction_index = Some 1, rl_log_index = Some 2\<rparr>" 1 1]
  by (simp add: example_api_def example_receipts_def example_rb_def example_block_def meta_at_def Let_def
      is_system_transaction_def into_inner_def example_legacy_def sys_count_def)

theorem adjust_block_hides_system_txs_witness:
  "\<exists>shown. adjust_block example_api example_rpc_block =
      Returns (example_rpc_block\<lparr>rpc_transactions := Full shown\<rparr>) \<and> map rt_inner shown = [rb_txs example_rb ! Suc 0]"
proof -
  have "length example_rpc_txs = 2" by (simp add: example_rpc_txs_def)
  moreover have "map rt_inner example_rpc_txs = rb_txs example_rb"
    by (simp add: example_rpc_txs_def comp_def case_prod_unfold)
  moreover have "prefix_closed is_system_transaction (rb_txs example_rb)"
    using example_well_ordered by (simp add: well_ordered_def)
  moreover have "filter (\<lambda>tx. \<not> is_system_transaction tx) (rb_txs example_rb) = [rb_txs example_rb ! Suc 0]"
    by (simp add: example_rb_def example_block_def is_system_transaction_def into_inner_def example_legacy_def)
  moreover have "\<forall>i < 2. rt_transaction_index (example_rpc_txs ! i) = Some (of_nat i)"
    by (simp add: example_rpc_txs_def nth_enumerate_eq)
  moreover have "api_block_by_id example_api (IdNumber n) = Ok (Some (rb_block example_rb))"
    "api_transaction_count_by_number example_api (IdNumber n) = Ok (Some 2)" for n
    by (simp_all add: example_api_def example_rb_def)
  moreover have "rpc_transactions example_rpc_block = Full example_rpc_txs"
    by (simp add: example_rpc_block_def)
  ultimately show ?thesis
    using adjust_block_hides_system_txs [of example_api example_rpc_block example_rb example_rpc_txs "IdNumber 5"]
    by auto
qed

end
