(* ===== verification/Subscriptions.thy ===== *)
theory Subscriptions
  imports Compliance
begin

text \<open>
  Filters and subscriptions of the RPC compliance layer (\<open>HlNodeFilterHttp\<close>, \<open>HlNodeFilterWs\<close>
  and \<open>pipe_from_stream\<close> of \<open>src/src/addons/hl_node_compliance.rs\<close>).

  Reth's own filter store is the record \<open>eth_filter\<close>: each of its methods reads and writes
  the store \<open>'s\<close>. A log subscription is a task that runs a \<open>tokio::select!\<close> loop; what the
  loop meets is a list of events, one per turn: the client goes away, a log arrives (and the
  message made of it can be sent or not), the stream ends. Every interleaving of the network and the
  chain is one such list.
\<close>

section \<open>Filters\<close>

datatype pending_transaction_filter_kind = FullPending | HashesPending

datatype changes = ChangedLogs "rpc_log list" | ChangedHashes "b256 list"
  | ChangedTransactions "rpc_transaction list" | ChangedNothing

record ('s, 'i, 'f, 'e, 'fe) eth_filter =
  ef_new_filter :: "'f \<Rightarrow> 's \<Rightarrow> ('i, 'e) result \<times> 's"
  ef_new_block_filter :: "'s \<Rightarrow> ('i, 'e) result \<times> 's"
  ef_new_pending_transaction_filter :: "pending_transaction_filter_kind option \<Rightarrow> 's \<Rightarrow> ('i, 'e) result \<times> 's"
  ef_filter_changes :: "'i \<Rightarrow> 's \<Rightarrow> (changes, 'fe) result \<times> 's"
  ef_filter_logs :: "'i \<Rightarrow> 's \<Rightarrow> (rpc_log list, 'fe) result \<times> 's"
  ef_uninstall_filter :: "'i \<Rightarrow> 's \<Rightarrow> (bool, 'e) result \<times> 's"
  ef_error :: "'fe \<Rightarrow> 'e"

record ('s, 'i, 'r, 'f, 'e, 'fe) hl_node_filter_http =
  fh_filter :: "('s, 'i, 'f, 'e, 'fe) eth_filter"
  fh_provider :: "('r, 'f, 'e) eth_api"

definition hl_node_filter_http_new ::
  "('s, 'i, 'f, 'e, 'fe) eth_filter \<Rightarrow> ('r, 'f, 'e) eth_api \<Rightarrow> ('s, 'i, 'r, 'f, 'e, 'fe) hl_node_filter_http" where
  "hl_node_filter_http_new filt provider = \<lparr>fh_filter = filt, fh_provider = provider\<rparr>"

definition new_filter ::
  "('s, 'i, 'r, 'f, 'e, 'fe) hl_node_filter_http \<Rightarrow> 'f \<Rightarrow> 's \<Rightarrow> ('i, 'e) result \<times> 's" where
  "new_filter h f s = ef_new_filter (fh_filter h) f s"

definition new_block_filter ::
  "('s, 'i, 'r, 'f, 'e, 'fe) hl_node_filter_http \<Rightarrow> 's \<Rightarrow> ('i, 'e) result \<times> 's" where
  "new_block_filter h s = ef_new_block_filter (fh_filter h) s"

definition new_pending_transaction_filter ::
  "('s, 'i, 'r, 'f, 'e, 'fe) hl_node_filter_http \<Rightarrow> pending_transaction_filter_kind option \<Rightarrow> 's \<Rightarrow> ('i, 'e) result \<times> 's" where
  "new_pending_transaction_filter h kind s = ef_new_pending_transaction_filter (fh_filter h) kind s"

definition filter_changes ::
  "('s, 'i, 'r, 'f, 'e, 'fe) hl_node_filter_http \<Rightarrow> 'i \<Rightarrow> 's \<Rightarrow> (changes, 'e) result \<times> 's" where
  "filter_changes h i s = (let (r, s') = ef_filter_changes (fh_filter h) i s
     in (res_map_err (ef_error (fh_filter h)) r, s'))"

definition filter_logs ::
  "('s, 'i, 'r, 'f, 'e, 'fe) hl_node_filter_http \<Rightarrow> 'i \<Rightarrow> 's \<Rightarrow> (rpc_log list, 'e) result \<times> 's" where
  "filter_logs h i s = (let (r, s') = ef_filter_logs (fh_filter h) i s
     in (res_map_err (ef_error (fh_filter h)) r, s'))"

definition uninstall_filter ::
  "('s, 'i, 'r, 'f, 'e, 'fe) hl_node_filter_http \<Rightarrow> 'i \<Rightarrow> 's \<Rightarrow> (bool, 'e) result \<times> 's" where
  "uninstall_filter h i s = ef_uninstall_filter (fh_filter h) i s"

definition filter_http_logs ::
  "('s, 'i, 'r, 'f, 'e, 'fe) hl_node_filter_http \<Rightarrow> 'f \<Rightarrow> (rpc_log list, 'e) result run" where
  "filter_http_logs h f = eth_logs (fh_provider h) f"

section \<open>Subscriptions\<close>

text \<open>
  One turn of the \<open>select!\<close> loop. \<open>Arrives x ok\<close>: the stream yields \<open>x\<close>, and \<open>ok\<close> tells
  whether the connection still takes a message when \<open>sink.send\<close> is called for it.
\<close>

datatype 'i pipe_event = SinkCloses | StreamEnds | Arrives 'i bool

datatype 'e pipe_status = Waiting | Finished "(unit, 'e) result" | Panicked

text \<open>
  The loop of \<open>pipe_from_stream\<close> on a stream with the adaptor \<open>filter_map(f)\<close>: the messages
  handed to the sink, in order, and what became of the task. An item the adaptor drops
  leaves the loop waiting in the same turn; a panic of the adaptor ends the task.
\<close>

fun pipe_from_stream ::
  "('j \<Rightarrow> ('m, 'e) result) \<Rightarrow> ('i \<Rightarrow> 'j option run) \<Rightarrow> 'i pipe_event list \<Rightarrow> 'm list \<times> 'e pipe_status" where
  "pipe_from_stream message f [] = ([], Waiting)"
| "pipe_from_stream message f (SinkCloses # evs) = ([], Finished (Ok ()))"
| "pipe_from_stream message f (StreamEnds # evs) = ([], Finished (Ok ()))"
| "pipe_from_stream message f (Arrives x ok # evs) =
     (case f x of
        Returns None \<Rightarrow> pipe_from_stream message f evs
      | Returns (Some item) \<Rightarrow>
          (case message item of
             Err e \<Rightarrow> ([], Finished (Err e))
           | Ok msg \<Rightarrow> if \<not> ok then ([], Finished (Ok ()))
                       else let (msgs, st) = pipe_from_stream message f evs in (msg # msgs, st))
      | _ \<Rightarrow> ([], Panicked))"

datatype subscription_kind = NewHeads | Logs | NewPendingTransactions | Syncing

datatype 'f sub_params = NoParams | LogsParams 'f | BoolParams bool

text \<open>Reth's \<open>EthPubSub\<close>: the other kinds of subscription, and what the event of a filter's stream is.\<close>

record ('r, 'f, 'e, 'm, 'k) hl_node_filter_ws =
  ws_handle_accepted :: "subscription_kind \<Rightarrow> 'f sub_params option \<Rightarrow> 'k"
  ws_log_stream :: "'f \<Rightarrow> rpc_log pipe_event list"
  ws_provider :: "('r, 'f, 'e) eth_api"
  ws_default_filter :: 'f
  ws_message :: "rpc_log \<Rightarrow> ('m, 'e) result"

definition hl_node_filter_ws_new ::
  "(subscription_kind \<Rightarrow> 'f sub_params option \<Rightarrow> 'k) \<Rightarrow> ('f \<Rightarrow> rpc_log pipe_event list) \<Rightarrow> ('r, 'f, 'e) eth_api \<Rightarrow>
   'f \<Rightarrow> (rpc_log \<Rightarrow> ('m, 'e) result) \<Rightarrow> ('r, 'f, 'e, 'm, 'k) hl_node_filter_ws" where
  "hl_node_filter_ws_new handle_accepted log_stream provider default_filter message =
     \<lparr>ws_handle_accepted = handle_accepted, ws_log_stream = log_stream, ws_provider = provider,
      ws_default_filter = default_filter, ws_message = message\<rparr>"

text \<open>What the spawned task does: it stops at once, pipes a log stream, or is reth's own.\<close>

datatype ('m, 'e, 'k) sub_task = StopsAtOnce | Pipes "'m list \<times> 'e pipe_status" | Delegated 'k

definition subscription_task ::
  "('r, 'f, 'e, 'm, 'k) hl_node_filter_ws \<Rightarrow> subscription_kind \<Rightarrow> 'f sub_params option \<Rightarrow> ('m, 'e, 'k) sub_task" where
  "subscription_task ws kind params =
     (if kind = Logs
      then (case (case params of Some (LogsParams f) \<Rightarrow> Some f | Some (BoolParams _) \<Rightarrow> None
                  | _ \<Rightarrow> Some (ws_default_filter ws)) of
              None \<Rightarrow> StopsAtOnce
            | Some f \<Rightarrow> Pipes (pipe_from_stream (ws_message ws) (adjust_log (ws_provider ws)) (ws_log_stream ws f)))
      else Delegated (ws_handle_accepted ws kind params))"

text \<open>\<open>pending.accept()\<close> may fail; otherwise the call returns as soon as the task is spawned.\<close>

definition subscribe ::
  "('r, 'f, 'e, 'm, 'k) hl_node_filter_ws \<Rightarrow> (unit, 'e) result \<Rightarrow> subscription_kind \<Rightarrow> 'f sub_params option \<Rightarrow>
   (unit, 'e) result \<times> ('m, 'e, 'k) sub_task option" where
  "subscribe ws accepted kind params =
     (case accepted of Err e \<Rightarrow> (Err e, None) | Ok _ \<Rightarrow> (Ok (), Some (subscription_task ws kind params)))"

section \<open>Lemmas\<close>

text \<open>A log is adjusted or dropped, or the provider's error panics; there is no loop that does not end.\<close>

lemma adjust_log_not_Diverges: "adjust_log api lg \<noteq> Diverges"
proof (cases "rl_block_number lg")
  case (Some n)
  then show ?thesis
    by (cases "api_receipts_by_block api n")
      (auto simp: adjust_log_def Let_def split: option.split prod.split)
qed (auto simp: adjust_log_def split: option.split)

fun arrivals :: "'i pipe_event list \<Rightarrow> 'i list" where
  "arrivals [] = []"
| "arrivals (Arrives x ok # evs) = x # arrivals evs"
| "arrivals (_ # evs) = arrivals evs"

text \<open>
  The specification of a subscription. An event passes if the subscription goes on after it:
  an item arrives that is dropped, or one whose message is made and taken by the connection.
  \<open>ends\<close> is what becomes of the task at an event that does not pass.
\<close>

definition passes :: "('j \<Rightarrow> ('m, 'e) result) \<Rightarrow> ('i \<Rightarrow> 'j option run) \<Rightarrow> 'i pipe_event \<Rightarrow> bool" where
  "passes message f ev =
     (case ev of Arrives x ok \<Rightarrow>
        (case f x of
           Returns None \<Rightarrow> True
         | Returns (Some item) \<Rightarrow> (case message item of Ok _ \<Rightarrow> ok | Err _ \<Rightarrow> False)
         | _ \<Rightarrow> False)
      | _ \<Rightarrow> False)"

definition ends :: "('j \<Rightarrow> ('m, 'e) result) \<Rightarrow> ('i \<Rightarrow> 'j option run) \<Rightarrow> 'i pipe_event \<Rightarrow> 'e pipe_status" where
  "ends message f ev =
     (case ev of Arrives x ok \<Rightarrow>
        (case f x of
           Returns (Some item) \<Rightarrow> (case message item of Ok _ \<Rightarrow> Finished (Ok ()) | Err e \<Rightarrow> Finished (Err e))
         | _ \<Rightarrow> Panicked)
      | _ \<Rightarrow> Finished (Ok ()))"

lemma map_filter_id_Cons [simp]:
  "filter_map id (y # ys) = (case y of None \<Rightarrow> filter_map id ys | Some a \<Rightarrow> a # filter_map id ys)"
  by (simp add: map_filter_simps)

lemma pipe_spec:
  "\<exists>ys. run_list (map f (arrivals (takeWhile (passes message f) evs))) = Returns ys \<and>
     map Ok (fst (pipe_from_stream message f evs)) = map message (filter_map id ys) \<and>
     snd (pipe_from_stream message f evs) =
       (case dropWhile (passes message f) evs of [] \<Rightarrow> Waiting | ev # _ \<Rightarrow> ends message f ev)"
proof (induction message f evs rule: pipe_from_stream.induct)
  case (4 message f x ok evs)
  show ?case
  proof (cases "passes message f (Arrives x ok)")
    case False
    then show ?thesis
      by (cases "f x") (auto simp: passes_def ends_def split: option.splits sum.splits)
  next
    case True
    then consider (dropped) "f x = Returns None"
      | (sent) item msg where "f x = Returns (Some item)" "message item = Ok msg" ok
      by (auto simp: passes_def split: run.splits option.splits sum.splits)
    then show ?thesis
    proof cases
      case dropped
      with 4(1) True show ?thesis by (auto simp: run_bind_eq_Returns_iff)
    next
      case sent
      with 4(2) [OF sent(1) refl sent(2)] True show ?thesis
        by (auto simp: run_bind_eq_Returns_iff case_prod_beta)
    qed
  qed
qed (simp_all add: passes_def ends_def map_filter_simps)

text \<open>What a log is adjusted to does not depend on which logs the provider finds.\<close>

lemma adjust_log_api_logs [simp]: "adjust_log (api\<lparr>api_logs := g\<rparr>) = adjust_log api"
  by (rule ext) (simp add: adjust_log_def cong: option.case_cong)

section \<open>Properties\<close>

text \<open>
  C12. A log subscription shows what \<open>eth_getLogs\<close> shows. Whatever happens on the
  connection and on the stream of reth's logs for a filter, let \<open>live\<close> be the events up to
  the first at which the subscription ends: the client goes away, the stream ends, a
  message cannot be made or is not taken, or adjusting a log panics. Then the client gets
  exactly the messages of the logs that \<open>eth_getLogs\<close> returns when the logs of \<open>live\<close> are
  the ones reth finds, in that order and each once, nothing after the end, and the task
  ends as that first event says; it waits for more if there is none.
\<close>

theorem log_subscription_matches_logs:
  "let p = ws_provider ws; evs = ws_log_stream ws f;
       live = takeWhile (passes (ws_message ws) (adjust_log p)) evs
   in \<exists>msgs ls. eth_logs (p\<lparr>api_logs := (\<lambda>_. Ok (arrivals live))\<rparr>) f = Returns (Ok ls) \<and>
     map Ok msgs = map (ws_message ws) ls \<and>
     subscribe ws (Ok ()) Logs (Some (LogsParams f)) = (Ok (), Some (Pipes (msgs,
       case drop (length live) evs of [] \<Rightarrow> Waiting | ev # _ \<Rightarrow> ends (ws_message ws) (adjust_log p) ev)))"
proof -
  let ?p = "ws_provider ws" and ?evs = "ws_log_stream ws f" and ?m = "ws_message ws"
  obtain ys where ys: "run_list (map (adjust_log ?p) (arrivals (takeWhile (passes ?m (adjust_log ?p)) ?evs))) = Returns ys"
    "map Ok (fst (pipe_from_stream ?m (adjust_log ?p) ?evs)) = map ?m (filter_map id ys)"
    "snd (pipe_from_stream ?m (adjust_log ?p) ?evs) =
       (case dropWhile (passes ?m (adjust_log ?p)) ?evs of [] \<Rightarrow> Waiting | ev # _ \<Rightarrow> ends ?m (adjust_log ?p) ev)"
    using pipe_spec [of "adjust_log ?p" ?m ?evs] by blast
  have logs: "eth_logs (?p\<lparr>api_logs := (\<lambda>_. Ok (arrivals (takeWhile (passes ?m (adjust_log ?p)) ?evs)))\<rparr>) f =
      Returns (Ok (filter_map id ys))"
    using ys(1) by (simp add: eth_logs_def)
  have "subscribe ws (Ok ()) Logs (Some (LogsParams f)) =
      (Ok (), Some (Pipes (fst (pipe_from_stream ?m (adjust_log ?p) ?evs), snd (pipe_from_stream ?m (adjust_log ?p) ?evs))))"
    by (simp add: subscribe_def subscription_task_def)
  with logs ys(2) show ?thesis
    unfolding Let_def dropWhile_eq_drop [symmetric] ys(3) [symmetric] by blast
qed

text \<open>
  The filter methods do not hide system logs. For the log of a system transaction
  \<open>eth_getLogs\<close> with a filter answers nothing, and \<open>eth_getFilterLogs\<close> and
  \<open>eth_getFilterChanges\<close> for a filter that selects the same log hand the log out, with the
  transaction and log index that count the system transactions.
\<close>

theorem filter_logs_show_system_logs:
  assumes "well_ordered rb receipts" "api_receipts_by_block (fh_provider h) n = Ok (Some receipts)"
    and "rl_block_number lg = Some n" "i < length receipts"
    and "rl_transaction_index lg = Some (of_nat i)" "rl_log_index lg = Some li"
    and "is_system_transaction (rb_txs rb ! i)"
    and "api_logs (fh_provider h) f = Ok [lg]"
    and "ef_filter_logs (fh_filter h) fid s = (Ok [lg], s1)"
    and "ef_filter_changes (fh_filter h) fid s = (Ok (ChangedLogs [lg]), s2)"
  shows "filter_http_logs h f = Returns (Ok []) \<and> filter_logs h fid s = (Ok [lg], s1) \<and>
    filter_changes h fid s = (Ok (ChangedLogs [lg]), s2)"
proof -
  have len: "length (rb_txs rb) < 2 ^ 64" "length receipts = length (rb_txs rb)"
    using assms(1) by (auto simp: well_ordered_def)
  have "{j. j < length receipts \<and> used_no_gas (receipts ! j)} = {j. j < sys_count rb}"
    using well_ordered_used_no_gas [OF assms(1)] sys_count_le [of rb] len(2) by auto
  then have cnt: "length (filter used_no_gas receipts) = sys_count rb"
    by (simp add: length_filter_conv_card)
  have "i < sys_count rb"
    using assms(1,4,7) prefix_closed_nth by (fastforce simp: well_ordered_def sys_count_def)
  then have "(of_nat i :: u64) < of_nat (sys_count rb)"
    using len sys_count_le [of rb] by (simp add: word_less_nat_alt unat_of_nat_u64)
  then have "adjust_log (fh_provider h) lg = Returns None"
    using assms(2,3,5,6) cnt by (simp add: adjust_log_def sys_counts_eq)
  then show ?thesis
    using assms(8-10)
    by (simp add: filter_http_logs_def eth_logs_def filter_logs_def filter_changes_def map_filter_simps)
qed

section \<open>An example\<close>

text \<open>A log of the system transaction of the example block and one of its user transaction.\<close>

definition system_log :: rpc_log where
  "system_log = \<lparr>rl_inner = example_log, rl_block_number = Some 5, rl_transaction_index = Some 0, rl_log_index = Some 0\<rparr>"

definition user_log :: rpc_log where
  "user_log = \<lparr>rl_inner = example_log, rl_block_number = Some 5, rl_transaction_index = Some 1, rl_log_index = Some 2\<rparr>"

definition example_ws :: "(convert_receipt_input, unit, unit, rpc_log, unit) hl_node_filter_ws" where
  "example_ws = \<lparr>ws_handle_accepted = (\<lambda>_ _. ()), ws_log_stream = (\<lambda>_. [Arrives system_log True, Arrives user_log True]),
     ws_provider = example_api\<lparr>api_logs := (\<lambda>_. Ok [system_log, user_log])\<rparr>, ws_default_filter = (), ws_message = Ok\<rparr>"

text \<open>The log of the system transaction is dropped, and nothing is sent after the client has gone.\<close>

lemma example_subscription:
  "subscribe (example_ws\<lparr>ws_log_stream := (\<lambda>_. [Arrives system_log True, Arrives user_log True, SinkCloses, Arrives user_log True])\<rparr>)
     (Ok ()) Logs (Some (LogsParams ())) =
     (Ok (), Some (Pipes ([user_log\<lparr>rl_transaction_index := Some 0, rl_log_index := Some 1\<rparr>], Finished (Ok ()))))"
  by (simp add: subscribe_def subscription_task_def example_ws_def adjust_log_def system_log_def user_log_def example_api_def
      example_receipts_def)

definition example_filter_http :: "(unit, nat, convert_receipt_input, unit, unit, unit) hl_node_filter_http" where
  "example_filter_http = \<lparr>fh_filter = \<lparr>ef_new_filter = (\<lambda>_ _. (Ok 0, ())), ef_new_block_filter = (\<lambda>_. (Ok 1, ())),
       ef_new_pending_transaction_filter = (\<lambda>_ _. (Ok 2, ())),
       ef_filter_changes = (\<lambda>_ _. (Ok (ChangedLogs [system_log]), ())),
       ef_filter_logs = (\<lambda>_ _. (Ok [system_log], ())), ef_uninstall_filter = (\<lambda>_ _. (Ok True, ())), ef_error = id\<rparr>,
     fh_provider = example_api\<lparr>api_logs := (\<lambda>_. Ok [system_log])\<rparr>\<rparr>"

theorem filter_logs_show_system_logs_witness:
  "filter_http_logs example_filter_http () = Returns (Ok []) \<and>
   filter_logs example_filter_http 0 () = (Ok [system_log], ()) \<and>
   filter_changes example_filter_http 0 () = (Ok (ChangedLogs [system_log]), ())"
  by (rule filter_logs_show_system_logs [OF example_well_ordered, of _ 5 _ 0])
    (simp_all add: example_filter_http_def system_log_def example_api_def example_receipts_def)

end
