(* ===== verification/Block_Sources.thy ===== *)
theory Block_Sources
  imports Hl_Types Decimal
begin

text \<open>
  Block sources (\<open>src/src/pseudo_peer/sources\<close>: \<open>mod.rs\<close>, \<open>utils.rs\<close>, \<open>cached.rs\<close>,
  \<open>local.rs\<close>, \<open>s3.rs\<close>): where the node gets its blocks from. A source collects the block
  of a height and names the latest height it has; files are laid out in directories of a
  million and of a thousand blocks.

  A source may change with every call (a cache fills, files appear), so its state is
  passed through. The file system, the S3 service, the decoder of a stored file and the
  LRU map are not the program's own: they are arguments.
\<close>

section \<open>The interface\<close>

record ('s, 'e) block_source =
  src_collect :: "u64 \<Rightarrow> 's \<Rightarrow> ('s \<times> (block_and_receipts, 'e) result) run"
  src_latest :: "'s \<Rightarrow> ('s \<times> u64 option) run"
  src_chunk :: u64

text \<open>
  What the rest of the program relies on. A source is faithful to a chain if, in every
  state it can be in, it delivers no block but the chain's. It is complete up to a height
  if it delivers every block of the chain from 1 to that height and names the height as
  the latest.
\<close>

locale faithful_source =
  fixes src :: "('s, 'e) block_source"
    and good :: "'s \<Rightarrow> bool"
    and chain :: "u64 \<rightharpoonup> block_and_receipts"
  assumes collect_faithful:
    "good s \<Longrightarrow> src_collect src n s = Returns (s', r) \<Longrightarrow> good s' \<and> (\<forall>b. r = Ok b \<longrightarrow> chain n = Some b)"
    and latest_good: "good s \<Longrightarrow> src_latest src s = Returns (s', l) \<Longrightarrow> good s'"

locale complete_source = faithful_source +
  fixes latest :: u64
  assumes collect_complete:
    "good s \<Longrightarrow> 1 \<le> n \<Longrightarrow> n \<le> latest \<Longrightarrow> \<exists>s' b. src_collect src n s = Returns (s', Ok b)"
    and latest_known: "good s \<Longrightarrow> \<exists>s'. src_latest src s = Returns (s', Some latest)"
    and chunk_positive: "src_chunk src \<noteq> 0"

text \<open>
  Between two calls something may happen to a source: its files change, or a task of its own
  works on it. What happens (\<open>turn x\<close>) leaves the source good.
\<close>

definition keeps_good :: "('x \<Rightarrow> 's \<Rightarrow> 's run) \<Rightarrow> ('s \<Rightarrow> bool) \<Rightarrow> 'x \<Rightarrow> bool" where
  "keeps_good turn good x \<longleftrightarrow> (\<forall>s s'. good s \<longrightarrow> turn x s = Returns s' \<longrightarrow> good s')"

section \<open>File names\<close>

definition rmp_path :: "u64 \<Rightarrow> string" where
  "rmp_path height =
     (let f = ((height - 1) div 1000000) * 1000000;
          s = ((height - 1) div 1000) * 1000
      in show_u64 f @ ''/'' @ show_u64 s @ ''/'' @ show_u64 height @ ''.rmp.lz4'')"

definition numbered_name :: "bool \<Rightarrow> string \<Rightarrow> (u64 \<times> string) option" where
  "numbered_name is_dir file_raw =
     (let file = (case strip_suffix ''/'' file_raw of None \<Rightarrow> file_raw | Some f \<Rightarrow> f);
          file = last_segment file
      in case (if is_dir then Some file else strip_suffix ''.rmp.lz4'' file) of
           None \<Rightarrow> None
         | Some stem \<Rightarrow> map_option (\<lambda>number. (number, file_raw)) (parse_u64 stem))"

definition name_with_largest_number :: "string list \<Rightarrow> bool \<Rightarrow> (u64 \<times> string) option" where
  "name_with_largest_number files is_dir =
     (let files = List.map_filter (numbered_name is_dir) files
      in if files = [] then None else Some (last (sort_key fst files)))"

section \<open>The cache\<close>

text \<open>\<open>lm_get\<close> also marks an entry as used; \<open>lm_insert\<close> may evict entries.\<close>

record ('m, 'v) lru_map_ops =
  lm_get :: "u64 \<Rightarrow> 'm \<Rightarrow> 'm \<times> 'v option"
  lm_insert :: "u64 \<Rightarrow> 'v \<Rightarrow> 'm \<Rightarrow> 'm"

definition cached_source ::
  "('m, block_and_receipts) lru_map_ops \<Rightarrow> ('s, 'e) block_source \<Rightarrow> ('m \<times> 's, 'e) block_source" where
  "cached_source ops src =
     \<lparr>src_collect = (\<lambda>height (cache, s). case lm_get ops height cache of
          (cache, Some block) \<Rightarrow> Returns ((cache, s), Ok block)
        | (cache, None) \<Rightarrow> run_bind (src_collect src height s) (\<lambda>(s, r). case r of
              Err e \<Rightarrow> Returns ((cache, s), Err e)
            | Ok block \<Rightarrow> Returns ((lm_insert ops height block cache, s), Ok block))),
      src_latest = (\<lambda>(cache, s). run_bind (src_latest src s) (\<lambda>(s, l). Returns ((cache, s), l))),
      src_chunk = src_chunk src\<rparr>"

text \<open>An entry of the map was inserted, and reading changes no entry.\<close>

definition lru_map_laws :: "('m, 'v) lru_map_ops \<Rightarrow> ('m \<Rightarrow> u64 \<rightharpoonup> 'v) \<Rightarrow> bool" where
  "lru_map_laws ops view \<longleftrightarrow>
     (\<forall>k m. view (fst (lm_get ops k m)) = view m \<and> snd (lm_get ops k m) = view m k) \<and>
     (\<forall>k v m k' v'. view (lm_insert ops k v m) k' = Some v' \<longrightarrow>
        (k' = k \<and> v' = v) \<or> view m k' = Some v')"

section \<open>The local directory\<close>

text \<open>
  \<open>fs_read_dir\<close> lists the paths of a directory with whether they are directories, or fails;
  \<open>fs_read\<close> reads a file; \<open>decode\<close> decompresses and decodes its contents.
\<close>

record ('d, 'e) file_system =
  fs_read_dir :: "'d \<Rightarrow> string \<Rightarrow> (string \<times> bool) list option"
  fs_read :: "'d \<Rightarrow> string \<Rightarrow> (bytes, 'e) result"
  fs_decode :: "bytes \<Rightarrow> (block_and_receipts list, 'e) result"

text \<open>\<open>PathBuf::join\<close>: an absolute path replaces the directory.\<close>

definition is_absolute :: "string \<Rightarrow> bool" where
  "is_absolute p = (case p of [] \<Rightarrow> False | c # _ \<Rightarrow> c = CHR ''/'')"

definition path_join :: "string \<Rightarrow> string \<Rightarrow> string" where
  "path_join dir p =
     (if is_absolute p then p else if dir = [] \<or> last dir = CHR ''/'' then dir @ p else dir @ ''/'' @ p)"

definition pick_path_with_highest_number ::
  "('d, 'e) file_system \<Rightarrow> 'd \<Rightarrow> string \<Rightarrow> bool \<Rightarrow> (u64 \<times> string) option run" where
  "pick_path_with_highest_number fs d dir is_dir =
     run_bind (unwrap (fs_read_dir fs d dir)) (\<lambda>files.
       Returns (name_with_largest_number (map fst (filter (\<lambda>(_, b). b = is_dir) files)) is_dir))"

definition local_collect_block ::
  "('d, 'e) file_system \<Rightarrow> string \<Rightarrow> u64 \<Rightarrow> 'd \<Rightarrow> ('d \<times> (block_and_receipts, 'e) result) run" where
  "local_collect_block fs dir height d =
     (case res_bind (fs_read fs d (path_join dir (rmp_path height))) (fs_decode fs) of
        Err e \<Rightarrow> Returns (d, Err e)
      | Ok [] \<Rightarrow> Panics
      | Ok (b # _) \<Rightarrow> Returns (d, Ok b))"

definition local_find_latest_block_number ::
  "('d, 'e) file_system \<Rightarrow> string \<Rightarrow> 'd \<Rightarrow> ('d \<times> u64 option) run" where
  "local_find_latest_block_number fs dir d =
     run_bind (pick_path_with_highest_number fs d dir True) (\<lambda>r1. case r1 of None \<Rightarrow> Returns (d, None)
     | Some (_, first_level) \<Rightarrow>
         run_bind (pick_path_with_highest_number fs d (path_join dir first_level) True) (\<lambda>r2.
           case r2 of None \<Rightarrow> Returns (d, None)
         | Some (_, second_level) \<Rightarrow>
             run_bind (pick_path_with_highest_number fs d (path_join dir second_level) False) (\<lambda>r3.
               case r3 of None \<Rightarrow> Returns (d, None)
             | Some (number, _) \<Rightarrow> Returns (d, Some number))))"

definition local_source :: "('d, 'e) file_system \<Rightarrow> string \<Rightarrow> ('d, 'e) block_source" where
  "local_source fs dir =
     \<lparr>src_collect = local_collect_block fs dir, src_latest = local_find_latest_block_number fs dir,
      src_chunk = 1000\<rparr>"

section \<open>The S3 bucket\<close>

text \<open>A listing gives common prefixes and contents; either may be absent, and so may a name.\<close>

record 'e s3_client =
  s3_list :: "string \<Rightarrow> (string option list option \<times> string option list option, 'e) result"
  s3_get :: "string \<Rightarrow> (bytes, 'e) result"
  s3_decode :: "bytes \<Rightarrow> (block_and_receipts list, 'e) result"

definition s3_pick_path ::
  "'e s3_client \<Rightarrow> string \<Rightarrow> bool \<Rightarrow> (u64 \<times> string) option run" where
  "s3_pick_path client dir is_dir =
     (case s3_list client dir of
        Err _ \<Rightarrow> Returns None
      | Ok (prefixes, contents) \<Rightarrow>
          (case (if is_dir then prefixes else contents) of None \<Rightarrow> Returns None
           | Some names \<Rightarrow> run_bind (run_list (map unwrap names)) (\<lambda>files.
               Returns (name_with_largest_number files is_dir))))"

definition s3_collect_block ::
  "'e s3_client \<Rightarrow> u64 \<Rightarrow> unit \<Rightarrow> (unit \<times> (block_and_receipts, 'e) result) run" where
  "s3_collect_block client height u =
     (case res_bind (s3_get client (rmp_path height)) (s3_decode client) of
        Err e \<Rightarrow> Returns ((), Err e)
      | Ok [] \<Rightarrow> Panics
      | Ok (b # _) \<Rightarrow> Returns ((), Ok b))"

definition s3_find_latest_block_number :: "'e s3_client \<Rightarrow> unit \<Rightarrow> (unit \<times> u64 option) run" where
  "s3_find_latest_block_number client u =
     run_bind (s3_pick_path client '''' True) (\<lambda>r1. case r1 of None \<Rightarrow> Returns ((), None)
     | Some (_, first_level) \<Rightarrow>
         run_bind (s3_pick_path client first_level True) (\<lambda>r2. case r2 of None \<Rightarrow> Returns ((), None)
         | Some (_, second_level) \<Rightarrow>
             run_bind (s3_pick_path client second_level False) (\<lambda>r3. case r3 of None \<Rightarrow> Returns ((), None)
             | Some (number, _) \<Rightarrow> Returns ((), Some number))))"

definition s3_source :: "'e s3_client \<Rightarrow> (unit, 'e) block_source" where
  "s3_source client =
     \<lparr>src_collect = s3_collect_block client, src_latest = s3_find_latest_block_number client, src_chunk = 1000\<rparr>"

section \<open>Lemmas\<close>

lemma strip_slash_None:
  assumes "s \<noteq> []" "last s \<noteq> CHR ''/''"
  shows "strip_suffix ''/'' s = None"
proof (rule ccontr)
  assume "strip_suffix ''/'' s \<noteq> None"
  then obtain q where "s = q @ ''/''" using strip_suffix_SomeD by blast
  with assms show False by simp
qed

lemma numbered_name_dir: "numbered_name True (p @ ''/'' @ show_u64 n) = Some (n, p @ ''/'' @ show_u64 n)"
proof -
  have no: "CHR ''/'' \<notin> set (show_u64 n)" by (rule show_nat_no_slash)
  then have "last (show_u64 n) \<noteq> CHR ''/''" by (metis last_in_set show_nat_neq_Nil)
  then have "strip_suffix ''/'' (p @ ''/'' @ show_u64 n) = None"
    by (intro strip_slash_None) simp_all
  with last_segment_slash [OF no, of p] show ?thesis by (simp add: numbered_name_def Let_def)
qed

lemma numbered_name_file:
  "numbered_name False (p @ ''/'' @ show_u64 n @ ''.rmp.lz4'') = Some (n, p @ ''/'' @ show_u64 n @ ''.rmp.lz4'')"
proof -
  have "CHR ''/'' \<notin> set (show_u64 n @ ''.rmp.lz4'')" using show_nat_no_slash [of "unat n"] by simp
  from last_segment_slash [OF this, of p]
  have "last_segment (p @ ''/'' @ show_u64 n @ ''.rmp.lz4'') = show_u64 n @ ''.rmp.lz4''" by simp
  moreover have "strip_suffix ''/'' (p @ ''/'' @ show_u64 n @ ''.rmp.lz4'') = None"
    by (intro strip_slash_None) simp_all
  ultimately show ?thesis
    using strip_suffix_append [of "''.rmp.lz4''" "show_u64 n"]
    by (simp add: numbered_name_def Let_def)
qed

lemma last_sort_key_max:
  assumes "xs \<noteq> []"
  shows "last (sort_key f xs) \<in> set xs" "\<forall>x \<in> set xs. f x \<le> f (last (sort_key f xs))"
proof -
  let ?ys = "sort_key f xs"
  have ne: "?ys \<noteq> []" using assms by (metis length_0_conv length_sort)
  show "last ?ys \<in> set xs" using ne by (metis last_in_set set_sort)
  show "\<forall>x \<in> set xs. f x \<le> f (last ?ys)"
  proof
    fix x assume "x \<in> set xs"
    then obtain i where i: "i < length ?ys" "x = ?ys ! i" by (metis in_set_conv_nth set_sort)
    have "map f ?ys ! i \<le> map f ?ys ! (length ?ys - 1)"
      using i by (intro sorted_nth_mono) auto
    with i ne show "f x \<le> f (last ?ys)" by (simp add: last_conv_nth)
  qed
qed

text \<open>When the files are those of a set of numbers, the largest number is found.\<close>

lemma name_with_largest_number_eq:
  assumes "set files = path ` N" "N \<noteq> {}" "finite N"
    and "\<And>n. n \<in> N \<Longrightarrow> numbered_name is_dir (path n) = Some (n, path n)"
  shows "name_with_largest_number files is_dir = Some (Max N, path (Max N))"
proof -
  let ?fs = "List.map_filter (numbered_name is_dir) files"
  have set: "set ?fs = (\<lambda>n. (n, path n)) ` N"
    using assms(1,4) by (force simp: List.map_filter_def)
  then have ne: "?fs \<noteq> []" using assms(2) by auto
  obtain m where m: "m \<in> N" "last (sort_key fst ?fs) = (m, path m)"
    using last_sort_key_max(1) [OF ne] set by auto
  have "\<forall>n \<in> N. n \<le> m" using last_sort_key_max(2) [OF ne, of fst] unfolding set m(2) by simp
  then have "Max N = m" using m(1) assms(3) by (simp add: Max_eqI)
  with m ne show ?thesis by (simp add: name_with_largest_number_def Let_def)
qed

section \<open>A directory of blocks\<close>

definition million :: "u64 \<Rightarrow> u64" where
  "million height = ((height - 1) div 1000000) * 1000000"

definition thousand :: "u64 \<Rightarrow> u64" where
  "thousand height = ((height - 1) div 1000) * 1000"

definition level1 :: "string \<Rightarrow> u64 \<Rightarrow> string" where
  "level1 dir h = dir @ ''/'' @ show_u64 (million h)"

definition level2 :: "string \<Rightarrow> u64 \<Rightarrow> string" where
  "level2 dir h = level1 dir h @ ''/'' @ show_u64 (thousand h)"

definition level3 :: "string \<Rightarrow> u64 \<Rightarrow> string" where
  "level3 dir h = level2 dir h @ ''/'' @ show_u64 h @ ''.rmp.lz4''"

text \<open>The directory holds the files of the heights \<open>H\<close>, laid out by \<open>rmp_path\<close>, and nothing else.\<close>

definition fs_stores :: "('d, 'e) file_system \<Rightarrow> 'd \<Rightarrow> string \<Rightarrow> u64 set \<Rightarrow> bool" where
  "fs_stores fs d dir H \<longleftrightarrow>
     (\<exists>es. fs_read_dir fs d dir = Some es \<and> set es = (\<lambda>h. (level1 dir h, True)) ` H) \<and>
     (\<forall>h \<in> H. \<exists>es. fs_read_dir fs d (level1 dir h) = Some es \<and>
        set es = (\<lambda>h'. (level2 dir h', True)) ` {h' \<in> H. million h' = million h}) \<and>
     (\<forall>h \<in> H. \<exists>es. fs_read_dir fs d (level2 dir h) = Some es \<and>
        set es = (\<lambda>h'. (level3 dir h', False)) ` {h' \<in> H. thousand h' = thousand h})"

lemma level3_eq: "level3 dir h = dir @ ''/'' @ rmp_path h"
  by (simp add: level3_def level2_def level1_def rmp_path_def million_def thousand_def Let_def)

lemma unat_step:
  fixes h c :: u64
  assumes "1 \<le> h" "0 < c"
  shows "unat (((h - 1) div c) * c) = (unat h - 1) div unat c * unat c"
proof -
  have h1: "unat (h - 1) = unat h - 1" using assms by (simp add: unat_sub word_le_nat_alt)
  have "(unat h - 1) div unat c * unat c \<le> unat h - 1" by simp
  also have "\<dots> < 2 ^ 64" using unat_u64_less [of h] by simp
  finally have p: "(unat h - 1) div unat c * unat c < 2 ^ 64" .
  have "(unat h - 1) div unat c \<le> unat h - 1" by (rule div_le_dividend)
  also have "unat h - 1 < 2 ^ 64" using unat_u64_less [of h] by simp
  finally have q: "(unat h - 1) div unat c < 2 ^ 64" .
  show ?thesis using p q by (simp add: unat_word_ariths unat_div h1)
qed

lemma step_mono:
  fixes h h' c :: u64
  assumes "1 \<le> h" "h \<le> h'" "0 < c"
  shows "((h - 1) div c) * c \<le> ((h' - 1) div c) * c"
proof -
  have "1 \<le> h'" using assms by simp
  moreover have "(unat h - 1) div unat c * unat c \<le> (unat h' - 1) div unat c * unat c"
    using assms by (intro mult_right_mono div_le_mono) (auto simp: word_le_nat_alt)
  ultimately show ?thesis using assms by (simp add: word_le_nat_alt unat_step)
qed

lemma thousand_million:
  assumes "1 \<le> h" "1 \<le> h'" "thousand h = thousand h'"
  shows "million h = million h'"
proof -
  have "(unat h - 1) div 1000 = (unat h' - 1) div 1000"
    using arg_cong [OF assms(3), of unat] assms(1,2) by (simp add: thousand_def unat_step)
  then have "(unat h - 1) div 1000 div 1000 = (unat h' - 1) div 1000 div 1000" by simp
  then have "(unat h - 1) div 1000000 = (unat h' - 1) div 1000000"
    by (simp add: div_mult2_eq [symmetric])
  then show ?thesis using assms(1,2) by (simp add: u64_eq_iff million_def unat_step)
qed

lemma Max_step:
  fixes f :: "'a \<Rightarrow> u64"
  assumes "finite H" "m \<in> H" "\<And>h. h \<in> H \<Longrightarrow> f h \<le> f m"
  shows "Max (f ` H) = f m"
  using assms by (intro Max_eqI) auto

lemma pick_path_eq:
  assumes "fs_read_dir fs d p = Some es" "set es = (\<lambda>h. (path (f h), is_dir)) ` H"
    and "H \<noteq> {}" "finite H" "m \<in> H" "\<And>h. h \<in> H \<Longrightarrow> f h \<le> f m"
    and "\<And>n. numbered_name is_dir (path n) = Some (n, path n)"
  shows "pick_path_with_highest_number fs d p is_dir = Returns (Some (f m, path (f m)))"
proof -
  have "filter (\<lambda>(_, b). b = is_dir) es = es" using assms(2) by (auto intro: filter_True)
  then have "set (map fst (filter (\<lambda>(_, b). b = is_dir) es)) = path ` f ` H"
    by (simp add: assms(2) image_image)
  then have "name_with_largest_number (map fst (filter (\<lambda>(_, b). b = is_dir) es)) is_dir =
      Some (Max (f ` H), path (Max (f ` H)))"
    using assms(3,4,7) by (intro name_with_largest_number_eq) simp_all
  moreover have "Max (f ` H) = f m" by (rule Max_step) (use assms(4-6) in simp_all)
  ultimately show ?thesis using assms(1) by (simp add: pick_path_with_highest_number_def)
qed

text \<open>Each of the three levels leads to the greatest stored height \<open>m\<close>.\<close>

lemma pick_level1:
  assumes "fs_stores fs d dir H" "finite H" "m \<in> H" "\<And>h. h \<in> H \<Longrightarrow> 1 \<le> h" "\<And>h. h \<in> H \<Longrightarrow> h \<le> m"
  shows "pick_path_with_highest_number fs d dir True = Returns (Some (million m, level1 dir m))"
proof -
  obtain es where es: "fs_read_dir fs d dir = Some es" "set es = (\<lambda>h. (level1 dir h, True)) ` H"
    using assms(1) by (auto simp: fs_stores_def)
  have "million h \<le> million m" if "h \<in> H" for h
    using step_mono [OF assms(4) [OF that] assms(5) [OF that]] by (simp add: million_def)
  moreover have "H \<noteq> {}" using assms(3) by blast
  ultimately have "pick_path_with_highest_number fs d dir True =
      Returns (Some (million m, dir @ ''/'' @ show_u64 (million m)))"
    by (intro pick_path_eq [where path = "\<lambda>n. dir @ ''/'' @ show_u64 n" and f = million, OF es(1) _ _ assms(2,3)])
      (use es(2) numbered_name_dir in \<open>simp_all add: level1_def\<close>)
  then show ?thesis by (simp add: level1_def)
qed

lemma pick_level2:
  assumes "fs_stores fs d dir H" "finite H" "m \<in> H" "\<And>h. h \<in> H \<Longrightarrow> 1 \<le> h" "\<And>h. h \<in> H \<Longrightarrow> h \<le> m"
  shows "pick_path_with_highest_number fs d (level1 dir m) True = Returns (Some (thousand m, level2 dir m))"
proof -
  let ?H = "{h \<in> H. million h = million m}"
  obtain es where es: "fs_read_dir fs d (level1 dir m) = Some es" "set es = (\<lambda>h. (level2 dir h, True)) ` ?H"
    using assms(1,3) by (force simp: fs_stores_def)
  moreover have "(\<lambda>h. (level2 dir h, True)) ` ?H = (\<lambda>h. (level1 dir m @ ''/'' @ show_u64 (thousand h), True)) ` ?H"
    by (intro image_cong) (auto simp: level2_def level1_def)
  ultimately have es': "set es = (\<lambda>h. (level1 dir m @ ''/'' @ show_u64 (thousand h), True)) ` ?H" by simp
  have H: "?H \<noteq> {}" "finite ?H" "m \<in> ?H" using assms(2,3) by auto
  have "thousand h \<le> thousand m" if "h \<in> H" for h
    using step_mono [OF assms(4) [OF that] assms(5) [OF that]] by (simp add: thousand_def)
  then have "pick_path_with_highest_number fs d (level1 dir m) True =
      Returns (Some (thousand m, level1 dir m @ ''/'' @ show_u64 (thousand m)))"
    by (intro pick_path_eq [where path = "\<lambda>n. level1 dir m @ ''/'' @ show_u64 n" and f = thousand, OF es(1) es' H])
      (use numbered_name_dir in simp_all)
  then show ?thesis by (simp add: level2_def)
qed

lemma pick_level3:
  assumes "fs_stores fs d dir H" "finite H" "m \<in> H" "\<And>h. h \<in> H \<Longrightarrow> 1 \<le> h" "\<And>h. h \<in> H \<Longrightarrow> h \<le> m"
  shows "pick_path_with_highest_number fs d (level2 dir m) False = Returns (Some (m, level3 dir m))"
proof -
  let ?H = "{h \<in> H. thousand h = thousand m}"
  let ?path = "\<lambda>n. level2 dir m @ ''/'' @ show_u64 n @ ''.rmp.lz4''"
  obtain es where es: "fs_read_dir fs d (level2 dir m) = Some es" "set es = (\<lambda>h. (level3 dir h, False)) ` ?H"
    using assms(1,3) by (force simp: fs_stores_def)
  moreover have "million h = million m" if "h \<in> ?H" for h
    using that thousand_million [of h m] assms(3,4) by auto
  then have "(\<lambda>h. (level3 dir h, False)) ` ?H = (\<lambda>h. (?path (id h), False)) ` ?H"
    by (intro image_cong) (auto simp: level3_def level2_def level1_def)
  ultimately have es': "set es = (\<lambda>h. (?path (id h), False)) ` ?H" by simp
  have H: "?H \<noteq> {}" "finite ?H" "m \<in> ?H" using assms(2,3) by auto
  have "pick_path_with_highest_number fs d (level2 dir m) False = Returns (Some (id m, ?path (id m)))"
    by (rule pick_path_eq [where path = ?path and f = id, OF es(1) es' H]) (use assms(5) numbered_name_file in simp_all)
  then show ?thesis by (simp add: level3_def)
qed

lemma path_join_absolute [simp]: "is_absolute dir \<Longrightarrow> path_join dir' (dir @ p) = dir @ p"
  by (cases dir) (auto simp: path_join_def is_absolute_def)

lemma largest_rmp_path: "name_with_largest_number [rmp_path k] False = Some (k, rmp_path k)"
  using numbered_name_file [of "show_u64 (million k) @ ''/'' @ show_u64 (thousand k)" k]
  by (simp add: name_with_largest_number_def rmp_path_def million_def thousand_def Let_def
      List.map_filter_def)

lemma rmp_path_inject: "rmp_path h = rmp_path h' \<longleftrightarrow> h = h'"
  by (metis largest_rmp_path option.inject prod.inject)

lemma rmp_path_relative: "\<not> is_absolute (rmp_path h)"
proof -
  obtain c cs where s: "show_u64 (million h) = c # cs" by (cases "show_u64 (million h)") auto
  with show_nat_no_slash [of "unat (million h)"] have "c \<noteq> CHR ''/''" by auto
  with s show ?thesis by (simp add: is_absolute_def rmp_path_def million_def Let_def)
qed

text \<open>A local source is faithful when the file of a height holds the chain's block of that height.\<close>

lemma local_source_faithful:
  assumes "\<And>d h b bs. res_bind (fs_read fs d (path_join dir (rmp_path h))) (fs_decode fs) = Ok (b # bs) \<Longrightarrow>
    chain h = Some b"
  shows "faithful_source (local_source fs dir) (\<lambda>_. True) chain"
proof
  fix s n s' r
  assume "src_collect (local_source fs dir) n s = Returns (s', r)"
  with assms [of s n] show "True \<and> (\<forall>b. r = Ok b \<longrightarrow> chain n = Some b)"
    by (auto simp: local_source_def local_collect_block_def split: sum.splits list.splits)
qed simp

section \<open>Properties\<close>

text \<open>
  A block's file name determines its height and the other way round: reading the number
  out of the path of a height gives that height back, and no two heights share a path.
\<close>

theorem rmp_path_roundtrip:
  "name_with_largest_number [rmp_path h] False = Some (h, rmp_path h) \<and>
   (rmp_path h = rmp_path h' \<longleftrightarrow> h = h')"
  by (simp add: largest_rmp_path rmp_path_inject)

text \<open>
  C21. The latest height of a local directory. If an absolute directory holds the files of a
  non-empty set of heights, laid out by \<open>rmp_path\<close>, the source descends through the two
  levels of directories to the largest height of the set.
\<close>

theorem local_latest_correct:
  assumes "fs_stores fs d dir H" "is_absolute dir" "finite H" "H \<noteq> {}" "0 \<notin> H"
  shows "local_find_latest_block_number fs dir d = Returns (d, Some (Max H))"
proof -
  let ?m = "Max H"
  have m: "?m \<in> H" and max: "\<And>h. h \<in> H \<Longrightarrow> h \<le> ?m" using assms(3,4) by auto
  have pos: "1 \<le> h" if "h \<in> H" for h :: u64
  proof -
    have "unat h \<noteq> 0" using that assms(5) by (auto simp: unat_eq_zero)
    then show ?thesis by (simp add: word_le_nat_alt)
  qed
  have join: "path_join dir (level1 dir ?m) = level1 dir ?m" "path_join dir (level2 dir ?m) = level2 dir ?m"
    using assms(2) by (simp_all add: level1_def level2_def)
  note levels = pick_level1 [OF assms(1,3) m pos max] pick_level2 [OF assms(1,3) m pos max]
    pick_level3 [OF assms(1,3) m pos max]
  show ?thesis by (simp add: local_find_latest_block_number_def levels join)
qed

text \<open>
  The cache is transparent. If a source is faithful to a chain then so is the cached
  source over it: whatever the LRU map keeps or evicts, a block that comes out of the
  cache is the chain's block of that height.
\<close>

theorem cached_source_faithful:
  assumes "faithful_source src good chain" "lru_map_laws ops view"
  shows "faithful_source (cached_source ops src)
    (\<lambda>(m, s). good s \<and> (\<forall>h b. view m h = Some b \<longrightarrow> chain h = Some b)) chain"
proof
  let ?good = "\<lambda>(m, s). good s \<and> (\<forall>h b. view m h = Some b \<longrightarrow> chain h = Some b)"
  note collect = faithful_source.collect_faithful [OF assms(1)]
  note laws = assms(2) [unfolded lru_map_laws_def]
  fix ms n ms' r
  assume good: "?good ms" and run: "src_collect (cached_source ops src) n ms = Returns (ms', r)"
  obtain m s where ms: "ms = (m, s)" by (cases ms)
  obtain m1 got where get: "lm_get ops n m = (m1, got)" by (cases "lm_get ops n m")
  then have m1: "view m1 = view m" "got = view m n" using laws by (metis fst_conv, metis snd_conv)
  show "?good ms' \<and> (\<forall>b. r = Ok b \<longrightarrow> chain n = Some b)"
  proof (cases got)
    case (Some b)
    note get' = get [unfolded Some]
    have "view m n = Some b" using Some m1 by simp
    with run good m1(1) show ?thesis by (auto simp: cached_source_def ms get')
  next
    case None
    with run get obtain s' r' where inner: "src_collect src n s = Returns (s', r')"
      by (auto simp: cached_source_def ms run_bind_eq_Returns_iff)
    have "good s' \<and> (\<forall>b. r' = Ok b \<longrightarrow> chain n = Some b)" using good by (intro collect [OF _ inner]) (simp add: ms)
    with run get None inner good m1 laws show ?thesis
      by (cases r') (fastforce simp: cached_source_def ms)+
  qed
next
  fix ms ms' l
  assume "case ms of (m, s) \<Rightarrow> good s \<and> (\<forall>h b. view m h = Some b \<longrightarrow> chain h = Some b)"
    and "src_latest (cached_source ops src) ms = Returns (ms', l)"
  then show "case ms' of (m, s) \<Rightarrow> good s \<and> (\<forall>h b. view m h = Some b \<longrightarrow> chain h = Some b)"
    using faithful_source.latest_good [OF assms(1)]
    by (cases ms) (auto simp: cached_source_def run_bind_eq_Returns_iff)
qed

section \<open>An example\<close>

definition example_height_one :: block_and_receipts where
  "example_height_one = \<lparr>bar_block = Reth115 \<lparr>sb_header = \<lparr>sh_hash = 101, sh_header =
      \<lparr>parent_hash = 0, ommers_hash = 0, beneficiary = 0, state_root = 0, transactions_root = 0,
       receipts_root = 0, logs_bloom = 0, difficulty = 0, hdr_number = 1, hdr_gas_limit = 30000000,
       hdr_gas_used = 0, timestamp = 1, extra_data = [], mix_hash = 0, hdr_nonce = 0,
       base_fee_per_gas = Some 0, withdrawals_root = None, blob_gas_used = None, excess_blob_gas = None,
       parent_beacon_block_root = None, requests_hash = None\<rparr>\<rparr>,
      sb_body = \<lparr>transactions = [], ommers = [], withdrawals = None\<rparr>\<rparr>,
     bar_receipts = [], bar_system_txs = [], bar_read_precompile_calls = ReadPrecompileCalls [],
     bar_highest_precompile_address = None\<rparr>"

text \<open>The directory \<open>/blocks\<close> with the file of height 1.\<close>

definition example_fs :: "(unit, unit) file_system" where
  "example_fs = \<lparr>
     fs_read_dir = (\<lambda>_ p. if p = ''/blocks'' then Some [(level1 ''/blocks'' 1, True)]
       else if p = level1 ''/blocks'' 1 then Some [(level2 ''/blocks'' 1, True)]
       else if p = level2 ''/blocks'' 1 then Some [(level3 ''/blocks'' 1, False)] else None),
     fs_read = (\<lambda>_ p. if p = level3 ''/blocks'' 1 then Ok [1] else Err ()),
     fs_decode = (\<lambda>_. Ok [example_height_one])\<rparr>"

definition example_chain :: "u64 \<rightharpoonup> block_and_receipts" where
  "example_chain = [1 \<mapsto> example_height_one]"

lemma example_fs_stores: "fs_stores example_fs () ''/blocks'' {1}"
  by (auto simp: fs_stores_def example_fs_def level1_def level2_def)

theorem local_latest_correct_witness:
  "local_find_latest_block_number example_fs ''/blocks'' () = Returns ((), Some 1)"
  using local_latest_correct [OF example_fs_stores] by (simp add: is_absolute_def)

lemma example_path: "path_join ''/blocks'' (rmp_path h) = level3 ''/blocks'' h"
  using rmp_path_relative [of h] by (simp add: path_join_def level3_eq)

lemma example_read:
  "res_bind (fs_read example_fs d (path_join ''/blocks'' (rmp_path h))) (fs_decode example_fs) =
     (if h = 1 then Ok [example_height_one] else Err ())"
  by (simp add: example_path example_fs_def level3_eq rmp_path_inject)

interpretation blocks_dir: faithful_source "local_source example_fs ''/blocks''" "\<lambda>_. True" example_chain
  by (rule local_source_faithful) (auto simp: example_read example_chain_def split: if_splits)

lemma example_latest: "local_find_latest_block_number example_fs ''/blocks'' () = Returns ((), Some 1)"
proof -
  have "pick_path_with_highest_number example_fs () ''/blocks'' True =
      Returns (Some (million 1, level1 ''/blocks'' 1))"
    using numbered_name_dir [of "''/blocks''" "million 1"]
    by (simp add: pick_path_with_highest_number_def example_fs_def name_with_largest_number_def
        List.map_filter_def level1_def)
  moreover have "pick_path_with_highest_number example_fs () (level1 ''/blocks'' 1) True =
      Returns (Some (thousand 1, level2 ''/blocks'' 1))"
    using numbered_name_dir [of "level1 ''/blocks'' 1" "thousand 1"]
    by (simp add: pick_path_with_highest_number_def example_fs_def name_with_largest_number_def
        List.map_filter_def level2_def) (simp add: level1_def)
  moreover have "pick_path_with_highest_number example_fs () (level2 ''/blocks'' 1) False =
      Returns (Some (1, level3 ''/blocks'' 1))"
    using numbered_name_file [of "level2 ''/blocks'' 1" 1]
    by (simp add: pick_path_with_highest_number_def example_fs_def name_with_largest_number_def
        List.map_filter_def level3_def) (simp add: level2_def level1_def)
  moreover have "path_join ''/blocks'' (level1 ''/blocks'' 1) = level1 ''/blocks'' 1"
    "path_join ''/blocks'' (level2 ''/blocks'' 1) = level2 ''/blocks'' 1"
    by (simp_all add: path_join_def is_absolute_def level1_def level2_def)
  ultimately show ?thesis by (simp add: local_find_latest_block_number_def)
qed

interpretation blocks_dir_complete: complete_source "local_source example_fs ''/blocks''" "\<lambda>_. True" example_chain 1
proof
  fix s n assume "1 \<le> n" "n \<le> (1 :: u64)"
  then have "n = 1" by (rule antisym [rotated])
  then show "\<exists>s' b. src_collect (local_source example_fs ''/blocks'') n s = Returns (s', Ok b)"
    by (simp add: local_source_def local_collect_block_def example_read)
next
  fix s :: unit
  show "\<exists>s'. src_latest (local_source example_fs ''/blocks'') s = Returns (s', Some 1)"
    using example_latest by (simp add: local_source_def)
qed (simp add: local_source_def)

text \<open>An LRU map of capacity one.\<close>

definition example_lru_map :: "((u64 \<times> 'v) option, 'v) lru_map_ops" where
  "example_lru_map = \<lparr>lm_get = (\<lambda>k m. (m, case m of Some (k', v) \<Rightarrow> if k' = k then Some v else None | None \<Rightarrow> None)),
     lm_insert = (\<lambda>k v m. Some (k, v))\<rparr>"

theorem cached_source_faithful_witness:
  "faithful_source (cached_source example_lru_map (local_source example_fs ''/blocks''))
     (\<lambda>(m, s). True \<and> (\<forall>h b. (case m of Some (k, v) \<Rightarrow> [k \<mapsto> v] | None \<Rightarrow> Map.empty) h = Some b \<longrightarrow>
        example_chain h = Some b)) example_chain"
proof (rule cached_source_faithful [OF blocks_dir.faithful_source_axioms])
  show "lru_map_laws example_lru_map (\<lambda>m. case m of Some (k, v) \<Rightarrow> [k \<mapsto> v] | None \<Rightarrow> Map.empty)"
    by (auto simp: lru_map_laws_def example_lru_map_def split: option.splits if_splits)
qed

end
