(* ===== verification/Lru_BiMap.thy ===== *)
theory Lru_BiMap
  imports Prelude
begin

text \<open>
  The bidirectional LRU cache (\<open>src/src/pseudo_peer/utils.rs\<close>). It remembers pairs in both
  directions and bounds their number with an LRU cache of the left sides. The LRU cache is
  reth's; \<open>insert_and_get_evicted\<close> tells whether the key is new and which key it displaced.
\<close>

record ('l, 'k) lru_ops =
  lru_new :: "nat \<Rightarrow> 'l"
  insert_and_get_evicted :: "'k \<Rightarrow> 'l \<Rightarrow> 'l \<times> bool \<times> 'k option"

record ('k, 'v, 'l) lru_bimap =
  left_to_right :: "'k \<rightharpoonup> 'v"
  right_to_left :: "'v \<rightharpoonup> 'k"
  lru_keys :: 'l

definition bimap_new :: "('l, 'k) lru_ops \<Rightarrow> nat \<Rightarrow> ('k, 'v, 'l) lru_bimap" where
  "bimap_new ops limit =
     \<lparr>left_to_right = Map.empty, right_to_left = Map.empty, lru_keys = lru_new ops limit\<rparr>"

definition bimap_evict :: "'k \<Rightarrow> ('k, 'v, 'l) lru_bimap \<Rightarrow> ('k, 'v, 'l) lru_bimap" where
  "bimap_evict key self =
     (case left_to_right self key of None \<Rightarrow> self
      | Some value \<Rightarrow> self\<lparr>left_to_right := (left_to_right self)(key := None),
                          right_to_left := (right_to_left self)(value := None)\<rparr>)"

definition bimap_insert ::
  "('l, 'k) lru_ops \<Rightarrow> 'k \<Rightarrow> 'v \<Rightarrow> ('k, 'v, 'l) lru_bimap \<Rightarrow> ('k, 'v, 'l) lru_bimap" where
  "bimap_insert ops key value self =
     (let (lru, is_new, evicted) = insert_and_get_evicted ops key (lru_keys self);
          self = self\<lparr>lru_keys := lru\<rparr>;
          self = (case (is_new, evicted) of (True, Some e) \<Rightarrow> bimap_evict e self | _ \<Rightarrow> self)
      in self\<lparr>left_to_right := (left_to_right self)(key \<mapsto> value),
              right_to_left := (right_to_left self)(value \<mapsto> key)\<rparr>)"

definition get_by_left :: "('k, 'v, 'l) lru_bimap \<Rightarrow> 'k \<Rightarrow> 'v option" where
  "get_by_left self key = left_to_right self key"

definition get_by_right :: "('k, 'v, 'l) lru_bimap \<Rightarrow> 'v \<Rightarrow> 'k option" where
  "get_by_right self value = right_to_left self value"

section \<open>What the LRU cache promises\<close>

text \<open>
  \<open>keys\<close> are the keys a cache holds. A new cache is empty; inserting adds the key and removes
  the evicted one, which was another key of the cache; a key is evicted only for a new
  key; and no more than \<open>limit\<close> keys are held.
\<close>

definition lru_laws :: "('l, 'k) lru_ops \<Rightarrow> nat \<Rightarrow> ('l \<Rightarrow> 'k set) \<Rightarrow> bool" where
  "lru_laws ops limit keys \<longleftrightarrow> keys (lru_new ops limit) = {} \<and>
     (\<forall>k l l' is_new evicted. insert_and_get_evicted ops k l = (l', is_new, evicted) \<longrightarrow>
        (is_new \<longleftrightarrow> k \<notin> keys l) \<and>
        (case evicted of None \<Rightarrow> keys l' = insert k (keys l)
         | Some e \<Rightarrow> is_new \<and> e \<in> keys l \<and> e \<noteq> k \<and> keys l' = insert k (keys l - {e})) \<and>
        (finite (keys l) \<and> card (keys l) \<le> limit \<longrightarrow> finite (keys l') \<and> card (keys l') \<le> limit))"

section \<open>Lemmas\<close>

text \<open>The two directions are inverse to each other, and the left sides are the LRU cache's keys.\<close>

definition bimap_ok :: "nat \<Rightarrow> ('l \<Rightarrow> 'k set) \<Rightarrow> ('k, 'v, 'l) lru_bimap \<Rightarrow> bool" where
  "bimap_ok limit keys m \<longleftrightarrow> dom (left_to_right m) = keys (lru_keys m) \<and>
     (\<forall>k v. left_to_right m k = Some v \<longleftrightarrow> right_to_left m v = Some k) \<and>
     finite (keys (lru_keys m)) \<and> card (keys (lru_keys m)) \<le> limit"

lemma bimap_new_ok: "lru_laws ops limit keys \<Longrightarrow> bimap_ok limit keys (bimap_new ops limit)"
  by (simp add: bimap_ok_def bimap_new_def lru_laws_def)

text \<open>
  A pair may be inserted when it does not contradict the pairs that are there: the key is
  absent or has this value, and the value is absent or has this key.
\<close>

definition agrees :: "'k \<Rightarrow> 'v \<Rightarrow> ('k, 'v, 'l) lru_bimap \<Rightarrow> bool" where
  "agrees k v m \<longleftrightarrow> (\<forall>v'. left_to_right m k = Some v' \<longrightarrow> v' = v) \<and>
     (\<forall>k'. right_to_left m v = Some k' \<longrightarrow> k' = k)"

lemma bimap_insert_lookup:
  "get_by_left (bimap_insert ops k v m) k = Some v" "get_by_right (bimap_insert ops k v m) v = Some k"
  by (simp_all add: bimap_insert_def get_by_left_def get_by_right_def Let_def case_prod_beta)

lemma lru_laws_insert:
  assumes "lru_laws ops limit keys" "insert_and_get_evicted ops k l = (l', is_new, evicted)"
  shows "is_new \<longleftrightarrow> k \<notin> keys l"
    "evicted = None \<Longrightarrow> keys l' = insert k (keys l)"
    "evicted = Some e \<Longrightarrow> is_new \<and> e \<in> keys l \<and> e \<noteq> k \<and> keys l' = insert k (keys l - {e})"
    "finite (keys l) \<Longrightarrow> card (keys l) \<le> limit \<Longrightarrow> finite (keys l') \<and> card (keys l') \<le> limit"
proof -
  from assms(1) have all: "\<forall>k l l' is_new evicted. insert_and_get_evicted ops k l = (l', is_new, evicted) \<longrightarrow>
        (is_new \<longleftrightarrow> k \<notin> keys l) \<and>
        (case evicted of None \<Rightarrow> keys l' = insert k (keys l)
         | Some e \<Rightarrow> is_new \<and> e \<in> keys l \<and> e \<noteq> k \<and> keys l' = insert k (keys l - {e})) \<and>
        (finite (keys l) \<and> card (keys l) \<le> limit \<longrightarrow> finite (keys l') \<and> card (keys l') \<le> limit)"
    unfolding lru_laws_def by (rule conjunct2)
  note law = all [rule_format, OF assms(2)]
  show "is_new \<longleftrightarrow> k \<notin> keys l" using law by (rule conjunct1)
  show "evicted = None \<Longrightarrow> keys l' = insert k (keys l)" using law by simp
  show "evicted = Some e \<Longrightarrow> is_new \<and> e \<in> keys l \<and> e \<noteq> k \<and> keys l' = insert k (keys l - {e})"
    using law by auto
  show "finite (keys l) \<Longrightarrow> card (keys l) \<le> limit \<Longrightarrow> finite (keys l') \<and> card (keys l') \<le> limit"
    using law by simp
qed

text \<open>Replacing a pair by another in a map and its inverse.\<close>

lemma inverse_replace:
  assumes iff: "\<And>a b. L a = Some b \<longleftrightarrow> R b = Some a"
    and kv: "\<And>b. L k = Some b \<Longrightarrow> b = v" "\<And>a. R v = Some a \<Longrightarrow> a = k"
    and e: "L e = Some w" "e \<noteq> k" "w \<noteq> v"
  shows "(L(e := None, k \<mapsto> v)) a = Some b \<longleftrightarrow> (R(w := None, v \<mapsto> k)) b = Some a"
proof (cases "b = v")
  case True
  have "L a \<noteq> Some v" if "a \<noteq> k" using that iff kv(2) by blast
  with True show ?thesis by (cases "a = k"; cases "a = e") simp_all
next
  case b: False
  show ?thesis
  proof (cases "b = w")
    case True
    have "L a \<noteq> Some w" if "a \<noteq> e" using that iff [of a w] iff [of e w] e(1) by simp
    with True b show ?thesis by (cases "a = k"; cases "a = e") simp_all
  next
    case False
    have "R b \<noteq> Some k" using b kv(1) iff by blast
    moreover have "R b \<noteq> Some e" using False iff [of e b] e(1) by simp
    ultimately show ?thesis using b False iff [of a b] by (cases "a = k"; cases "a = e") simp_all
  qed
qed

lemma bimap_insert_ok:
  assumes "lru_laws ops limit keys" "bimap_ok limit keys m" "agrees k v m"
  shows "bimap_ok limit keys (bimap_insert ops k v m)"
proof -
  obtain l is_new evicted where ins: "insert_and_get_evicted ops k (lru_keys m) = (l, is_new, evicted)"
    by (cases "insert_and_get_evicted ops k (lru_keys m)") auto
  note law = lru_laws_insert [OF assms(1) ins]
  have ok: "dom (left_to_right m) = keys (lru_keys m)"
    "\<And>k v. left_to_right m k = Some v \<longleftrightarrow> right_to_left m v = Some k"
    "finite (keys (lru_keys m))" "card (keys (lru_keys m)) \<le> limit"
    using assms(2) by (auto simp: bimap_ok_def)
  note agrees = assms(3) [unfolded agrees_def]
  show ?thesis
  proof (cases evicted)
    case None
    then have m': "bimap_insert ops k v m = m\<lparr>lru_keys := l, left_to_right := (left_to_right m)(k \<mapsto> v),
        right_to_left := (right_to_left m)(v \<mapsto> k)\<rparr>"
      by (cases is_new) (simp_all add: bimap_insert_def ins)
    have "((left_to_right m)(k \<mapsto> v)) a = Some b \<longleftrightarrow> ((right_to_left m)(v \<mapsto> k)) b = Some a" for a b
      using ok(2) agrees by auto
    then show ?thesis unfolding bimap_ok_def m' using law(2) [OF None] law(4) [OF ok(3,4)] ok(1) by simp
  next
    case (Some e)
    note evict = law(3) [OF Some]
    then obtain w where w: "left_to_right m e = Some w" "right_to_left m w = Some e"
      using ok(1,2) by (metis domD)
    have e: "is_new" "e \<noteq> k" "w \<noteq> v" using evict agrees w by auto
    then have m': "bimap_insert ops k v m = m\<lparr>lru_keys := l,
        left_to_right := (left_to_right m)(e := None, k \<mapsto> v),
        right_to_left := (right_to_left m)(w := None, v \<mapsto> k)\<rparr>"
      by (simp add: bimap_insert_def ins Some bimap_evict_def w)
    have "dom ((left_to_right m)(e := None, k \<mapsto> v)) = keys l" using evict ok(1) by auto
    moreover have "((left_to_right m)(e := None, k \<mapsto> v)) a = Some b \<longleftrightarrow>
        ((right_to_left m)(w := None, v \<mapsto> k)) b = Some a" for a b
      using agrees by (intro inverse_replace ok(2) w(1) e) blast+
    ultimately show ?thesis unfolding bimap_ok_def m' using law(4) [OF ok(3,4)] by simp
  qed
qed

fun bimap_inserts :: "('l, 'k) lru_ops \<Rightarrow> ('k \<times> 'v) list \<Rightarrow> ('k, 'v, 'l) lru_bimap \<Rightarrow> ('k, 'v, 'l) lru_bimap" where
  "bimap_inserts ops [] m = m"
| "bimap_inserts ops ((k, v) # ps) m = bimap_inserts ops ps (bimap_insert ops k v m)"

text \<open>Whatever is in the map after an insertion was inserted or was there before.\<close>

lemma bimap_insert_left:
  "get_by_left (bimap_insert ops k v m) k' = Some v' \<Longrightarrow> (k' = k \<and> v' = v) \<or> get_by_left m k' = Some v'"
  by (auto simp: bimap_insert_def bimap_evict_def get_by_left_def Let_def
      split: prod.splits option.splits bool.splits if_splits)

lemma bimap_insert_right:
  "get_by_right (bimap_insert ops k v m) v' = Some k' \<Longrightarrow> (k' = k \<and> v' = v) \<or> get_by_right m v' = Some k'"
  by (auto simp: bimap_insert_def bimap_evict_def get_by_right_def Let_def
      split: prod.splits option.splits bool.splits if_splits)

lemma bimap_inserts_ok:
  assumes "lru_laws ops limit keys" "bimap_ok limit keys m"
    and "\<And>k v k' v'. (k, v) \<in> R \<Longrightarrow> (k', v') \<in> R \<Longrightarrow> k = k' \<longleftrightarrow> v = v'"
    and "set ps \<subseteq> R" "\<And>k v. left_to_right m k = Some v \<Longrightarrow> (k, v) \<in> R"
  shows "bimap_ok limit keys (bimap_inserts ops ps m)"
  using assms(2,4,5)
proof (induction ps arbitrary: m)
  case (Cons p ps)
  obtain k v where p: "p = (k, v)" by (cases p)
  note prems = Cons.prems [unfolded p]
  have "agrees k v m"
  proof -
    have kv: "(k, v) \<in> R" using prems(2) by simp
    have left: "v' = v" if "left_to_right m k = Some v'" for v'
      using assms(3) [OF prems(3) [OF that] kv] by simp
    have "left_to_right m k' = Some v" if "right_to_left m v = Some k'" for k'
      using that prems(1) by (simp add: bimap_ok_def)
    then have "k' = k" if "right_to_left m v = Some k'" for k'
      using assms(3) [OF prems(3) kv] that by blast
    with left show ?thesis by (simp add: agrees_def)
  qed
  then have "bimap_ok limit keys (bimap_insert ops k v m)"
    by (rule bimap_insert_ok [OF assms(1) prems(1)])
  moreover have "(k', v') \<in> R" if "left_to_right (bimap_insert ops k v m) k' = Some v'" for k' v'
    using that prems bimap_insert_left [of ops k v m k' v'] by (auto simp: get_by_left_def)
  ultimately show ?case using Cons.IH prems(2) by (simp add: p)
qed simp

section \<open>Properties\<close>

text \<open>
  C19. The cache stays bidirectional. After any sequence of insertions of pairs in which a
  left side determines the right side and the other way round (as block hashes and
  numbers do), the two lookups are inverse to each other, the cache holds at most \<open>limit\<close>
  pairs, and its left sides are exactly the keys of the LRU cache; and the pair inserted
  last is found from both sides.
\<close>

theorem lru_bimap_bidirectional:
  assumes "lru_laws ops limit keys"
    and "\<forall>(k, v) \<in> set (ps @ [(a, b)]). \<forall>(k', v') \<in> set (ps @ [(a, b)]). k = k' \<longleftrightarrow> v = v'"
  shows "let m = bimap_inserts ops (ps @ [(a, b)]) (bimap_new ops limit) in
    (\<forall>k v. get_by_left m k = Some v \<longleftrightarrow> get_by_right m v = Some k) \<and>
    dom (get_by_left m) = keys (lru_keys m) \<and> card (dom (get_by_left m)) \<le> limit \<and>
    get_by_left m a = Some b \<and> get_by_right m b = Some a"
proof -
  let ?m = "bimap_inserts ops (ps @ [(a, b)]) (bimap_new ops limit)"
  have "bimap_ok limit keys ?m"
    using assms(2) by (intro bimap_inserts_ok [where R = "set (ps @ [(a, b)])", OF assms(1) bimap_new_ok [OF assms(1)]])
      (auto simp: bimap_new_def)
  moreover have "bimap_inserts ops (qs @ [(a, b)]) m = bimap_insert ops a b (bimap_inserts ops qs m)" for qs m
    by (induction ops qs m rule: bimap_inserts.induct) simp_all
  then have "get_by_left ?m a = Some b" "get_by_right ?m b = Some a"
    by (simp_all add: bimap_insert_lookup)
  moreover have "get_by_left ?m = left_to_right ?m" "get_by_right ?m = right_to_left ?m"
    by (simp_all add: fun_eq_iff get_by_left_def get_by_right_def)
  ultimately show ?thesis by (simp add: bimap_ok_def Let_def)
qed

text \<open>An LRU cache as a list of keys, the most recent one first.\<close>

definition example_lru :: "nat \<Rightarrow> ('k list, 'k) lru_ops" where
  "example_lru limit = \<lparr>lru_new = (\<lambda>_. []),
     insert_and_get_evicted = (\<lambda>k l. if k \<in> set l then (k # removeAll k l, False, None)
       else if card (set l) < limit then (k # l, True, None)
       else (k # removeAll (last l) l, True, Some (last l)))\<rparr>"

lemma example_lru_cases:
  assumes "0 < limit" "insert_and_get_evicted (example_lru limit) k l = (l', is_new, evicted)"
  shows "(is_new \<longleftrightarrow> k \<notin> set l) \<and>
    (case evicted of None \<Rightarrow> set l' = insert k (set l)
     | Some e \<Rightarrow> is_new \<and> e \<in> set l \<and> e \<noteq> k \<and> set l' = insert k (set l - {e})) \<and>
    (finite (set l) \<and> card (set l) \<le> limit \<longrightarrow> finite (set l') \<and> card (set l') \<le> limit)"
proof (cases "k \<in> set l")
  case True
  with assms(2) have l': "l' = k # removeAll k l" "is_new = False" "evicted = None"
    by (simp_all add: example_lru_def)
  have "set l' = set l" using True by (auto simp: l')
  with True l'(2,3) show ?thesis by (simp add: insert_absorb)
next
  case k: False
  show ?thesis
  proof (cases "card (set l) < limit")
    case True
    with k assms(2) show ?thesis by (auto simp: example_lru_def)
  next
    case False
    with assms(1) have "l \<noteq> []" by auto
    then have last: "last l \<in> set l" by simp
    with k have ne: "last l \<noteq> k" by auto
    from k False assms(2) have l': "l' = k # removeAll (last l) l" "is_new" "evicted = Some (last l)"
      by (simp_all add: example_lru_def)
    have "card (set l') = card (set l)"
      using k card_Suc_Diff1 [OF _ last] by (simp add: l' card_insert_if del: card_Diff_insert)
    with k last ne l' show ?thesis by simp
  qed
qed

lemma example_lru_laws:
  assumes "0 < limit"
  shows "lru_laws (example_lru limit) limit set"
proof -
  have "set (lru_new (example_lru limit) limit :: 'a list) = {}" by (simp add: example_lru_def)
  with example_lru_cases [OF assms] show ?thesis unfolding lru_laws_def by blast
qed

theorem lru_bimap_bidirectional_witness:
  "let m = bimap_inserts (example_lru 2) ([(''a'', 1 :: nat), (''b'', 2)] @ [(''c'', 3)]) (bimap_new (example_lru 2) 2) in
    get_by_left m ''c'' = Some 3 \<and> get_by_right m 3 = Some ''c'' \<and> card (dom (get_by_left m)) \<le> 2"
proof -
  have laws: "lru_laws (example_lru 2 :: (string list, string) lru_ops) 2 set"
    by (rule example_lru_laws) simp
  have "\<forall>(k, v) \<in> set ([(''a'', 1 :: nat), (''b'', 2)] @ [(''c'', 3)]).
      \<forall>(k', v') \<in> set ([(''a'', 1), (''b'', 2)] @ [(''c'', 3)]). k = k' \<longleftrightarrow> v = v'" by simp
  from lru_bimap_bidirectional [OF laws this] show ?thesis unfolding Let_def by blast
qed

end
