(* ===== verification/Pseudo_Peer.thy ===== *)
theory Pseudo_Peer
  imports Reth_Compat Chain_Spec Block_Sources Lru_BiMap
begin

text \<open>
  The pseudo peer (\<open>src/src/pseudo_peer/service.rs\<close>): to the rest of the node it is a peer
  on the network; behind it stands a block source. It polls the source for new blocks and
  announces them, and answers requests for headers and bodies. Sources know blocks by
  height only, so a request for a hash is answered from a cache of hashes, which is
  filled backwards from the latest block when the hash is missing.

  The state of the source, and of the official RPC server that is asked as a last
  resort, is part of the peer's state: any call may change it. Futures that the program
  awaits together are run one after the other, in the order of their results. A
  \<open>HashMap\<close> is iterated in an unspecified order: \<open>iter\<close> enumerates a map.
\<close>

section \<open>State\<close>

record ('s, 'l) pseudo_peer =
  pp_source :: 's
  pp_cache :: "(b256, u64, 'l) lru_bimap"
  pp_warm_cache_size :: u64
  pp_warm_around :: "u64 set"
  pp_known_latest :: u64
  pp_spot :: spot_state

record ('s, 'l, 'e, 'g) peer_env =
  pe_src :: "('s, 'e) block_source"
  pe_lru :: "('l, b256) lru_ops"
  pe_iter :: "(b256 \<rightharpoonup> u64) \<Rightarrow> (b256 \<times> u64) list"
  pe_rpc :: "string \<Rightarrow> b256 \<Rightarrow> 's \<Rightarrow> 's \<times> (u64, 'e) result"
  pe_chain_spec :: "'g chain_spec"
  pe_post :: "nat \<Rightarrow> string \<Rightarrow> (spot_meta, 'e) result"
  pe_hash_slow :: "header \<Rightarrow> b256"

definition BLOCKHASH_CACHE_LIMIT :: nat where
  "BLOCKHASH_CACHE_LIMIT = 1000000"

definition new_blockhash_cache :: "('s, 'l, 'e, 'g) peer_env \<Rightarrow> (b256, u64, 'l) lru_bimap" where
  "new_blockhash_cache env = bimap_new (pe_lru env) BLOCKHASH_CACHE_LIMIT"

definition pseudo_peer_new :: "'s \<Rightarrow> (b256, u64, 'l) lru_bimap \<Rightarrow> spot_state \<Rightarrow> ('s, 'l) pseudo_peer" where
  "pseudo_peer_new s cache spot = \<lparr>pp_source = s, pp_cache = cache, pp_warm_cache_size = 1000,
     pp_warm_around = {}, pp_known_latest = 0, pp_spot = spot\<rparr>"

section \<open>Collecting blocks\<close>

definition peer_collect_block ::
  "('s, 'l, 'e, 'g) peer_env \<Rightarrow> u64 \<Rightarrow> ('s, 'l) pseudo_peer \<Rightarrow>
   ((block_and_receipts, 'e) result \<times> ('s, 'l) pseudo_peer) run" where
  "peer_collect_block env height self =
     run_bind (src_collect (pe_src env) height (pp_source self)) (\<lambda>(s, r). Returns (r, self\<lparr>pp_source := s\<rparr>))"

text \<open>Every block is asked for; the first error is the result.\<close>

definition collect_blocks ::
  "('s, 'l, 'e, 'g) peer_env \<Rightarrow> u64 list \<Rightarrow> ('s, 'l) pseudo_peer \<Rightarrow>
   ((block_and_receipts list, 'e) result \<times> ('s, 'l) pseudo_peer) run" where
  "collect_blocks env numbers self =
     run_bind (run_map_state (peer_collect_block env) numbers self) (\<lambda>(res, self). Returns (collect_results res, self))"

section \<open>The cache of hashes\<close>

fun cache_blocks ::
  "('s, 'l, 'e, 'g) peer_env \<Rightarrow> (b256 \<times> u64) list \<Rightarrow> ('s, 'l) pseudo_peer \<Rightarrow> ('s, 'l) pseudo_peer" where
  "cache_blocks env [] self = self"
| "cache_blocks env ((h, number) # rest) self =
     cache_blocks env rest (self\<lparr>pp_cache := bimap_insert (pe_lru env) h number (pp_cache self)\<rparr>)"

definition get_cached_block_hashes ::
  "('s, 'l) pseudo_peer \<Rightarrow> u64 \<Rightarrow> u64 \<Rightarrow> (b256 \<rightharpoonup> u64) \<times> u64 list" where
  "get_cached_block_hashes self start_number end_number =
     (let (cached, uncached) = partition (\<lambda>n. get_by_right (pp_cache self) n \<noteq> None)
            (range_incl_u64 start_number end_number);
          pairs = List.map_filter (\<lambda>n. map_option (\<lambda>h. (h, n)) (get_by_right (pp_cache self) n)) cached
      in (map_of (rev pairs), uncached))"

definition try_block_range_for_hash ::
  "('s, 'l, 'e, 'g) peer_env \<Rightarrow> u64 \<Rightarrow> u64 \<Rightarrow> b256 \<Rightarrow> ('s, 'l) pseudo_peer \<Rightarrow>
   ((u64 option, 'e) result \<times> ('s, 'l) pseudo_peer) run" where
  "try_block_range_for_hash env start_number end_number target_hash self =
     (let (cached, uncached) = get_cached_block_hashes self start_number end_number
      in case cached target_hash of
           Some number \<Rightarrow> Returns (Ok (Some number), self)
         | None \<Rightarrow>
             if uncached = [] then Returns (Ok None, self)
             else run_bind (collect_blocks env uncached self) (\<lambda>(r, self). case r of
                 Err e \<Rightarrow> Returns (Err e, self)
               | Ok blocks \<Rightarrow>
                   let block_map = map_of (rev (map (\<lambda>b. (bar_hash b, bar_number b)) blocks));
                       maybe_number = block_map target_hash
                   in Returns (Ok maybe_number, cache_blocks env (pe_iter env block_map) self)))"

text \<open>The result of the last step is dropped, so only its effect matters.\<close>

definition warm_cache_around_blocks ::
  "('s, 'l, 'e, 'g) peer_env \<Rightarrow> u64 \<Rightarrow> u64 \<Rightarrow> ('s, 'l) pseudo_peer \<Rightarrow> ('s, 'l) pseudo_peer run" where
  "warm_cache_around_blocks env number chunk_size self =
     (let start = max (saturating_sub number chunk_size) 1;
          end' = min (number + chunk_size) (pp_known_latest self);
          self = self\<lparr>pp_warm_around := insert end' (insert start (pp_warm_around self))\<rparr>
      in run_bind (try_block_range_for_hash env start end' 0 self) (\<lambda>(_, self). Returns self))"

definition try_get_cached_block_number ::
  "('s, 'l, 'e, 'g) peer_env \<Rightarrow> b256 \<Rightarrow> ('s, 'l) pseudo_peer \<Rightarrow> (u64 option \<times> ('s, 'l) pseudo_peer) run" where
  "try_get_cached_block_number env h self =
     (case get_by_left (pp_cache self) h of
        Some number \<Rightarrow>
          run_bind (if number \<in> pp_warm_around self
                    then warm_cache_around_blocks env number (pp_warm_cache_size self) self
                    else Returns self)
            (\<lambda>self. Returns (Some number, self))
      | None \<Rightarrow> Returns (None, self))"

definition fallback_to_official_rpc ::
  "('s, 'l, 'e, 'g) peer_env \<Rightarrow> b256 \<Rightarrow> ('s, 'l) pseudo_peer \<Rightarrow> ((u64, 'e) result \<times> ('s, 'l) pseudo_peer) run" where
  "fallback_to_official_rpc env h self =
     run_bind (official_rpc_url (pe_chain_spec env)) (\<lambda>url.
       case pe_rpc env url h (pp_source self) of
         (s, Err e) \<Rightarrow> Returns (Err e, self\<lparr>pp_source := s\<rparr>)
       | (s, Ok number) \<Rightarrow> Returns (Ok number, cache_blocks env [(h, number)] (self\<lparr>pp_source := s\<rparr>)))"

text \<open>\<open>(1..=latest).rev().step_by(n)\<close>: every \<open>n\<close>-th number from the latest down.\<close>

fun step_by :: "nat \<Rightarrow> 'a list \<Rightarrow> 'a list" where
  "step_by n [] = []"
| "step_by n (x # xs) = x # step_by n (drop (n - 1) xs)"

definition TRY_OFFICIAL_RPC_THRESHOLD :: nat where
  "TRY_OFFICIAL_RPC_THRESHOLD = 20"

fun backfill_loop ::
  "('s, 'l, 'e, 'g) peer_env \<Rightarrow> b256 \<Rightarrow> u64 \<Rightarrow> nat \<Rightarrow> u64 list \<Rightarrow> ('s, 'l) pseudo_peer \<Rightarrow>
   (u64 option \<times> ('s, 'l) pseudo_peer) run" where
  "backfill_loop env target chunk_size iteration [] self = Returns (None, self)"
| "backfill_loop env target chunk_size iteration (end' # ends) self =
     (let start = max (saturating_sub end' chunk_size) 1
      in run_bind (try_block_range_for_hash env start end' target self) (\<lambda>(r, self).
           case r of Ok (Some number) \<Rightarrow> Returns (Some number, self)
           | _ \<Rightarrow>
             if iteration \<ge> TRY_OFFICIAL_RPC_THRESHOLD
             then run_bind (fallback_to_official_rpc env target self) (\<lambda>(r, self). case r of
                 Ok number \<Rightarrow>
                   run_bind (warm_cache_around_blocks env number (pp_warm_cache_size self) self)
                     (\<lambda>self. Returns (Some number, self))
               | Err _ \<Rightarrow> backfill_loop env target chunk_size (iteration + 1) ends self)
             else backfill_loop env target chunk_size (iteration + 1) ends self))"

text \<open>\<open>step_by\<close> panics on a step of zero.\<close>

definition backfill_cache_for_hash ::
  "('s, 'l, 'e, 'g) peer_env \<Rightarrow> b256 \<Rightarrow> u64 \<Rightarrow> ('s, 'l) pseudo_peer \<Rightarrow>
   ((u64 option, 'e) result \<times> ('s, 'l) pseudo_peer) run" where
  "backfill_cache_for_hash env target latest self =
     (let chunk_size = src_chunk (pe_src env)
      in if chunk_size = 0 then Panics
         else run_bind (backfill_loop env target chunk_size 0
                (step_by (unat chunk_size) (rev (range_incl_u64 1 latest))) self)
           (\<lambda>(r, self). Returns (Ok r, self)))"

definition BACKFILL_RETRY_LIMIT :: nat where
  "BACKFILL_RETRY_LIMIT = 10"

text \<open>After the last attempt the program panics.\<close>

fun backfill_retries ::
  "('s, 'l, 'e, 'g) peer_env \<Rightarrow> b256 \<Rightarrow> u64 \<Rightarrow> nat \<Rightarrow> ('s, 'l) pseudo_peer \<Rightarrow> (u64 \<times> ('s, 'l) pseudo_peer) run" where
  "backfill_retries env h latest 0 self = Panics"
| "backfill_retries env h latest (Suc n) self =
     run_bind (backfill_cache_for_hash env h latest self) (\<lambda>(r, self).
       case r of Ok (Some number) \<Rightarrow> Returns (number, self) | _ \<Rightarrow> backfill_retries env h latest n self)"

definition hash_to_block_number ::
  "('s, 'l, 'e, 'g) peer_env \<Rightarrow> b256 \<Rightarrow> ('s, 'l) pseudo_peer \<Rightarrow> (u64 \<times> ('s, 'l) pseudo_peer) run" where
  "hash_to_block_number env h self =
     run_bind (try_get_cached_block_number env h self) (\<lambda>(cached, self). case cached of
       Some number \<Rightarrow> Returns (number, self)
     | None \<Rightarrow>
         run_bind (src_latest (pe_src env) (pp_source self)) (\<lambda>(s, l).
         run_bind (unwrap l) (\<lambda>latest.
           backfill_retries env h latest BACKFILL_RETRY_LIMIT
             (self\<lparr>pp_source := s, pp_known_latest := latest\<rparr>))))"

section \<open>Requests\<close>

datatype hash_or_number = AtHash b256 | AtNumber u64
datatype headers_direction = Rising | Falling

datatype eth_request =
    GetBlockHeaders hash_or_number u64 "32 word" headers_direction
  | GetBlockBodies "b256 list"
  | GetNodeData
  | OtherRequest

datatype eth_response = BlockHeaders "header list" | BlockBodies "hl_block_body list" | NoResponse

text \<open>Converting the collected blocks; the cache of spot tokens is shared.\<close>

definition convert_blocks ::
  "('s, 'l, 'e, 'g) peer_env \<Rightarrow> block_and_receipts list \<Rightarrow> ('s, 'l) pseudo_peer \<Rightarrow>
   (hl_block list \<times> ('s, 'l) pseudo_peer) run" where
  "convert_blocks env blocks self =
     run_bind (run_map_state (to_reth_block (pe_post env) (chain_id (pe_chain_spec env))) blocks (pp_spot self))
       (\<lambda>(bs, spot). Returns (bs, self\<lparr>pp_spot := spot\<rparr>))"

definition process_eth_request ::
  "('s, 'l, 'e, 'g) peer_env \<Rightarrow> eth_request \<Rightarrow> ('s, 'l) pseudo_peer \<Rightarrow>
   ((eth_response, 'e) result \<times> ('s, 'l) pseudo_peer) run" where
  "process_eth_request env req self =
     (case req of
        GetBlockHeaders start_block limit skip direction \<Rightarrow>
          run_bind (case start_block of AtHash h \<Rightarrow> hash_to_block_number env h self
                    | AtNumber n \<Rightarrow> Returns (n, self)) (\<lambda>(number, self).
          run_bind (collect_blocks env (case direction of
                      Rising \<Rightarrow> range_u64 number (number + limit)
                    | Falling \<Rightarrow> rev (range_u64 (number + 1 - limit) (number + 1))) self) (\<lambda>(r, self).
            case r of Err e \<Rightarrow> Returns (Err e, self)
            | Ok blocks \<Rightarrow> run_bind (convert_blocks env blocks self)
                (\<lambda>(bs, self). Returns (Ok (BlockHeaders (map block_header bs)), self))))
      | GetBlockBodies hashes \<Rightarrow>
          run_bind (run_map_state (hash_to_block_number env) hashes self) (\<lambda>(numbers, self).
          run_bind (collect_blocks env numbers self) (\<lambda>(r, self).
            case r of Err e \<Rightarrow> Returns (Err e, self)
            | Ok blocks \<Rightarrow> run_bind (convert_blocks env blocks self)
                (\<lambda>(bs, self). Returns (Ok (BlockBodies (map block_body bs)), self))))
      | GetNodeData \<Rightarrow> Returns (Ok NoResponse, self)
      | OtherRequest \<Rightarrow> Returns (Ok NoResponse, self))"

section \<open>The poller\<close>

text \<open>The polling task between two awaits: the next height, the source, and what was sent.\<close>

record 's poller =
  po_next :: u64
  po_source :: 's
  po_sent :: "(u64 \<times> block_and_receipts) list"

definition poller_start :: "('s, 'l, 'e, 'g) peer_env \<Rightarrow> 's \<Rightarrow> ('s poller, string) result run" where
  "poller_start env s =
     run_bind (src_latest (pe_src env) s) (\<lambda>(s, l). Returns (case l of
       None \<Rightarrow> Err ''Failed to find latest block number''
     | Some n \<Rightarrow> Ok \<lparr>po_next = n, po_source = s, po_sent = []\<rparr>))"

definition poller_step :: "('s, 'l, 'e, 'g) peer_env \<Rightarrow> 's poller \<Rightarrow> 's poller run" where
  "poller_step env self =
     run_bind (src_collect (pe_src env) (po_next self) (po_source self)) (\<lambda>(s, r). case r of
       Ok block \<Rightarrow> Returns (self\<lparr>po_source := s, po_sent := po_sent self @ [(po_next self, block)],
                                po_next := po_next self + 1\<rparr>)
     | Err _ \<Rightarrow> Returns (self\<lparr>po_source := s\<rparr>))"

fun poller_run :: "('s, 'l, 'e, 'g) peer_env \<Rightarrow> nat \<Rightarrow> 's poller \<Rightarrow> 's poller run" where
  "poller_run env 0 self = Returns self"
| "poller_run env (Suc n) self = run_bind (poller_step env self) (poller_run env n)"

text \<open>
  \<open>BlockImport::poll\<close> on a block the task sent: the block is converted, its hash cached, and
  the block announced. The total difficulty is the header's, which has to fit 128 bits.
\<close>

definition poller_announce ::
  "('s, 'l, 'e, 'g) peer_env \<Rightarrow> u64 \<times> block_and_receipts \<Rightarrow> (b256, u64, 'l) lru_bimap \<times> spot_state \<Rightarrow>
   ((hl_block \<times> b256 \<times> u128) \<times> (b256, u64, 'l) lru_bimap \<times> spot_state) run" where
  "poller_announce env msg st =
     (let (number, block) = msg; (cache, spot) = st
      in run_bind (to_reth_block (pe_post env) (chain_id (pe_chain_spec env)) block spot) (\<lambda>(reth_block, spot).
           let h = pe_hash_slow env (block_header reth_block);
               cache = bimap_insert (pe_lru env) h number cache
           in if unat (difficulty (block_header reth_block)) < 2 ^ 128
              then Returns ((reth_block, h, ucast (difficulty (block_header reth_block))), cache, spot)
              else Panics))"

section \<open>What the peer relies on\<close>

text \<open>
  The chain the peer serves: the source is faithful to it, a block carries its own height,
  the official RPC server answers with the height of the hash it was asked for, and the
  iteration over a map visits its entries.
\<close>

locale peer_setting = faithful_source "pe_src env" good chain
  for env :: "('s, 'l, 'e, 'g) peer_env" and good :: "'s \<Rightarrow> bool" and chain :: "u64 \<rightharpoonup> block_and_receipts" +
  assumes numbered: "chain n = Some b \<Longrightarrow> bar_number b = n"
    and rpc_faithful: "good s \<Longrightarrow> pe_rpc env url h s = (s', r) \<Longrightarrow>
      good s' \<and> (\<forall>n. r = Ok n \<longrightarrow> (\<exists>b. chain n = Some b \<and> bar_hash b = h))"
    and iter_entries: "(h, n) \<in> set (pe_iter env m) \<longleftrightarrow> m h = Some n"

locale complete_peer = peer_setting env good chain + complete_source "pe_src env" good chain latest
  for env :: "('s, 'l, 'e, 'g) peer_env" and good :: "'s \<Rightarrow> bool" and chain and latest :: u64 +
  assumes known_chain: "\<exists>url. official_rpc_url (pe_chain_spec env) = Returns url"

section \<open>Lemmas\<close>

lemma run_map_state_invariant:
  assumes "\<And>x s y s'. x \<in> set xs \<Longrightarrow> I s \<Longrightarrow> f x s = Returns (y, s') \<Longrightarrow> I s' \<and> R x y"
    and "I s" "run_map_state f xs s = Returns (ys, s')"
  shows "I s' \<and> list_all2 R xs ys"
  using assms
proof (induction xs arbitrary: s ys)
  case (Cons x xs)
  from Cons.prems(3) obtain y s1 zs where step: "f x s = Returns (y, s1)"
    "run_map_state f xs s1 = Returns (zs, s')" "ys = y # zs"
    by (auto simp: run_bind_eq_Returns_iff)
  from Cons.prems(1) [OF _ Cons.prems(2) step(1)] have one: "I s1 \<and> R x y" by simp
  have "I s' \<and> list_all2 R xs zs"
    using Cons.prems(1) one step(2) by (intro Cons.IH [of s1]) auto
  with one step(3) show ?case by simp
qed simp

lemma run_map_state_Returns:
  assumes "\<And>x s. x \<in> set xs \<Longrightarrow> I s \<Longrightarrow> \<exists>y s'. f x s = Returns (y, s') \<and> I s' \<and> R x y" "I s"
  shows "\<exists>ys s'. run_map_state f xs s = Returns (ys, s') \<and> I s' \<and> list_all2 R xs ys"
  using assms
proof (induction xs arbitrary: s)
  case (Cons x xs)
  from Cons.prems(1) [of x s] Cons.prems(2) obtain y s1 where y: "f x s = Returns (y, s1)" "I s1" "R x y"
    by auto
  from Cons.IH [OF Cons.prems(1) y(2)] obtain ys s2
    where "run_map_state f xs s1 = Returns (ys, s2)" "I s2" "list_all2 R xs ys" by auto
  with y show ?case by simp
qed simp

text \<open>Everything but the source and the cache.\<close>

definition same_frame :: "('s, 'l) pseudo_peer \<Rightarrow> ('s, 'l) pseudo_peer \<Rightarrow> bool" where
  "same_frame self self' \<longleftrightarrow> pp_known_latest self' = pp_known_latest self \<and> pp_spot self' = pp_spot self \<and>
     pp_warm_cache_size self' = pp_warm_cache_size self"

lemma same_frame_refl [simp]: "same_frame self self"
  by (simp add: same_frame_def)

lemma same_frame_trans: "same_frame a b \<Longrightarrow> same_frame b c \<Longrightarrow> same_frame a c"
  by (simp add: same_frame_def)

lemma cache_blocks_frame:
  "same_frame self (cache_blocks env ps self)" "pp_source (cache_blocks env ps self) = pp_source self"
  by (induction env ps self rule: cache_blocks.induct) (simp_all add: same_frame_def)

definition hash_at :: "(u64 \<rightharpoonup> block_and_receipts) \<Rightarrow> u64 \<Rightarrow> b256 \<Rightarrow> bool" where
  "hash_at chain n h \<longleftrightarrow> (\<exists>b. chain n = Some b \<and> bar_hash b = h)"

text \<open>Whatever the cache says of a hash or a height is true of the chain.\<close>

definition cache_sound :: "(u64 \<rightharpoonup> block_and_receipts) \<Rightarrow> (b256, u64, 'l) lru_bimap \<Rightarrow> bool" where
  "cache_sound chain c \<longleftrightarrow> (\<forall>h n. get_by_left c h = Some n \<longrightarrow> hash_at chain n h) \<and>
     (\<forall>h n. get_by_right c n = Some h \<longrightarrow> hash_at chain n h)"

definition peer_ok :: "('s \<Rightarrow> bool) \<Rightarrow> (u64 \<rightharpoonup> block_and_receipts) \<Rightarrow> ('s, 'l) pseudo_peer \<Rightarrow> bool" where
  "peer_ok good chain self \<longleftrightarrow> good (pp_source self) \<and> cache_sound chain (pp_cache self)"

context peer_setting
begin

lemma cache_sound_insert:
  assumes "cache_sound chain c" "hash_at chain n h"
  shows "cache_sound chain (bimap_insert (pe_lru env) h n c)"
  using assms bimap_insert_left [of "pe_lru env" h n c] bimap_insert_right [of "pe_lru env" h n c]
  unfolding cache_sound_def by blast

lemma cache_blocks_ok:
  assumes "peer_ok good chain self" "\<forall>(h, n) \<in> set ps. hash_at chain n h"
  shows "peer_ok good chain (cache_blocks env ps self)"
  using assms
  by (induction ps arbitrary: self) (auto simp: peer_ok_def cache_sound_insert)

lemma collect_one:
  assumes "peer_ok good chain self" "peer_collect_block env n self = Returns (r, self')"
  shows "peer_ok good chain self' \<and> same_frame self self' \<and> pp_cache self' = pp_cache self \<and>
    (\<forall>b. r = Ok b \<longrightarrow> chain n = Some b)"
  using assms collect_faithful [of "pp_source self" n]
  by (auto simp: peer_collect_block_def run_bind_eq_Returns_iff peer_ok_def same_frame_def)

lemma collect_blocks_ok:
  assumes "peer_ok good chain self" "collect_blocks env ns self = Returns (r, self')"
  shows "peer_ok good chain self' \<and> same_frame self self' \<and> pp_cache self' = pp_cache self \<and>
    (\<forall>bs. r = Ok bs \<longrightarrow> map chain ns = map Some bs)"
proof -
  let ?I = "\<lambda>p. peer_ok good chain p \<and> same_frame self p \<and> pp_cache p = pp_cache self"
  from assms(2) obtain res where run: "run_map_state (peer_collect_block env) ns self = Returns (res, self')"
    "r = collect_results res"
    by (auto simp: collect_blocks_def run_bind_eq_Returns_iff)
  have "?I self' \<and> list_all2 (\<lambda>n r. \<forall>b. r = Ok b \<longrightarrow> chain n = Some b) ns res"
  proof (rule run_map_state_invariant [OF _ _ run(1)])
    fix n p y p'
    assume "?I p" "peer_collect_block env n p = Returns (y, p')"
    with collect_one [of p n y p'] show "?I p' \<and> (\<forall>b. y = Ok b \<longrightarrow> chain n = Some b)"
      by (auto intro: same_frame_trans)
  qed (simp add: assms(1))
  moreover have "map chain ns = map Some bs"
    if "r = Ok bs" "list_all2 (\<lambda>n r. \<forall>b. r = Ok b \<longrightarrow> chain n = Some b) ns res" for bs
  proof -
    have "res = map Ok bs" using that(1) run(2) by (simp add: collect_results_Ok_iff)
    with that(2) have "length ns = length bs" "\<forall>i < length bs. chain (ns ! i) = Some (bs ! i)"
      by (auto simp: list_all2_conv_all_nth)
    then show ?thesis by (simp add: list_eq_iff_nth_eq)
  qed
  ultimately show ?thesis by blast
qed

lemma cached_hash_at:
  assumes "cache_sound chain (pp_cache self)" "get_cached_block_hashes self a b = (cached, uncached)" "cached h = Some n"
  shows "hash_at chain n h"
proof -
  from assms(2,3) have "(h, n) \<in> set (List.map_filter (\<lambda>n. map_option (\<lambda>h. (h, n)) (get_by_right (pp_cache self) n))
      (filter (\<lambda>n. get_by_right (pp_cache self) n \<noteq> None) (range_incl_u64 a b)))"
    by (auto simp: get_cached_block_hashes_def Let_def dest!: map_of_SomeD)
  then have "get_by_right (pp_cache self) n = Some h" by (auto simp: List.map_filter_def)
  with assms(1) show ?thesis by (simp add: cache_sound_def)
qed

lemma blocks_hash_at:
  assumes "map chain ns = map Some bs" "map_of (rev (map (\<lambda>b. (bar_hash b, bar_number b)) bs)) h = Some n"
  shows "hash_at chain n h"
proof -
  from assms(2) obtain b where b: "b \<in> set bs" "h = bar_hash b" "n = bar_number b"
    by (auto dest!: map_of_SomeD)
  from b(1) have "Some b \<in> set (map chain ns)" unfolding assms(1) by simp
  then obtain m where "chain m = Some b" by auto
  with numbered b show ?thesis by (auto simp: hash_at_def)
qed

lemma try_block_range_ok:
  assumes "peer_ok good chain self" "try_block_range_for_hash env a b h self = Returns (r, self')"
  shows "peer_ok good chain self' \<and> same_frame self self' \<and> (\<forall>n. r = Ok (Some n) \<longrightarrow> hash_at chain n h)"
proof -
  obtain cached uncached where c: "get_cached_block_hashes self a b = (cached, uncached)"
    by (cases "get_cached_block_hashes self a b")
  have sound: "cache_sound chain (pp_cache self)" using assms(1) by (simp add: peer_ok_def)
  show ?thesis
  proof (cases "cached h")
    case (Some n)
    with assms c cached_hash_at [OF sound c] show ?thesis
      by (auto simp: try_block_range_for_hash_def)
  next
    case None
    show ?thesis
    proof (cases "uncached = []")
      case True
      with None assms c show ?thesis by (auto simp: try_block_range_for_hash_def)
    next
      case False
      with None assms(2) c obtain r1 self1 where col: "collect_blocks env uncached self = Returns (r1, self1)"
        by (auto simp: try_block_range_for_hash_def run_bind_eq_Returns_iff)
      from collect_blocks_ok [OF assms(1) this] have
        s1: "peer_ok good chain self1" "same_frame self self1" "\<And>bs. r1 = Ok bs \<Longrightarrow> map chain uncached = map Some bs"
        by auto
      show ?thesis
      proof (cases r1)
        case (Inl e)
        with None False assms(2) c col s1 show ?thesis by (auto simp: try_block_range_for_hash_def)
      next
        case (Inr bs)
        let ?m = "map_of (rev (map (\<lambda>b. (bar_hash b, bar_number b)) bs))"
        have m: "hash_at chain n k" if "?m k = Some n" for k n
          using blocks_hash_at [OF s1(3) [OF Inr] that] .
        have "r = Ok (?m h)" "self' = cache_blocks env (pe_iter env ?m) self1"
          using None False assms(2) c col Inr by (auto simp: try_block_range_for_hash_def Let_def)
        moreover have "peer_ok good chain (cache_blocks env (pe_iter env ?m) self1)"
          by (rule cache_blocks_ok [OF s1(1)]) (auto simp: iter_entries m)
        ultimately show ?thesis
          using m s1(2) cache_blocks_frame [where env = env and self = self1 and ps = "pe_iter env ?m"]
          by (auto intro: same_frame_trans)
      qed
    qed
  qed
qed

lemma warm_ok:
  assumes "peer_ok good chain self" "warm_cache_around_blocks env n sz self = Returns self'"
  shows "peer_ok good chain self' \<and> same_frame self self'"
proof -
  let ?p = "self\<lparr>pp_warm_around := insert (min (n + sz) (pp_known_latest self))
      (insert (max (saturating_sub n sz) 1) (pp_warm_around self))\<rparr>"
  from assms(2) obtain r where
    "try_block_range_for_hash env (max (saturating_sub n sz) 1) (min (n + sz) (pp_known_latest self)) 0 ?p =
      Returns (r, self')"
    by (auto simp: warm_cache_around_blocks_def Let_def run_bind_eq_Returns_iff)
  from try_block_range_ok [OF _ this] assms(1) show ?thesis
    by (auto simp: peer_ok_def same_frame_def)
qed

lemma try_get_cached_ok:
  assumes "peer_ok good chain self" "try_get_cached_block_number env h self = Returns (r, self')"
  shows "peer_ok good chain self' \<and> same_frame self self' \<and> (\<forall>n. r = Some n \<longrightarrow> hash_at chain n h)"
proof (cases "get_by_left (pp_cache self) h")
  case None
  with assms show ?thesis by (simp add: try_get_cached_block_number_def)
next
  case (Some n)
  have at: "hash_at chain n h" using assms(1) Some by (simp add: peer_ok_def cache_sound_def)
  show ?thesis
  proof (cases "n \<in> pp_warm_around self")
    case True
    with assms(2) Some obtain p where "warm_cache_around_blocks env n (pp_warm_cache_size self) self = Returns p"
      "r = Some n" "self' = p"
      by (auto simp: try_get_cached_block_number_def run_bind_eq_Returns_iff)
    with warm_ok [OF assms(1)] at show ?thesis by auto
  next
    case False
    with assms(2) Some have "r = Some n" "self' = self" by (auto simp: try_get_cached_block_number_def)
    with assms(1) at show ?thesis by simp
  qed
qed

lemma fallback_ok:
  assumes "peer_ok good chain self" "fallback_to_official_rpc env h self = Returns (r, self')"
  shows "peer_ok good chain self' \<and> same_frame self self' \<and> (\<forall>n. r = Ok n \<longrightarrow> hash_at chain n h)"
proof -
  from assms(2) obtain url where url: "official_rpc_url (pe_chain_spec env) = Returns url"
    by (auto simp: fallback_to_official_rpc_def run_bind_eq_Returns_iff)
  obtain s x where rpc: "pe_rpc env url h (pp_source self) = (s, x)" by (cases "pe_rpc env url h (pp_source self)")
  have "good s \<and> (\<forall>n. x = Ok n \<longrightarrow> hash_at chain n h)"
    using rpc_faithful [OF _ rpc] assms(1) by (simp add: peer_ok_def hash_at_def)
  with assms url rpc show ?thesis
    by (cases x) (auto simp: fallback_to_official_rpc_def peer_ok_def same_frame_def cache_sound_insert)
qed

text \<open>One round of the loop: found, on to the next range, or decided by the official RPC.\<close>

lemma backfill_loop_cases:
  assumes "backfill_loop env h sz i (e # ends) self = Returns (r, self')"
  obtains (found) n where "try_block_range_for_hash env (max (saturating_sub e sz) 1) e h self = Returns (Ok (Some n), self')"
      "r = Some n"
    | (continue) r1 p1 where "try_block_range_for_hash env (max (saturating_sub e sz) 1) e h self = Returns (r1, p1)"
      "backfill_loop env h sz (i + 1) ends p1 = Returns (r, self')"
    | (rpc_failed) r1 p1 x p2 where "try_block_range_for_hash env (max (saturating_sub e sz) 1) e h self = Returns (r1, p1)"
      "fallback_to_official_rpc env h p1 = Returns (Err x, p2)"
      "backfill_loop env h sz (i + 1) ends p2 = Returns (r, self')"
    | (rpc) r1 p1 n p2 where "try_block_range_for_hash env (max (saturating_sub e sz) 1) e h self = Returns (r1, p1)"
      "fallback_to_official_rpc env h p1 = Returns (Ok n, p2)" "r = Some n"
      "warm_cache_around_blocks env n (pp_warm_cache_size p2) p2 = Returns self'"
proof -
  let ?next = "backfill_loop env h sz (i + 1) ends"
  obtain r1 p1 where step: "try_block_range_for_hash env (max (saturating_sub e sz) 1) e h self = Returns (r1, p1)"
    using assms by (auto simp: Let_def run_bind_eq_Returns_iff)
  note rest = assms [unfolded backfill_loop.simps Let_def step run_bind_simps prod.case]
  consider (hit) n where "r1 = Ok (Some n)" | (early) "\<nexists>n. r1 = Ok (Some n)" "i < TRY_OFFICIAL_RPC_THRESHOLD"
    | (late) "\<nexists>n. r1 = Ok (Some n)" "TRY_OFFICIAL_RPC_THRESHOLD \<le> i" by force
  then show thesis
  proof cases
    case hit
    with rest step show thesis by (intro found [of n]) simp_all
  next
    case early
    with rest have "?next p1 = Returns (r, self')" by (auto split: sum.splits option.splits)
    with step show thesis by (rule continue)
  next
    case late
    with rest have "run_bind (fallback_to_official_rpc env h p1) (\<lambda>(r, self). case r of
          Ok number \<Rightarrow> run_bind (warm_cache_around_blocks env number (pp_warm_cache_size self) self)
            (\<lambda>self. Returns (Some number, self))
        | Err _ \<Rightarrow> ?next self) = Returns (r, self')"
      by (auto split: sum.splits option.splits)
    then obtain r2 p2 where "fallback_to_official_rpc env h p1 = Returns (r2, p2)"
      "(case r2 of Ok number \<Rightarrow> run_bind (warm_cache_around_blocks env number (pp_warm_cache_size p2) p2)
            (\<lambda>self. Returns (Some number, self))
        | Err _ \<Rightarrow> ?next p2) = Returns (r, self')"
      by (auto simp: run_bind_eq_Returns_iff)
    with step show thesis by (cases r2) (auto simp: run_bind_eq_Returns_iff intro: rpc_failed rpc)
  qed
qed

lemma backfill_loop_ok:
  assumes "peer_ok good chain self" "backfill_loop env h sz i ends self = Returns (r, self')"
  shows "peer_ok good chain self' \<and> same_frame self self' \<and> (\<forall>n. r = Some n \<longrightarrow> hash_at chain n h)"
  using assms
proof (induction ends arbitrary: i self)
  case (Cons e ends)
  note range = try_block_range_ok [OF Cons.prems(1)]
  from Cons.prems(2) show ?case
  proof (cases rule: backfill_loop_cases)
    case (found n)
    with range [OF found(1)] show ?thesis by simp
  next
    case (continue r1 p1)
    with range [OF continue(1)] Cons.IH [OF _ continue(2)] show ?thesis by (blast intro: same_frame_trans)
  next
    case (rpc_failed r1 p1 x p2)
    note s1 = range [OF rpc_failed(1)]
    with fallback_ok [OF _ rpc_failed(2)] have s2: "peer_ok good chain p2" "same_frame p1 p2" by blast+
    with Cons.IH [OF s2(1) rpc_failed(3)] s1 show ?thesis by (blast intro: same_frame_trans)
  next
    case (rpc r1 p1 n p2)
    note s1 = range [OF rpc(1)]
    with fallback_ok [OF _ rpc(2)] have s2: "peer_ok good chain p2" "same_frame p1 p2" "hash_at chain n h" by auto
    with warm_ok [OF s2(1) rpc(4)] s1 rpc(3) show ?thesis by (auto intro: same_frame_trans)
  qed
qed simp

lemma backfill_retries_ok:
  assumes "peer_ok good chain self" "backfill_retries env h l k self = Returns (n, self')"
  shows "peer_ok good chain self' \<and> hash_at chain n h"
  using assms
proof (induction k arbitrary: self)
  case (Suc k)
  from Suc.prems(2) obtain r p where step: "backfill_cache_for_hash env h l self = Returns (r, p)"
    "(case r of Ok (Some number) \<Rightarrow> Returns (number, p) | _ \<Rightarrow> backfill_retries env h l k p) = Returns (n, self')"
    by (auto simp: run_bind_eq_Returns_iff)
  from step(1) obtain r0 where "r = Ok r0"
    "backfill_loop env h (src_chunk (pe_src env)) 0 (step_by (unat (src_chunk (pe_src env))) (rev (range_incl_u64 1 l))) self
      = Returns (r0, p)"
    by (auto simp: backfill_cache_for_hash_def Let_def run_bind_eq_Returns_iff split: if_splits)
  with backfill_loop_ok [OF Suc.prems(1)] have "peer_ok good chain p" "r = Ok r0" "\<And>m. r0 = Some m \<Longrightarrow> hash_at chain m h" by auto
  with step(2) Suc.IH [of p] show ?case by (cases r0) auto
qed simp

lemma hash_to_block_number_ok:
  assumes "peer_ok good chain self" "hash_to_block_number env h self = Returns (n, self')"
  shows "peer_ok good chain self' \<and> hash_at chain n h"
proof -
  from assms(2) obtain c p where c: "try_get_cached_block_number env h self = Returns (c, p)"
    by (auto simp: hash_to_block_number_def run_bind_eq_Returns_iff)
  note p = try_get_cached_ok [OF assms(1) c]
  show ?thesis
  proof (cases c)
    case (Some m)
    with assms(2) c p show ?thesis by (auto simp: hash_to_block_number_def)
  next
    case None
    with assms(2) c obtain s l where l: "src_latest (pe_src env) (pp_source p) = Returns (s, Some l)"
      "backfill_retries env h l BACKFILL_RETRY_LIMIT (p\<lparr>pp_source := s, pp_known_latest := l\<rparr>) = Returns (n, self')"
      by (auto simp: hash_to_block_number_def run_bind_eq_Returns_iff unwrap_def split: option.splits)
    have "good s" using latest_good [OF _ l(1)] p by (simp add: peer_ok_def)
    with p have "peer_ok good chain (p\<lparr>pp_source := s, pp_known_latest := l\<rparr>)" by (simp add: peer_ok_def)
    from backfill_retries_ok [OF this l(2)] show ?thesis .
  qed
qed

end

section \<open>The backfill covers the chain\<close>

lemma step_by_nth:
  assumes "0 < c" "i < length xs"
  shows "xs ! (c * (i div c)) \<in> set (step_by c xs)"
  using assms
proof (induction c xs arbitrary: i rule: step_by.induct)
  case (2 c x xs)
  show ?case
  proof (cases "i < c")
    case True
    then show ?thesis by simp
  next
    case False
    have "0 < c" by (rule "2.prems")
    have "c \<le> i" using False by simp
    have "i - c < length (drop (c - 1) xs)" using \<open>0 < c\<close> \<open>c \<le> i\<close> "2.prems" by simp
    then have "drop (c - 1) xs ! (c * ((i - c) div c)) \<in> set (step_by c (drop (c - 1) xs))"
      using \<open>0 < c\<close> by (intro "2.IH") simp_all
    moreover have "i div c = Suc ((i - c) div c)"
      using \<open>0 < c\<close> \<open>c \<le> i\<close> by (simp add: le_div_geq)
    then have "c * (i div c) = Suc (c - 1 + c * ((i - c) div c))" using \<open>0 < c\<close> by simp
    moreover have "c - 1 \<le> length xs" using False "2.prems" by simp
    ultimately show ?thesis by simp
  qed
qed simp

lemma unat_rev_range_nth:
  assumes "j < unat l"
  shows "unat (rev (range_incl_u64 1 l) ! j) = unat l - j"
proof -
  have "map unat (range_incl_u64 1 l) ! (unat l - Suc j) = [1 ..< Suc (unat l)] ! (unat l - Suc j)"
    by (simp only: map_unat_range_incl_u64 unat_1)
  with assms show ?thesis by (simp add: rev_nth del: upt_Suc)
qed

lemma backfill_covers:
  assumes "0 < chunk" "1 \<le> n" "n \<le> l"
  shows "\<exists>e \<in> set (step_by (unat chunk) (rev (range_incl_u64 1 l))). max (saturating_sub e chunk) 1 \<le> n \<and> n \<le> e"
proof -
  let ?j = "unat l - unat n" and ?c = "unat chunk"
  have c: "0 < ?c" using assms(1) by (simp add: word_less_nat_alt)
  have n: "1 \<le> unat n" "unat n \<le> unat l" using assms(2,3) by (simp_all add: word_le_nat_alt)
  let ?k = "?c * (?j div ?c)"
  have k: "?k \<le> ?j" "?j < ?k + ?c"
    using c by (simp_all add: mult.commute) (metis div_mult_mod_eq mod_less_divisor add_less_cancel_left mult.commute)
  let ?e = "rev (range_incl_u64 1 l) ! ?k"
  have "?j < length (rev (range_incl_u64 1 l))" using n by simp
  with c have mem: "?e \<in> set (step_by ?c (rev (range_incl_u64 1 l)))" by (rule step_by_nth)
  have "?k < unat l" using k(1) n by linarith
  then have e: "unat ?e = unat l - ?k" by (rule unat_rev_range_nth)
  have "max (saturating_sub ?e chunk) 1 \<le> n \<and> n \<le> ?e"
  proof -
    have "unat n \<le> unat ?e" using e k(1) n by linarith
    moreover have "unat ?e - ?c \<le> unat n" using e k n by linarith
    ultimately show ?thesis using n(1) by (auto simp: max_def word_le_nat_alt)
  qed
  with mem show ?thesis by blast
qed

lemma step_by_subset: "set (step_by c xs) \<subseteq> set xs"
  by (induction c xs rule: step_by.induct) (auto dest: in_set_dropD)

context complete_peer
begin

lemma collect_total:
  assumes "peer_ok good chain self" "\<forall>n \<in> set ns. 1 \<le> n \<and> n \<le> latest"
  shows "\<exists>bs self'. collect_blocks env ns self = Returns (Ok bs, self')"
proof -
  have one: "\<exists>y p'. peer_collect_block env n p = Returns (y, p') \<and> peer_ok good chain p' \<and> (\<exists>b. y = Ok b)"
    if "n \<in> set ns" "peer_ok good chain p" for n p
  proof -
    have "good (pp_source p)" "1 \<le> n" "n \<le> latest" using that assms(2) by (auto simp: peer_ok_def)
    from collect_complete [OF this] obtain s b
      where "src_collect (pe_src env) n (pp_source p) = Returns (s, Ok b)" by blast
    then have "peer_collect_block env n p = Returns (Ok b, p\<lparr>pp_source := s\<rparr>)"
      by (simp add: peer_collect_block_def)
    moreover from collect_one [OF that(2) this] have "peer_ok good chain (p\<lparr>pp_source := s\<rparr>)" by simp
    ultimately show ?thesis by blast
  qed
  from run_map_state_Returns [of ns "peer_ok good chain" "peer_collect_block env" "\<lambda>_ y. \<exists>b. y = Ok b", OF one assms(1)]
  obtain res p' where run: "run_map_state (peer_collect_block env) ns self = Returns (res, p')"
    and all: "list_all2 (\<lambda>_ y. \<exists>b. y = Ok b) ns res" by blast
  have "\<not> (\<exists>e. Err e \<in> set res)"
    using all by (auto simp: list_all2_conv_all_nth in_set_conv_nth)
  then obtain bs where "collect_results res = Ok bs"
    by (cases "collect_results res") (auto simp: collect_results_Err_iff [symmetric])
  with run show ?thesis by (simp add: collect_blocks_def)
qed

lemma uncached_covers:
  assumes "cache_sound chain (pp_cache self)" "get_cached_block_hashes self a b = (cached, uncached)"
    and "cached h = None" "hash_at chain n h" "a \<le> n" "n \<le> b"
  shows "n \<in> set uncached"
proof (rule ccontr)
  assume "n \<notin> set uncached"
  with assms(2,5,6) have "get_by_right (pp_cache self) n \<noteq> None"
    by (auto simp: get_cached_block_hashes_def Let_def o_def set_range_incl_u64)
  then obtain h' where h': "get_by_right (pp_cache self) n = Some h'" by blast
  with assms(1) have "hash_at chain n h'" by (simp add: cache_sound_def)
  with assms(4) have "h' = h" by (auto simp: hash_at_def)
  with h' assms(5,6) have "(h, n) \<in> set (List.map_filter (\<lambda>n. map_option (\<lambda>h. (h, n)) (get_by_right (pp_cache self) n))
    (filter (\<lambda>n. get_by_right (pp_cache self) n \<noteq> None) (range_incl_u64 a b)))"
    by (force simp: List.map_filter_def set_range_incl_u64)
  with assms(2,3) show False
    by (force simp: get_cached_block_hashes_def Let_def map_of_eq_None_iff)
qed

lemma try_block_range_total:
  assumes "peer_ok good chain self" "1 \<le> a" "b \<le> latest"
  shows "\<exists>r self'. try_block_range_for_hash env a b h self = Returns (Ok r, self') \<and>
    (\<forall>n. hash_at chain n h \<longrightarrow> a \<le> n \<longrightarrow> n \<le> b \<longrightarrow> r \<noteq> None)"
proof -
  obtain cached uncached where c: "get_cached_block_hashes self a b = (cached, uncached)"
    by (cases "get_cached_block_hashes self a b")
  have unc: "uncached = filter (\<lambda>n. get_by_right (pp_cache self) n = None) (range_incl_u64 a b)"
    using c by (auto simp: get_cached_block_hashes_def Let_def o_def)
  have sound: "cache_sound chain (pp_cache self)" using assms(1) by (simp add: peer_ok_def)
  note hit = uncached_covers [OF sound c]
  show ?thesis
  proof (cases "cached h")
    case (Some n)
    then show ?thesis by (auto simp: try_block_range_for_hash_def c)
  next
    case None
    show ?thesis
    proof (cases "uncached = []")
      case True
      with None hit [OF None] show ?thesis by (auto simp: try_block_range_for_hash_def c)
    next
      case False
      have "\<forall>n \<in> set uncached. 1 \<le> n \<and> n \<le> latest"
        using assms(2,3) by (auto simp: unc set_range_incl_u64)
      from collect_total [OF assms(1) this] obtain bs p where
        col: "collect_blocks env uncached self = Returns (Ok bs, p)" by blast
      have bs: "map chain uncached = map Some bs" using collect_blocks_ok [OF assms(1) col] by blast
      let ?m = "map_of (rev (map (\<lambda>b. (bar_hash b, bar_number b)) bs))"
      have "?m h \<noteq> None" if "hash_at chain n h" "a \<le> n" "n \<le> b" for n
      proof -
        have "chain n \<in> set (map chain uncached)" using hit [OF None that] by simp
        then have "chain n \<in> Some ` set bs" unfolding bs by simp
        then obtain b0 where "b0 \<in> set bs" "chain n = Some b0" by auto
        with that(1) have "h \<in> bar_hash ` set bs" by (auto simp: hash_at_def)
        then show ?thesis by (auto simp: map_of_eq_None_iff image_image)
      qed
      with None False col show ?thesis by (auto simp: try_block_range_for_hash_def c Let_def)
    qed
  qed
qed

lemma warm_total:
  assumes "peer_ok good chain self" "pp_known_latest self \<le> latest"
  shows "\<exists>self'. warm_cache_around_blocks env n sz self = Returns self'"
proof -
  let ?a = "max (saturating_sub n sz) 1" and ?b = "min (n + sz) (pp_known_latest self)"
  let ?p = "self\<lparr>pp_warm_around := insert ?b (insert ?a (pp_warm_around self))\<rparr>"
  have "peer_ok good chain ?p" using assms(1) by (simp add: peer_ok_def)
  moreover have "?b \<le> latest" using assms(2) by (simp add: min.coboundedI2)
  ultimately obtain r p where "try_block_range_for_hash env ?a ?b 0 ?p = Returns (Ok r, p)"
    using try_block_range_total [of ?p ?a ?b 0] by auto
  then show ?thesis by (simp add: warm_cache_around_blocks_def Let_def)
qed

lemma fallback_total: "\<exists>r p. fallback_to_official_rpc env h self = Returns (r, p)"
proof -
  obtain url where "official_rpc_url (pe_chain_spec env) = Returns url" using known_chain by blast
  then show ?thesis
    by (auto simp: fallback_to_official_rpc_def split: prod.splits sum.splits)
qed

lemma backfill_loop_total:
  assumes "peer_ok good chain self" "pp_known_latest self \<le> latest" "\<forall>e \<in> set ends. e \<le> latest"
  shows "\<exists>r self'. backfill_loop env h sz i ends self = Returns (r, self') \<and>
    (\<forall>n. hash_at chain n h \<longrightarrow> (\<exists>e \<in> set ends. max (saturating_sub e sz) 1 \<le> n \<and> n \<le> e) \<longrightarrow> r \<noteq> None)"
  using assms
proof (induction ends arbitrary: i self)
  case (Cons e ends)
  let ?a = "max (saturating_sub e sz) 1"
  have e: "1 \<le> ?a" "e \<le> latest" using Cons.prems(3) by auto
  from try_block_range_total [OF Cons.prems(1) e, of h] obtain r1 p1 where
    rp: "try_block_range_for_hash env ?a e h self = Returns (Ok r1, p1) \<and>
      (\<forall>n. hash_at chain n h \<longrightarrow> ?a \<le> n \<longrightarrow> n \<le> e \<longrightarrow> r1 \<noteq> None)" by (elim exE)
  note step = rp [THEN conjunct1] and found = rp [THEN conjunct2, rule_format]
  have p1: "peer_ok good chain p1" "pp_known_latest p1 \<le> latest"
    using try_block_range_ok [OF Cons.prems(1) step] Cons.prems(2) by (auto simp: same_frame_def)
  have ends: "\<forall>e \<in> set ends. e \<le> latest" using Cons.prems(3) by simp
  show ?case
  proof (cases r1)
    case (Some n)
    then show ?thesis by (simp add: step)
  next
    case None
    have goal: "\<exists>r self'. backfill_loop env h sz i (e # ends) self = Returns (r, self') \<and>
        (\<forall>n. hash_at chain n h \<longrightarrow> (\<exists>e \<in> set (e # ends). max (saturating_sub e sz) 1 \<le> n \<and> n \<le> e) \<longrightarrow> r \<noteq> None)"
      if "backfill_loop env h sz i (e # ends) self = backfill_loop env h sz (i + 1) ends p"
        "peer_ok good chain p" "pp_known_latest p \<le> latest" for p
      using Cons.IH [OF that(2,3) ends, of "i + 1"] found None that(1) by fastforce
    show ?thesis
    proof (cases "i \<ge> TRY_OFFICIAL_RPC_THRESHOLD")
      case late: True
      obtain r2 p2 where fb: "fallback_to_official_rpc env h p1 = Returns (r2, p2)"
        using fallback_total by blast
      have p2: "peer_ok good chain p2" "pp_known_latest p2 \<le> latest"
        using fallback_ok [OF p1(1) fb] p1(2) by (auto simp: same_frame_def)
      show ?thesis
      proof (cases r2)
        case (Inl x)
        have "backfill_loop env h sz i (e # ends) self = backfill_loop env h sz (i + 1) ends p2"
          using late by (simp add: step None fb Inl)
        from this p2 show ?thesis by (rule goal)
      next
        case (Inr n)
        obtain p3 where "warm_cache_around_blocks env n (pp_warm_cache_size p2) p2 = Returns p3"
          using warm_total [OF p2] by blast
        with late show ?thesis by (simp add: step None fb Inr)
      qed
    next
      case False
      then have "backfill_loop env h sz i (e # ends) self = backfill_loop env h sz (i + 1) ends p1"
        by (simp add: step None)
      from this p1 show ?thesis by (rule goal)
    qed
  qed
qed simp

lemma hash_to_block_number_total:
  assumes "peer_ok good chain self" "pp_known_latest self \<le> latest"
    and "hash_at chain n h" "1 \<le> n" "n \<le> latest"
  shows "\<exists>m self'. hash_to_block_number env h self = Returns (m, self')"
proof -
  have "\<exists>c p. try_get_cached_block_number env h self = Returns (c, p)"
  proof (cases "get_by_left (pp_cache self) h")
    case (Some k)
    obtain p where "warm_cache_around_blocks env k (pp_warm_cache_size self) self = Returns p"
      using warm_total [OF assms(1,2)] by blast
    with Some show ?thesis by (simp add: try_get_cached_block_number_def)
  qed (simp add: try_get_cached_block_number_def)
  then obtain c p where c: "try_get_cached_block_number env h self = Returns (c, p)" by blast
  note p = try_get_cached_ok [OF assms(1) c]
  show ?thesis
  proof (cases c)
    case (Some m)
    then show ?thesis by (simp add: hash_to_block_number_def c)
  next
    case None
    obtain s where s: "src_latest (pe_src env) (pp_source p) = Returns (s, Some latest)"
      using latest_known p by (auto simp: peer_ok_def)
    let ?p = "p\<lparr>pp_source := s, pp_known_latest := latest\<rparr>"
    let ?ends = "step_by (unat (src_chunk (pe_src env))) (rev (range_incl_u64 1 latest))"
    have ok: "peer_ok good chain ?p" using p latest_good [OF _ s] by (simp add: peer_ok_def)
    have ends: "\<forall>e \<in> set ?ends. e \<le> latest"
      using step_by_subset [of _ "rev (range_incl_u64 1 latest)"] by (force simp: set_range_incl_u64)
    have chunk: "0 < src_chunk (pe_src env)" using chunk_positive by (simp add: word_neq_0_conv)
    obtain r p' where loop: "backfill_loop env h (src_chunk (pe_src env)) 0 ?ends ?p = Returns (r, p')" "r \<noteq> None"
      using backfill_loop_total [OF ok _ ends, of h "src_chunk (pe_src env)" 0]
        backfill_covers [OF chunk assms(4,5)] assms(3) by auto
    then obtain m where "r = Some m" by blast
    then have "backfill_cache_for_hash env h latest ?p = Returns (Ok (Some m), p')"
      using loop(1) chunk_positive by (simp add: backfill_cache_for_hash_def Let_def)
    then show ?thesis
      by (simp add: hash_to_block_number_def c None s BACKFILL_RETRY_LIMIT_def eval_nat_numeral)
  qed
qed

end

section \<open>Requests\<close>

definition bar_header :: "block_and_receipts \<Rightarrow> header" where
  "bar_header b = (case bar_block b of Reth115 sb \<Rightarrow> sh_header (sb_header sb))"

lemma to_reth_block_bar_header:
  "to_reth_block post cid b st = Returns (blk, st') \<Longrightarrow> block_header blk = bar_header b"
  by (auto simp: to_reth_block_def sealed_to_reth_block_def bar_header_def Let_def
      run_bind_eq_Returns_iff split: evm_block.splits)

lemma convert_blocks_headers:
  assumes "convert_blocks env bs self = Returns (blks, self')"
  shows "map block_header blks = map bar_header bs"
proof -
  from assms obtain st where
    "run_map_state (to_reth_block (pe_post env) (chain_id (pe_chain_spec env))) bs (pp_spot self) = Returns (blks, st)"
    by (auto simp: convert_blocks_def run_bind_eq_Returns_iff)
  then have "list_all2 (\<lambda>b blk. block_header blk = bar_header b) bs blks"
    by (rule run_map_state_list_all2) (rule to_reth_block_bar_header)
  then show ?thesis by (auto simp: list_all2_conv_all_nth list_eq_iff_nth_eq)
qed

lemma convert_blocks_bodies:
  assumes "convert_blocks env bs self = Returns (blks, self')"
  shows "list_all2 (\<lambda>b blk. \<exists>st st'. to_reth_block (pe_post env) (chain_id (pe_chain_spec env)) b st =
    Returns (blk, st')) bs blks"
proof -
  from assms obtain st where
    "run_map_state (to_reth_block (pe_post env) (chain_id (pe_chain_spec env))) bs (pp_spot self) = Returns (blks, st)"
    by (auto simp: convert_blocks_def run_bind_eq_Returns_iff)
  then show ?thesis by (rule run_map_state_list_all2) blast
qed

lemma headers_response:
  assumes "process_eth_request env (GetBlockHeaders (AtNumber n) limit skip dir) self =
      Returns (Ok (BlockHeaders hs), self')"
  obtains bs p where
    "collect_blocks env (case dir of Rising \<Rightarrow> range_u64 n (n + limit)
       | Falling \<Rightarrow> rev (range_u64 (n + 1 - limit) (n + 1))) self = Returns (Ok bs, p)"
    "hs = map bar_header bs"
proof -
  from assms obtain r p where col: "collect_blocks env (case dir of Rising \<Rightarrow> range_u64 n (n + limit)
       | Falling \<Rightarrow> rev (range_u64 (n + 1 - limit) (n + 1))) self = Returns (r, p)"
    by (auto simp: process_eth_request_def run_bind_eq_Returns_iff)
  with assms obtain bs where bs: "r = Ok bs"
    by (cases r) (auto simp: process_eth_request_def)
  with assms col obtain blks q where "convert_blocks env bs p = Returns (blks, q)" "hs = map block_header blks"
    by (auto simp: process_eth_request_def run_bind_eq_Returns_iff)
  with convert_blocks_headers that col bs show thesis by metis
qed

section \<open>Properties\<close>

text \<open>
  C4. A hash of the chain is always found. If the source has every block from 1 to the
  latest, a request for the hash of one of them ends with the height of a block of that
  hash, whatever the cache holds, whatever is evicted while it is filled, and whether or
  not the official RPC server answers; and what the peer then knows is still true.
\<close>

theorem hash_to_block_number_correct:
  assumes "complete_peer env good chain latest" "peer_ok good chain self" "pp_known_latest self \<le> latest"
    and "chain n = Some b" "1 \<le> n" "n \<le> latest"
  shows "\<exists>m b' self'. hash_to_block_number env (bar_hash b) self = Returns (m, self') \<and>
    chain m = Some b' \<and> bar_hash b' = bar_hash b \<and> peer_ok good chain self'"
proof -
  have at: "hash_at chain n (bar_hash b)" using assms(4) by (simp add: hash_at_def)
  from complete_peer.hash_to_block_number_total [OF assms(1-3) at assms(5,6)] obtain m self'
    where run: "hash_to_block_number env (bar_hash b) self = Returns (m, self')" by blast
  moreover have "peer_setting env good chain" using assms(1) by (simp add: complete_peer_def)
  from peer_setting.hash_to_block_number_ok [OF this assms(2) run]
  have "peer_ok good chain self'" "hash_at chain m (bar_hash b)" by auto
  ultimately show ?thesis by (auto simp: hash_at_def)
qed

text \<open>
  Bodies belong to the hashes asked for. When the peer answers a request for bodies,
  the answer has one body for each hash, in order, and each is the body of a block of
  the chain with that hash.
\<close>

theorem block_bodies_correct:
  assumes "peer_setting env good chain" "peer_ok good chain self"
    and "process_eth_request env (GetBlockBodies hashes) self = Returns (Ok (BlockBodies bodies), self')"
  shows "list_all2 (\<lambda>h body. \<exists>n b st blk st'. chain n = Some b \<and> bar_hash b = h \<and>
      to_reth_block (pe_post env) (chain_id (pe_chain_spec env)) b st = Returns (blk, st') \<and>
      body = block_body blk) hashes bodies"
proof -
  from assms(3) obtain ns p where ns: "run_map_state (hash_to_block_number env) hashes self = Returns (ns, p)"
    by (auto simp: process_eth_request_def run_bind_eq_Returns_iff)
  have inv: "peer_ok good chain p \<and> list_all2 (\<lambda>h n. hash_at chain n h) hashes ns"
    by (rule run_map_state_invariant [where I = "peer_ok good chain" and R = "\<lambda>h n. hash_at chain n h",
          OF _ assms(2) ns])
      (use peer_setting.hash_to_block_number_ok [OF assms(1)] in blast)
  from assms(3) ns obtain r q where col: "collect_blocks env ns p = Returns (r, q)"
    by (auto simp: process_eth_request_def run_bind_eq_Returns_iff)
  with assms(3) ns obtain bs where r: "r = Ok bs"
    by (cases r) (auto simp: process_eth_request_def)
  with assms(3) ns col obtain blks q' where conv: "convert_blocks env bs q = Returns (blks, q')"
    and bodies: "bodies = map block_body blks"
    by (auto simp: process_eth_request_def run_bind_eq_Returns_iff)
  have chain: "map chain ns = map Some bs"
    using peer_setting.collect_blocks_ok [OF assms(1) conjunct1 [OF inv] col] r by blast
  note blks = convert_blocks_bodies [OF conv]
  have len: "length hashes = length bs" "length bodies = length bs"
    using inv map_eq_imp_length_eq [OF chain] blks bodies by (auto dest: list_all2_lengthD)
  show ?thesis
  proof (rule list_all2_all_nthI)
    fix i assume "i < length hashes"
    with len have i: "i < length bs" by simp
    have c: "chain (ns ! i) = Some (bs ! i)"
      using arg_cong [OF chain, of "\<lambda>xs. xs ! i"] i map_eq_imp_length_eq [OF chain] by simp
    have "hash_at chain (ns ! i) (hashes ! i)" using inv i len by (simp add: list_all2_conv_all_nth)
    with c have h: "bar_hash (bs ! i) = hashes ! i" by (simp add: hash_at_def)
    obtain st st' where "to_reth_block (pe_post env) (chain_id (pe_chain_spec env)) (bs ! i) st = Returns (blks ! i, st')"
      using blks i by (auto simp: list_all2_conv_all_nth)
    moreover have "bodies ! i = block_body (blks ! i)"
      using i bodies list_all2_lengthD [OF blks] by simp
    ultimately show "\<exists>n b st blk st'. chain n = Some b \<and> bar_hash b = hashes ! i \<and>
      to_reth_block (pe_post env) (chain_id (pe_chain_spec env)) b st = Returns (blk, st') \<and>
      bodies ! i = block_body blk" using c h by blast
  qed (simp add: len)
qed

text \<open>
  Headers are the chain's, in the order asked for: rising from the start, or falling
  from it, as many as the limit says, as long as the range of heights does not leave the
  64-bit numbers.
\<close>

theorem block_headers_correct:
  assumes "peer_setting env good chain" "peer_ok good chain self"
    and "process_eth_request env (GetBlockHeaders (AtNumber n) limit skip dir) self =
      Returns (Ok (BlockHeaders hs), self')"
    and "unat n + unat limit < 2 ^ 64" "unat n < 2 ^ 64 - 1"
    and "dir = Falling \<longrightarrow> unat limit \<le> unat n + 1"
  shows "length hs = unat limit \<and> (\<forall>i < unat limit. \<exists>b. chain (case dir of
      Rising \<Rightarrow> n + of_nat i | Falling \<Rightarrow> n - of_nat i) = Some b \<and> hs ! i = bar_header b)"
proof -
  let ?ns = "case dir of Rising \<Rightarrow> range_u64 n (n + limit) | Falling \<Rightarrow> rev (range_u64 (n + 1 - limit) (n + 1))"
  from assms(3) obtain bs p where col: "collect_blocks env ?ns self = Returns (Ok bs, p)" "hs = map bar_header bs"
    by (rule headers_response)
  have chain: "map chain ?ns = map Some bs"
    using peer_setting.collect_blocks_ok [OF assms(1,2) col(1)] by blast
  have ns: "length ?ns = unat limit \<and> (\<forall>i < unat limit. ?ns ! i = (case dir of
      Rising \<Rightarrow> n + of_nat i | Falling \<Rightarrow> n - of_nat i))"
  proof (cases dir)
    case Rising
    have "unat (n + limit) = unat n + unat limit" using assms(4) by (rule unat_add_no_wrap)
    with Rising show ?thesis by (simp add: range_u64_def)
  next
    case Falling
    have n1: "unat (n + 1) = unat n + 1" using unat_Suc_no_wrap [of n] assms(5) by simp
    have lo: "unat (n + 1 - limit) = unat n + 1 - unat limit"
      using assms(6) Falling n1 by (subst unat_sub_no_wrap) simp_all
    have "rev (range_u64 (n + 1 - limit) (n + 1)) ! i = n - of_nat i" if "i < unat limit" for i
    proof -
      have i: "i \<le> unat n" using that assms(6) Falling by simp
      have "rev (range_u64 (n + 1 - limit) (n + 1)) ! i = of_nat (unat n - i)"
        using that assms(6) Falling by (simp add: range_u64_def rev_nth lo n1 del: upt_Suc)
      also have "\<dots> = n - of_nat i" using i by (simp add: of_nat_diff)
      finally show ?thesis .
    qed
    with Falling assms(6) lo n1 show ?thesis by simp
  qed
  have len: "length bs = unat limit" using map_eq_imp_length_eq [OF chain] ns by simp
  have "chain (?ns ! i) = Some (bs ! i)" if "i < unat limit" for i
    using arg_cong [OF chain, of "\<lambda>xs. xs ! i"] that len ns by simp
  with ns len col(2) show ?thesis by auto
qed

text \<open>
  C38. A falling request that reaches below height zero is answered with no headers at all,
  not with the headers down to the start of the chain: the start of the range wraps
  around and the range is empty.
\<close>

theorem falling_headers_below_zero:
  assumes "unat n < 2 ^ 64 - 1" "unat n + 1 < unat limit"
  shows "process_eth_request env (GetBlockHeaders (AtNumber n) limit skip Falling) self =
    Returns (Ok (BlockHeaders []), self)"
proof -
  have n1: "unat (n + 1) = unat n + 1" using unat_Suc_no_wrap [of n] assms(1) by simp
  have "unat (n + 1 - limit) = 2 ^ 64 + (unat n + 1) - unat limit"
    using assms(2) n1 unat_u64_less [of limit] by (simp add: unat_sub_if_size word_size)
  then have "range_u64 (n + 1 - limit) (n + 1) = []"
    using assms(2) n1 unat_u64_less [of limit] by (simp add: range_u64_def)
  then show ?thesis
    by (simp add: process_eth_request_def collect_blocks_def convert_blocks_def)
qed

text \<open>
  The poller announces every block once and in order. After any number of polls the
  blocks sent so far are those of consecutive heights, starting at the height that was
  the latest when the poller started, and each is the chain's block of its height; a poll
  that finds no block changes nothing but the source.
\<close>

theorem poller_consecutive:
  fixes env :: "('s, 'l, 'e, 'g) peer_env"
  assumes "faithful_source (pe_src env) good chain" "good s"
    and "poller_start env s = Returns (Ok p0)" "poller_run env k p0 = Returns p"
  shows "(\<forall>i < length (po_sent p). fst (po_sent p ! i) = po_next p0 + of_nat i \<and>
      chain (fst (po_sent p ! i)) = Some (snd (po_sent p ! i))) \<and>
    po_next p = po_next p0 + of_nat (length (po_sent p))"
proof -
  define ok :: "'s poller \<Rightarrow> bool" where "ok q \<longleftrightarrow> good (po_source q) \<and>
    (\<forall>i < length (po_sent q). fst (po_sent q ! i) = po_next p0 + of_nat i \<and>
      chain (fst (po_sent q ! i)) = Some (snd (po_sent q ! i))) \<and>
    po_next q = po_next p0 + of_nat (length (po_sent q))" for q
  have step: "ok q'" if "ok q" "poller_step env q = Returns q'" for q q'
  proof -
    from that(2) obtain s' r where run: "src_collect (pe_src env) (po_next q) (po_source q) = Returns (s', r)"
      by (auto simp: poller_step_def run_bind_eq_Returns_iff)
    have f: "good s' \<and> (\<forall>b. r = Ok b \<longrightarrow> chain (po_next q) = Some b)"
      using that(1) by (intro faithful_source.collect_faithful [OF assms(1) _ run]) (simp add: ok_def)
    show ?thesis
    proof (cases r)
      case (Inl e)
      with that run f show ?thesis by (auto simp: poller_step_def ok_def)
    next
      case (Inr b)
      with that(2) run have q': "q' = q\<lparr>po_source := s', po_sent := po_sent q @ [(po_next q, b)], po_next := po_next q + 1\<rparr>"
        by (simp add: poller_step_def)
      show ?thesis using that(1) f Inr by (auto simp: q' ok_def nth_append less_Suc_eq)
    qed
  qed
  have "ok q'" if "ok q" "poller_run env k q = Returns q'" for k q q'
    using that
  proof (induction k arbitrary: q)
    case (Suc k)
    then obtain q1 where "poller_step env q = Returns q1" "poller_run env k q1 = Returns q'"
      by (auto simp: run_bind_eq_Returns_iff)
    with Suc step show ?case by blast
  qed simp
  moreover have "ok p0"
    using assms(2,3) faithful_source.latest_good [OF assms(1)]
    by (auto simp: poller_start_def run_bind_eq_Returns_iff ok_def split: option.splits)
  ultimately have "ok p" using assms(4) by blast
  then show ?thesis unfolding ok_def by blast
qed

section \<open>An example\<close>

text \<open>A peer over the local directory of the example, whose RPC server never answers.\<close>

definition example_peer_env :: "(unit, b256 list, unit, unit) peer_env" where
  "example_peer_env = \<lparr>pe_src = local_source example_fs ''/blocks'', pe_lru = example_lru 2,
     pe_iter = (\<lambda>m. List.map_filter (\<lambda>h. map_option (Pair h) (m h)) (map of_nat [0 ..< 2 ^ 256])),
     pe_rpc = (\<lambda>url h s. (s, Err ())), pe_chain_spec = hl_mainnet (), pe_post = (\<lambda>_ _. Err ()),
     pe_hash_slow = (\<lambda>hdr. ucast (hdr_number hdr))\<rparr>"


lemma example_peer_env_simps [simp]:
  "pe_src example_peer_env = local_source example_fs ''/blocks''" "pe_lru example_peer_env = example_lru 2"
  "pe_rpc example_peer_env url h s = (s, Err ())" "pe_chain_spec example_peer_env = hl_mainnet ()"
  by (simp_all add: example_peer_env_def)

lemma in_set_map_filter: "y \<in> set (List.map_filter f xs) \<longleftrightarrow> (\<exists>x \<in> set xs. f x = Some y)"
  by (induction xs) (auto simp: List.map_filter_simps split: option.splits)

lemma example_iter: "(h, n) \<in> set (pe_iter example_peer_env m) \<longleftrightarrow> m h = Some n"
proof -
  have "(h :: b256) \<in> of_nat ` {0 ..< 2 ^ 256}"
    using unsigned_less [of h] by (intro image_eqI [where x = "unat h"]) simp_all
  then have "h \<in> set (map of_nat [0 ..< 2 ^ 256])" by (simp only: set_map set_upt)
  then show ?thesis by (auto simp: example_peer_env_def in_set_map_filter simp del: set_map set_upt)
qed

interpretation example_peer: complete_peer example_peer_env "\<lambda>_. True" example_chain 1
proof
  fix n b assume "example_chain n = Some b"
  then show "bar_number b = n"
    by (auto simp: example_chain_def example_height_one_def bar_number_def split: if_splits)
next
  show "((h, n) \<in> set (pe_iter example_peer_env m)) = (m h = Some n)" for h n m
    by (rule example_iter)
next
  show "\<exists>url. official_rpc_url (pe_chain_spec example_peer_env) = Returns url"
    by (simp add: official_rpc_url_def hl_mainnet_def hl_chainspec_def MAINNET_CHAIN_ID_def)
qed (use blocks_dir.collect_faithful blocks_dir_complete.collect_complete blocks_dir_complete.latest_known
    blocks_dir_complete.chunk_positive in auto)

definition example_peer :: "(unit, b256 list) pseudo_peer" where
  "example_peer = pseudo_peer_new () (bimap_insert (example_lru 2) 101 1 (bimap_new (example_lru 2) 2))
     \<lparr>evm_map = Map.empty, requests = 0\<rparr>"

lemma example_peer_cache:
  "get_by_left (pp_cache example_peer) = [101 \<mapsto> 1]" "get_by_right (pp_cache example_peer) = [1 \<mapsto> 101]"
  by (simp_all add: fun_eq_iff example_peer_def pseudo_peer_new_def bimap_insert_def bimap_new_def
      example_lru_def get_by_left_def get_by_right_def)

lemma example_peer_ok: "peer_ok (\<lambda>_. True) example_chain example_peer"
  by (auto simp: peer_ok_def cache_sound_def example_peer_cache hash_at_def example_chain_def
      example_height_one_def bar_hash_def split: if_splits)

theorem hash_to_block_number_correct_witness:
  "\<exists>m b' self'. hash_to_block_number example_peer_env (bar_hash example_height_one)
      (pseudo_peer_new () (new_blockhash_cache example_peer_env) \<lparr>evm_map = Map.empty, requests = 0\<rparr>) = Returns (m, self') \<and>
     example_chain m = Some b' \<and> bar_hash b' = bar_hash example_height_one \<and>
     peer_ok (\<lambda>_. True) example_chain self'"
proof (rule hash_to_block_number_correct [OF example_peer.complete_peer_axioms])
  show "peer_ok (\<lambda>_. True) example_chain
      (pseudo_peer_new () (new_blockhash_cache example_peer_env) \<lparr>evm_map = Map.empty, requests = 0\<rparr>)"
    by (simp add: peer_ok_def cache_sound_def pseudo_peer_new_def new_blockhash_cache_def bimap_new_def
        get_by_left_def get_by_right_def)
  show "example_chain 1 = Some example_height_one" by (simp add: example_chain_def)
qed (simp_all add: pseudo_peer_new_def)

lemma example_collect:
  "collect_blocks example_peer_env [1] self = Returns (Ok [example_height_one], self)"
  by (simp add: collect_blocks_def peer_collect_block_def local_source_def local_collect_block_def example_read)

definition example_converted :: hl_block where
  "example_converted = \<lparr>block_header = bar_header example_height_one,
     block_body = \<lparr>body_inner = \<lparr>transactions = [], ommers = [], withdrawals = None\<rparr>, sidecars = None,
       read_precompile_calls = Some (ReadPrecompileCalls []), highest_precompile_address = None\<rparr>\<rparr>"

lemma example_convert:
  "convert_blocks example_peer_env [example_height_one] self = Returns ([example_converted], self)"
  by (simp add: convert_blocks_def to_reth_block_def sealed_to_reth_block_def example_height_one_def
      example_converted_def bar_header_def Let_def)

theorem block_bodies_correct_witness:
  "process_eth_request example_peer_env (GetBlockBodies [101]) example_peer =
     Returns (Ok (BlockBodies [block_body example_converted]), example_peer) \<and>
   (\<exists>n b. example_chain n = Some b \<and> bar_hash b = 101)"
proof -
  have warm: "pp_warm_around example_peer = {}" by (simp add: example_peer_def pseudo_peer_new_def)
  have run: "process_eth_request example_peer_env (GetBlockBodies [101]) example_peer =
     Returns (Ok (BlockBodies [block_body example_converted]), example_peer)"
    by (simp add: process_eth_request_def hash_to_block_number_def try_get_cached_block_number_def
        example_peer_cache warm example_collect example_convert)
  from block_bodies_correct [OF example_peer.peer_setting_axioms example_peer_ok run] run
  show ?thesis by auto
qed

theorem block_headers_correct_witness:
  "process_eth_request example_peer_env (GetBlockHeaders (AtNumber 1) 1 0 Rising) example_peer =
     Returns (Ok (BlockHeaders [bar_header example_height_one]), example_peer) \<and>
   (\<exists>b. example_chain 1 = Some b \<and> bar_header example_height_one = bar_header b)"
proof -
  have "range_u64 1 2 = [1]" by (simp add: range_u64_def upt_rec)
  then have run: "process_eth_request example_peer_env (GetBlockHeaders (AtNumber 1) 1 0 Rising) example_peer =
     Returns (Ok (BlockHeaders [bar_header example_height_one]), example_peer)"
    by (simp add: process_eth_request_def example_collect example_convert)
      (simp add: example_converted_def)
  from block_headers_correct [OF example_peer.peer_setting_axioms example_peer_ok run] run
  show ?thesis by simp
qed

theorem falling_headers_below_zero_witness:
  "process_eth_request example_peer_env (GetBlockHeaders (AtNumber 5) 10 0 Falling) example_peer =
     Returns (Ok (BlockHeaders []), example_peer)"
  by (rule falling_headers_below_zero) simp_all

theorem poller_consecutive_witness:
  "\<exists>p. poller_run example_peer_env 1 \<lparr>po_next = 1, po_source = (), po_sent = []\<rparr> = Returns p \<and>
     po_sent p = [(1, example_height_one)] \<and> example_chain 1 = Some example_height_one \<and> po_next p = 2"
proof -
  let ?first = "\<lparr>po_next = 1, po_source = (), po_sent = []\<rparr>"
  let ?p = "\<lparr>po_next = 2, po_source = (), po_sent = [(1, example_height_one)]\<rparr>"
  have start: "poller_start example_peer_env () = Returns (Ok ?first)"
    by (simp only: poller_start_def example_peer_env_simps local_source_def block_source.simps
        example_latest run_bind_simps prod.case option.case)
  have run: "poller_run example_peer_env 1 ?first = Returns ?p"
    by (simp add: poller_step_def local_source_def local_collect_block_def example_read)
  have faithful: "faithful_source (pe_src example_peer_env) (\<lambda>_. True) example_chain"
    using blocks_dir.faithful_source_axioms by simp
  from poller_consecutive [OF faithful _ start run] run show ?thesis by auto
qed

end
