(* ===== verification/Peer_Loop.thy ===== *)
theory Peer_Loop
  imports Pseudo_Peer "HOL-Library.Sublist"
begin

text \<open>
  The pseudo peer as a running system (\<open>src/src/pseudo_peer/mod.rs\<close>, \<open>network.rs\<close> and
  \<open>BlockPoller\<close> of \<open>service.rs\<close>): the event loop of \<open>start_pseudo_peer\<close>, the task of the
  block poller, and the network manager that polls the poller for blocks to announce.

  The three run concurrently, and so does the source: a task of its own may work on it, and the
  files it reads and the clock change. A schedule is a list of actions, each what one of them
  does between two awaits; the block source, the cache of hashes and the cache of spot tokens are
  shared, so an action finds them as the actions before it left them. The poller is
  suspended until the loop sends it the start signal; the channel of blocks holds \<open>100\<close>.
  A run ends at the first panic: the loop is a critical task of the node, whose panic shuts
  the node down.
\<close>

section \<open>The network manager\<close>

text \<open>
  \<open>NetworkBuilder\<close>. Reth's secret keys, peers and parser of peers are parameters; the
  ports are on the local host, and one peer may be connected in each direction.
\<close>

record ('k, 'p, 'g) network_builder =
  nb_secret :: 'k
  nb_max_outbound :: nat
  nb_max_inbound :: nat
  nb_boot_nodes :: "'p list"
  nb_discovery_port :: "16 word"
  nb_listener_port :: "16 word"
  nb_chain_spec :: "'g chain_spec"

definition network_builder_default :: "'k \<Rightarrow> 'g chain_spec \<Rightarrow> ('k, 'p, 'g) network_builder" where
  "network_builder_default rng_secret_key default_spec =
     \<lparr>nb_secret = rng_secret_key, nb_max_outbound = 1, nb_max_inbound = 1, nb_boot_nodes = [],
      nb_discovery_port = 0, nb_listener_port = 0, nb_chain_spec = default_spec\<rparr>"

definition with_boot_nodes :: "'p list \<Rightarrow> ('k, 'p, 'g) network_builder \<Rightarrow> ('k, 'p, 'g) network_builder" where
  "with_boot_nodes boot_nodes self = self\<lparr>nb_boot_nodes := boot_nodes\<rparr>"

definition with_chain_spec :: "'g chain_spec \<Rightarrow> ('k, 'p, 'g) network_builder \<Rightarrow> ('k, 'p, 'g) network_builder" where
  "with_chain_spec spec self = self\<lparr>nb_chain_spec := spec\<rparr>"

section \<open>The poller task\<close>

datatype poller_task = Suspended | Polling u64 | Sending u64 block_and_receipts | Stopped string

text \<open>\<open>BlockPoller\<close>: the identifier of the chain, the channel of blocks and the task.\<close>

record block_poller =
  bp_chain_id :: u64
  bp_queue :: "(u64 \<times> block_and_receipts) list"
  bp_task :: poller_task

definition BLOCK_CHANNEL :: nat where
  "BLOCK_CHANNEL = 100"

definition new_suspended :: "u64 \<Rightarrow> block_poller" where
  "new_suspended cid = \<lparr>bp_chain_id = cid, bp_queue = [], bp_task = Suspended\<rparr>"

text \<open>
  What \<open>NetworkManager::new\<close> makes of a configuration is reth's; here it may fail. The poller
  is the manager's \<open>block_import\<close>.
\<close>

definition network_builder_build ::
  "(('k, 'p, 'g) network_builder \<Rightarrow> ('n, 'e) result) \<Rightarrow> ('k, 'p, 'g) network_builder \<Rightarrow> ('n \<times> block_poller, 'e) result" where
  "network_builder_build network_manager_new self =
     (let block_poller = new_suspended (chain_id (nb_chain_spec self))
      in res_bind (network_manager_new self) (\<lambda>network. Ok (network, block_poller)))"

text \<open>The destination peer has to parse.\<close>

definition create_network_manager ::
  "(('k, 'p, 'g) network_builder \<Rightarrow> ('n, 'e) result) \<Rightarrow> (string \<Rightarrow> ('p, 'pe) result) \<Rightarrow> 'k \<Rightarrow> 'g chain_spec \<Rightarrow>
   'g chain_spec \<Rightarrow> string \<Rightarrow> ('n \<times> block_poller, 'e) result run" where
  "create_network_manager network_manager_new parse_peer rng_secret_key default_spec spec destination_peer =
     run_bind (unwrap_res (parse_peer destination_peer)) (\<lambda>peer. Returns
       (network_builder_build network_manager_new
         (with_chain_spec spec (with_boot_nodes [peer] (network_builder_default rng_secret_key default_spec)))))"

section \<open>The running system\<close>

record ('s, 'l, 'e) peer_system =
  sy_service :: "('s, 'l) pseudo_peer"
  sy_first :: bool
  sy_start :: bool
  sy_poller :: block_poller
  sy_announced :: "(hl_block \<times> b256 \<times> u128) list"
  sy_replies :: "(eth_request \<times> eth_response) list"
  sy_logged :: "'e list"
  sy_exit :: "string option"

text \<open>Everything \<open>start_pseudo_peer\<close> does before its loop.\<close>

definition peer_system_new ::
  "('s, 'l, 'e, 'g) peer_env \<Rightarrow> block_poller \<Rightarrow> 's \<Rightarrow> spot_state \<Rightarrow> ('s, 'l, 'e) peer_system" where
  "peer_system_new env block_poller s spot =
     \<lparr>sy_service = pseudo_peer_new s (new_blockhash_cache env) spot, sy_first = True, sy_start = False,
      sy_poller = block_poller, sy_announced = [], sy_replies = [], sy_logged = [], sy_exit = None\<rparr>"

definition start_pseudo_peer ::
  "('s, 'l, 'e, 'g) peer_env \<Rightarrow> (('k, 'p, 'g) network_builder \<Rightarrow> ('n, 'e) result) \<Rightarrow> (string \<Rightarrow> ('p, 'pe) result) \<Rightarrow> 'k \<Rightarrow>
   'g chain_spec \<Rightarrow> string \<Rightarrow> 's \<Rightarrow> spot_state \<Rightarrow> ('n \<times> ('s, 'l, 'e) peer_system, 'e) result run" where
  "start_pseudo_peer env network_manager_new parse_peer rng_secret_key default_spec destination_peer s spot =
     run_bind (create_network_manager network_manager_new parse_peer rng_secret_key default_spec
         (pe_chain_spec env) destination_peer) (\<lambda>r. Returns
       (res_bind r (\<lambda>(network, block_poller). Ok (network, peer_system_new env block_poller s spot))))"

datatype network_event = ActivePeerSession | OtherNetworkEvent

datatype loop_input = NetworkEvent network_event | TransactionMessage | EthRequest eth_request

text \<open>\<open>SourceTurn x\<close>: something happens to the source between two of its calls.\<close>

datatype 'x peer_act = LoopTurn loop_input | PollerTurn | NetworkPoll | SourceTurn 'x

text \<open>
  What is sent to the peer that asked: \<open>response.send\<close> is called for headers and for bodies
  only. On an error the sender is dropped unused.
\<close>

definition sent_response :: "eth_request \<Rightarrow> (eth_response, 'e) result \<Rightarrow> (eth_request \<times> eth_response) list" where
  "sent_response req r =
     (case r of Err _ \<Rightarrow> [] | Ok NoResponse \<Rightarrow> [] | Ok resp \<Rightarrow> [(req, resp)])"

definition logged_error :: "('a, 'e) result \<Rightarrow> 'e list" where
  "logged_error r = (case r of Err e \<Rightarrow> [e] | Ok _ \<Rightarrow> [])"

text \<open>
  One turn of the loop. \<open>start_tx.send\<close> fails if the poller's task is gone, which ends the
  function with an error; an error of a request is only logged.
\<close>

definition loop_turn ::
  "('s, 'l, 'e, 'g) peer_env \<Rightarrow> loop_input \<Rightarrow> ('s, 'l, 'e) peer_system \<Rightarrow> ('s, 'l, 'e) peer_system run" where
  "loop_turn env input sys =
     (case input of
        NetworkEvent event \<Rightarrow>
          if event = ActivePeerSession \<and> sy_first sys
          then (case bp_task (sy_poller sys) of
                  Stopped _ \<Rightarrow> Returns (sys\<lparr>sy_exit := Some ''channel closed''\<rparr>)
                | _ \<Rightarrow> Returns (sys\<lparr>sy_start := True, sy_first := False\<rparr>))
          else Returns sys
      | TransactionMessage \<Rightarrow> Returns sys
      | EthRequest eth_req \<Rightarrow>
          run_bind (process_eth_request env eth_req (sy_service sys)) (\<lambda>(r, service).
            Returns (sys\<lparr>sy_service := service, sy_replies := sy_replies sys @ sent_response eth_req r,
                         sy_logged := sy_logged sys @ logged_error r\<rparr>)))"

text \<open>
  One turn of \<open>BlockPoller::task\<close>. Without a start signal it waits, or stops if the sender is
  gone; with the channel full, \<open>send\<close> waits.
\<close>

definition poller_turn ::
  "('s, 'l, 'e, 'g) peer_env \<Rightarrow> ('s, 'l, 'e) peer_system \<Rightarrow> ('s, 'l, 'e) peer_system run" where
  "poller_turn env sys =
     (let poller = sy_poller sys; service = sy_service sys
      in case bp_task poller of
        Suspended \<Rightarrow>
          if sy_start sys
          then run_bind (src_latest (pe_src env) (pp_source service)) (\<lambda>(s, latest). Returns
                 (sys\<lparr>sy_start := False, sy_service := service\<lparr>pp_source := s\<rparr>,
                      sy_poller := poller\<lparr>bp_task := (case latest of
                         None \<Rightarrow> Stopped ''Failed to find latest block number''
                       | Some n \<Rightarrow> Polling n)\<rparr>\<rparr>))
          else if sy_exit sys \<noteq> None
               then Returns (sys\<lparr>sy_poller := poller\<lparr>bp_task := Stopped ''Failed to receive start signal''\<rparr>\<rparr>)
               else Returns sys
      | Polling n \<Rightarrow>
          run_bind (src_collect (pe_src env) n (pp_source service)) (\<lambda>(s, r). Returns
            (sys\<lparr>sy_service := service\<lparr>pp_source := s\<rparr>,
                 sy_poller := poller\<lparr>bp_task := (case r of Ok block \<Rightarrow> Sending n block | Err _ \<Rightarrow> Polling n)\<rparr>\<rparr>))
      | Sending n block \<Rightarrow>
          if length (bp_queue poller) < BLOCK_CHANNEL
          then Returns (sys\<lparr>sy_poller := poller\<lparr>bp_queue := bp_queue poller @ [(n, block)], bp_task := Polling (n + 1)\<rparr>\<rparr>)
          else Returns sys
      | Stopped _ \<Rightarrow> Returns sys)"

text \<open>\<open>BlockImport::poll\<close>, called by the network manager.\<close>

definition network_poll ::
  "('s, 'l, 'e, 'g) peer_env \<Rightarrow> ('s, 'l, 'e) peer_system \<Rightarrow> ('s, 'l, 'e) peer_system run" where
  "network_poll env sys =
     (case bp_queue (sy_poller sys) of
        [] \<Rightarrow> Returns sys
      | msg # rest \<Rightarrow>
          run_bind (poller_announce env msg (pp_cache (sy_service sys), pp_spot (sy_service sys)))
            (\<lambda>(announcement, cache, spot). Returns
              (sys\<lparr>sy_service := (sy_service sys)\<lparr>pp_cache := cache, pp_spot := spot\<rparr>,
                   sy_poller := (sy_poller sys)\<lparr>bp_queue := rest\<rparr>,
                   sy_announced := sy_announced sys @ [announcement]\<rparr>)))"

text \<open>\<open>turn\<close> is what happens to the source; it is an argument, since it depends on the source.\<close>

definition peer_action ::
  "('s, 'l, 'e, 'g) peer_env \<Rightarrow> ('x \<Rightarrow> 's \<Rightarrow> 's run) \<Rightarrow> 'x peer_act \<Rightarrow> ('s, 'l, 'e) peer_system \<Rightarrow>
   ('s, 'l, 'e) peer_system run" where
  "peer_action env turn act sys =
     (case act of
        LoopTurn input \<Rightarrow> if sy_exit sys = None then loop_turn env input sys else Returns sys
      | PollerTurn \<Rightarrow> poller_turn env sys
      | NetworkPoll \<Rightarrow> network_poll env sys
      | SourceTurn x \<Rightarrow> run_bind (turn x (pp_source (sy_service sys))) (\<lambda>s.
          Returns (sys\<lparr>sy_service := (sy_service sys)\<lparr>pp_source := s\<rparr>\<rparr>)))"

definition peer_run ::
  "('s, 'l, 'e, 'g) peer_env \<Rightarrow> ('x \<Rightarrow> 's \<Rightarrow> 's run) \<Rightarrow> 'x peer_act list \<Rightarrow> ('s, 'l, 'e) peer_system \<Rightarrow>
   ('s, 'l, 'e) peer_system run" where
  "peer_run env turn acts sys = run_fold (peer_action env turn) acts sys"

section \<open>Right answers\<close>

text \<open>
  The height at which a request starts, the heights a request for headers asks for, and the
  answers that are right: the headers of the chain's blocks at these heights, and the
  bodies of blocks of the chain with the hashes that were asked for.
\<close>

definition starts_at :: "(u64 \<rightharpoonup> block_and_receipts) \<Rightarrow> hash_or_number \<Rightarrow> u64 \<Rightarrow> bool" where
  "starts_at chain start n \<longleftrightarrow> (case start of AtHash h \<Rightarrow> hash_at chain n h | AtNumber m \<Rightarrow> n = m)"

definition header_heights :: "u64 \<Rightarrow> u64 \<Rightarrow> headers_direction \<Rightarrow> u64 list" where
  "header_heights n limit dir =
     (case dir of Rising \<Rightarrow> range_u64 n (n + limit) | Falling \<Rightarrow> rev (range_u64 (n + 1 - limit) (n + 1)))"

definition right_answer ::
  "('s, 'l, 'e, 'g) peer_env \<Rightarrow> (u64 \<rightharpoonup> block_and_receipts) \<Rightarrow> eth_request \<Rightarrow> eth_response \<Rightarrow> bool" where
  "right_answer env chain req resp \<longleftrightarrow>
     (case req of
        GetBlockHeaders start limit skip dir \<Rightarrow>
          (\<exists>n bs. starts_at chain start n \<and> map chain (header_heights n limit dir) = map Some bs \<and>
             resp = BlockHeaders (map bar_header bs))
      | GetBlockBodies hashes \<Rightarrow>
          (\<exists>bodies. resp = BlockBodies bodies \<and>
             list_all2 (\<lambda>h body. \<exists>n b st blk st'. chain n = Some b \<and> bar_hash b = h \<and>
               to_reth_block (pe_post env) (chain_id (pe_chain_spec env)) b st = Returns (blk, st') \<and>
               body = block_body blk) hashes bodies)
      | _ \<Rightarrow> False)"

section \<open>The invariant\<close>

text \<open>
  The source's blocks carry the hash of their header (a block is sealed with it), which is
  what makes the hash the poller caches for a block the one a request will ask for.
\<close>

locale announcing_peer = peer_setting env good chain
  for env :: "('s, 'l, 'e, 'g) peer_env" and good :: "'s \<Rightarrow> bool" and chain :: "u64 \<rightharpoonup> block_and_receipts" +
  assumes sealed: "chain n = Some b \<Longrightarrow> pe_hash_slow env (bar_header b) = bar_hash b"

definition consecutive_blocks ::
  "(u64 \<rightharpoonup> block_and_receipts) \<Rightarrow> u64 \<Rightarrow> (u64 \<times> block_and_receipts) list \<Rightarrow> bool" where
  "consecutive_blocks chain h msgs \<longleftrightarrow>
     (\<forall>i < length msgs. fst (msgs ! i) = h + of_nat i \<and> chain (fst (msgs ! i)) = Some (snd (msgs ! i)))"

definition announces :: "u64 \<times> block_and_receipts \<Rightarrow> hl_block \<times> b256 \<times> u128 \<Rightarrow> bool" where
  "announces msg ann \<longleftrightarrow> (case (msg, ann) of ((n, b), (blk, h, td)) \<Rightarrow>
     block_header blk = bar_header b \<and> h = bar_hash b \<and> td = ucast (difficulty (bar_header b)))"

definition task_ok :: "(u64 \<rightharpoonup> block_and_receipts) \<Rightarrow> u64 \<Rightarrow> nat \<Rightarrow> ('s, 'l, 'e) peer_system \<Rightarrow> bool" where
  "task_ok chain h sent sys \<longleftrightarrow>
     (case bp_task (sy_poller sys) of
        Suspended \<Rightarrow> sent = 0 \<and> sy_start sys = (\<not> sy_first sys)
      | Polling n \<Rightarrow> n = h + of_nat sent \<and> \<not> sy_first sys
      | Sending n b \<Rightarrow> n = h + of_nat sent \<and> chain n = Some b \<and> \<not> sy_first sys
      | Stopped _ \<Rightarrow> \<not> sy_first sys)"

text \<open>
  The invariant: \<open>msgs\<close> are the blocks announced so far. They and the blocks that wait in the
  channel are the chain's blocks of consecutive heights from \<open>h\<close>, and the poller is about to
  send the next one.
\<close>

definition system_ok ::
  "('s, 'l, 'e, 'g) peer_env \<Rightarrow> ('s \<Rightarrow> bool) \<Rightarrow> (u64 \<rightharpoonup> block_and_receipts) \<Rightarrow> u64 \<Rightarrow> (u64 \<times> block_and_receipts) list \<Rightarrow> ('s, 'l, 'e) peer_system \<Rightarrow> bool" where
  "system_ok env good chain h msgs sys \<longleftrightarrow>
     sy_exit sys = None \<and> peer_ok good chain (sy_service sys) \<and>
     (\<forall>(req, resp) \<in> set (sy_replies sys). right_answer env chain req resp) \<and>
     length (bp_queue (sy_poller sys)) \<le> BLOCK_CHANNEL \<and>
     consecutive_blocks chain h (msgs @ bp_queue (sy_poller sys)) \<and>
     list_all2 announces msgs (sy_announced sys) \<and>
     task_ok chain h (length (msgs @ bp_queue (sy_poller sys))) sys"

lemma consecutive_blocks_Nil [simp]: "consecutive_blocks chain h []"
  by (simp add: consecutive_blocks_def)

lemma consecutive_blocks_snoc:
  assumes "consecutive_blocks chain h msgs" "chain (h + of_nat (length msgs)) = Some b"
  shows "consecutive_blocks chain h (msgs @ [(h + of_nat (length msgs), b)])"
  using assms by (auto simp: consecutive_blocks_def nth_append less_Suc_eq)

lemma consecutive_blocks_head:
  assumes "consecutive_blocks chain h (msgs @ (n, b) # rest)"
  shows "chain n = Some b"
  using assms by (auto simp: consecutive_blocks_def dest: spec [of _ "length msgs"])

context peer_setting
begin

lemma process_eth_request_ok:
  assumes "peer_ok good chain self" "process_eth_request env req self = Returns (r, self')"
  shows "peer_ok good chain self' \<and> (\<forall>(req, resp) \<in> set (sent_response req r). right_answer env chain req resp)"
proof -
  have conv: "peer_ok good chain q" if "peer_ok good chain p" "convert_blocks env bs p = Returns (blks, q)" for bs p blks q
    using that by (auto simp: convert_blocks_def run_bind_eq_Returns_iff peer_ok_def)
  have tail: "peer_ok good chain self' \<and> (\<forall>resp. r = Ok resp \<longrightarrow>
      (\<exists>bs blks q. map chain ns = map Some bs \<and> convert_blocks env bs q = Returns (blks, self') \<and> resp = f blks))"
    if "peer_ok good chain p" "run_bind (collect_blocks env ns p) (\<lambda>(r, self). case r of
        Err e \<Rightarrow> Returns (Err e, self)
      | Ok blocks \<Rightarrow> run_bind (convert_blocks env blocks self) (\<lambda>(bs, self). Returns (Ok (f bs), self))) =
        Returns (r, self')" for ns p and f :: "hl_block list \<Rightarrow> eth_response"
  proof -
    from that(2) obtain r0 q where col: "collect_blocks env ns p = Returns (r0, q)"
      by (auto simp: run_bind_eq_Returns_iff)
    note q = collect_blocks_ok [OF that(1) col]
    show ?thesis
    proof (cases r0)
      case (Inr bs)
      with that(2) col obtain blks where blks: "convert_blocks env bs q = Returns (blks, self')" "r = Ok (f blks)"
        by (auto simp: run_bind_eq_Returns_iff)
      with conv [OF _ blks(1)] q Inr show ?thesis by blast
    qed (use that(2) col q in auto)
  qed
  show ?thesis
  proof (cases req)
    case (GetBlockHeaders start limit skip dir)
    with assms(2) obtain n p where
      p: "(case start of AtHash h \<Rightarrow> hash_to_block_number env h self | AtNumber n \<Rightarrow> Returns (n, self)) = Returns (n, p)"
      by (auto simp: process_eth_request_def run_bind_eq_Returns_iff)
    have ok: "peer_ok good chain p" and start: "starts_at chain start n"
      using p assms(1) hash_to_block_number_ok by (cases start; fastforce simp: starts_at_def)+
    have "peer_ok good chain self' \<and> (\<forall>resp. r = Ok resp \<longrightarrow> (\<exists>bs blks q. map chain (header_heights n limit dir) = map Some bs \<and>
        convert_blocks env bs q = Returns (blks, self') \<and> resp = BlockHeaders (map block_header blks)))"
      using ok by (rule tail) (use assms(2) GetBlockHeaders p in \<open>simp add: process_eth_request_def header_heights_def\<close>)
    with start convert_blocks_headers show ?thesis
      by (cases r) (fastforce simp: sent_response_def right_answer_def GetBlockHeaders)+
  next
    case (GetBlockBodies hashes)
    with assms(2) obtain ns p where ns: "run_map_state (hash_to_block_number env) hashes self = Returns (ns, p)"
      by (auto simp: process_eth_request_def run_bind_eq_Returns_iff)
    have "peer_ok good chain p \<and> list_all2 (\<lambda>_ _. True) hashes ns"
      by (rule run_map_state_invariant [where I = "peer_ok good chain", OF _ assms(1) ns]) (use hash_to_block_number_ok in blast)
    then have "peer_ok good chain p" ..
    then have ok: "peer_ok good chain self' \<and> (\<forall>resp. r = Ok resp \<longrightarrow> (\<exists>bs blks q. map chain ns = map Some bs \<and>
        convert_blocks env bs q = Returns (blks, self') \<and> resp = BlockBodies (map block_body blks)))"
      by (rule tail) (use assms(2) GetBlockBodies ns in \<open>simp add: process_eth_request_def\<close>)
    have "right_answer env chain req resp" if "r = Ok resp" for resp
    proof -
      obtain bodies where "resp = BlockBodies bodies" using ok \<open>r = Ok resp\<close> by blast
      with block_bodies_correct [OF peer_setting_axioms assms(1)] assms(2) that GetBlockBodies show ?thesis
        by (simp add: right_answer_def)
    qed
    with ok show ?thesis by (cases r) (auto simp: sent_response_def split: eth_response.splits)
  qed (use assms in \<open>auto simp: process_eth_request_def sent_response_def\<close>)
qed

end

context announcing_peer
begin

lemma loop_turn_ok:
  assumes "system_ok env good chain h msgs sys" "loop_turn env input sys = Returns sys'"
  shows "system_ok env good chain h msgs sys'"
proof (cases input)
  case (NetworkEvent event)
  with assms show ?thesis
    by (cases "bp_task (sy_poller sys)")
      (auto simp: loop_turn_def system_ok_def task_ok_def split: if_splits)
next
  case TransactionMessage
  with assms show ?thesis by (simp add: loop_turn_def)
next
  case (EthRequest req)
  with assms(2) obtain r p where p: "process_eth_request env req (sy_service sys) = Returns (r, p)"
    "sys' = sys\<lparr>sy_service := p, sy_replies := sy_replies sys @ sent_response req r,
       sy_logged := sy_logged sys @ logged_error r\<rparr>"
    by (auto simp: loop_turn_def run_bind_eq_Returns_iff)
  have "peer_ok good chain (sy_service sys)" using assms(1) by (simp add: system_ok_def)
  from process_eth_request_ok [OF this p(1)] assms(1) p(2) show ?thesis
    by (auto simp: system_ok_def task_ok_def cong: poller_task.case_cong)
qed

lemma poller_turn_ok:
  assumes "system_ok env good chain h msgs sys" "poller_turn env sys = Returns sys'"
  shows "\<exists>h. system_ok env good chain h msgs sys'"
proof (cases "bp_task (sy_poller sys)")
  case Suspended
  with assms(1) have none: "msgs = []" "bp_queue (sy_poller sys) = []" "sy_exit sys = None"
    by (auto simp: system_ok_def task_ok_def)
  show ?thesis
  proof (cases "sy_start sys")
    case True
    with assms(2) Suspended obtain s l where l: "src_latest (pe_src env) (pp_source (sy_service sys)) = Returns (s, l)"
      and sys': "sys' = sys\<lparr>sy_start := False, sy_service := (sy_service sys)\<lparr>pp_source := s\<rparr>,
        sy_poller := (sy_poller sys)\<lparr>bp_task := (case l of None \<Rightarrow> Stopped ''Failed to find latest block number''
          | Some n \<Rightarrow> Polling n)\<rparr>\<rparr>"
      by (auto simp: poller_turn_def Let_def run_bind_eq_Returns_iff)
    have "good s" using latest_good [OF _ l] assms(1) by (simp add: system_ok_def peer_ok_def)
    then have "system_ok env good chain (case l of None \<Rightarrow> 0 | Some n \<Rightarrow> n) msgs sys'"
      using assms(1) Suspended none True
      by (cases l) (auto simp: sys' system_ok_def task_ok_def peer_ok_def)
    then show ?thesis ..
  next
    case False
    with assms Suspended none show ?thesis by (auto simp: poller_turn_def)
  qed
next
  case (Polling n)
  with assms(2) obtain s r where c: "src_collect (pe_src env) n (pp_source (sy_service sys)) = Returns (s, r)"
    and sys': "sys' = sys\<lparr>sy_service := (sy_service sys)\<lparr>pp_source := s\<rparr>,
      sy_poller := (sy_poller sys)\<lparr>bp_task := (case r of Ok block \<Rightarrow> Sending n block | Err _ \<Rightarrow> Polling n)\<rparr>\<rparr>"
    by (auto simp: poller_turn_def Let_def run_bind_eq_Returns_iff)
  have "good s \<and> (\<forall>b. r = Ok b \<longrightarrow> chain n = Some b)"
    using assms(1) by (intro collect_faithful [OF _ c]) (simp add: system_ok_def peer_ok_def)
  then have "system_ok env good chain h msgs sys'"
    using assms(1) Polling by (cases r) (auto simp: sys' system_ok_def task_ok_def peer_ok_def)
  then show ?thesis ..
next
  case (Sending n b)
  show ?thesis
  proof (cases "length (bp_queue (sy_poller sys)) < BLOCK_CHANNEL")
    case True
    with assms(2) Sending have sys': "sys' = sys\<lparr>sy_poller := (sy_poller sys)\<lparr>
        bp_queue := bp_queue (sy_poller sys) @ [(n, b)], bp_task := Polling (n + 1)\<rparr>\<rparr>"
      by (simp add: poller_turn_def Let_def)
    have n: "n = h + of_nat (length (msgs @ bp_queue (sy_poller sys)))" "chain n = Some b"
      using assms(1) Sending by (auto simp: system_ok_def task_ok_def)
    have "consecutive_blocks chain h ((msgs @ bp_queue (sy_poller sys)) @ [(n, b)])"
      unfolding n(1) using assms(1) n by (intro consecutive_blocks_snoc) (simp_all add: system_ok_def)
    with assms(1) Sending True n have "system_ok env good chain h msgs sys'"
      by (auto simp: sys' system_ok_def task_ok_def add_ac)
    then show ?thesis ..
  next
    case False
    with assms Sending show ?thesis by (auto simp: poller_turn_def)
  qed
next
  case (Stopped e)
  with assms show ?thesis by (auto simp: poller_turn_def)
qed

lemma network_poll_ok:
  assumes "system_ok env good chain h msgs sys" "network_poll env sys = Returns sys'"
  shows "\<exists>msgs. system_ok env good chain h msgs sys'"
proof (cases "bp_queue (sy_poller sys)")
  case Nil
  with assms show ?thesis by (auto simp: network_poll_def)
next
  case (Cons msg rest)
  obtain n b where msg: "msg = (n, b)" by (cases msg)
  from assms(2) Cons msg obtain blk spot where
    conv: "to_reth_block (pe_post env) (chain_id (pe_chain_spec env)) b (pp_spot (sy_service sys)) = Returns (blk, spot)"
    and sys': "sys' = sys\<lparr>sy_service := (sy_service sys)\<lparr>
        pp_cache := bimap_insert (pe_lru env) (pe_hash_slow env (block_header blk)) n (pp_cache (sy_service sys)), pp_spot := spot\<rparr>,
      sy_poller := (sy_poller sys)\<lparr>bp_queue := rest\<rparr>,
      sy_announced := sy_announced sys @ [(blk, pe_hash_slow env (block_header blk), ucast (difficulty (block_header blk)))]\<rparr>"
    by (auto simp: network_poll_def poller_announce_def Let_def run_bind_eq_Returns_iff split: if_splits)
  have hdr: "block_header blk = bar_header b" using conv by (rule to_reth_block_bar_header)
  have b: "chain n = Some b"
    using assms(1) Cons msg by (intro consecutive_blocks_head [of _ h msgs _ _ rest]) (simp add: system_ok_def)
  then have "hash_at chain n (bar_hash b)" by (simp add: hash_at_def)
  then have "cache_sound chain (bimap_insert (pe_lru env) (bar_hash b) n (pp_cache (sy_service sys)))"
    using assms(1) by (intro cache_sound_insert) (simp_all add: system_ok_def peer_ok_def)
  then have "system_ok env good chain h (msgs @ [msg]) sys'"
    using assms(1) Cons sealed [OF b] hdr
    by (auto simp: sys' msg system_ok_def task_ok_def peer_ok_def announces_def intro!: list_all2_appendI
        split: poller_task.splits)
  then show ?thesis ..
qed

lemma peer_action_ok:
  assumes "system_ok env good chain h msgs sys" "peer_action env turn act sys = Returns sys'"
    and "\<And>x. act = SourceTurn x \<Longrightarrow> keeps_good turn good x"
  shows "\<exists>h msgs. system_ok env good chain h msgs sys'"
proof (cases act)
  case (LoopTurn input)
  moreover have "sy_exit sys = None" using assms(1) by (simp add: system_ok_def)
  ultimately show ?thesis using assms(1,2) loop_turn_ok by (fastforce simp: peer_action_def)
next
  case (SourceTurn x)
  with assms have "system_ok env good chain h msgs sys'"
    by (auto simp: peer_action_def run_bind_eq_Returns_iff system_ok_def peer_ok_def keeps_good_def task_ok_def
        cong: poller_task.case_cong)
  then show ?thesis by blast
qed (use assms(1,2) poller_turn_ok network_poll_ok in \<open>fastforce simp: peer_action_def\<close>)+

end

text \<open>The requests of a schedule, and whether a peer connects in it.\<close>

fun scheduled_requests :: "'x peer_act list \<Rightarrow> eth_request list" where
  "scheduled_requests [] = []"
| "scheduled_requests (LoopTurn (EthRequest req) # acts) = req # scheduled_requests acts"
| "scheduled_requests (_ # acts) = scheduled_requests acts"

definition connects :: "'x peer_act list \<Rightarrow> bool" where
  "connects acts \<longleftrightarrow> LoopTurn (NetworkEvent ActivePeerSession) \<in> set acts"

lemma poller_turn_frame:
  assumes "poller_turn env sys = Returns sys'"
  shows "sy_replies sys' = sy_replies sys \<and> sy_first sys' = sy_first sys"
  using assms
  by (cases "bp_task (sy_poller sys)") (auto simp: poller_turn_def Let_def run_bind_eq_Returns_iff split: if_splits)

lemma network_poll_frame:
  assumes "network_poll env sys = Returns sys'"
  shows "sy_replies sys' = sy_replies sys \<and> sy_first sys' = sy_first sys"
  using assms
  by (cases "bp_queue (sy_poller sys)") (auto simp: network_poll_def run_bind_eq_Returns_iff)

lemma sent_response_requests: "subseq (map fst (sent_response req r)) [req]"
  by (simp add: sent_response_def split: sum.split eth_response.split)

lemma peer_action_frame:
  assumes "peer_action env turn act sys = Returns sys'" "sy_exit sys = None"
  shows "(\<exists>new. sy_replies sys' = sy_replies sys @ new \<and> subseq (map fst new) (scheduled_requests [act])) \<and>
    (\<not> connects [act] \<longrightarrow> sy_first sys' = sy_first sys)"
proof (cases act)
  case (LoopTurn input)
  show ?thesis
  proof (cases input)
    case (EthRequest req)
    with assms LoopTurn obtain r p where "process_eth_request env req (sy_service sys) = Returns (r, p)"
      "sys' = sys\<lparr>sy_service := p, sy_replies := sy_replies sys @ sent_response req r,
         sy_logged := sy_logged sys @ logged_error r\<rparr>"
      by (auto simp: peer_action_def loop_turn_def run_bind_eq_Returns_iff)
    with LoopTurn EthRequest sent_response_requests [of req r] show ?thesis by (simp add: connects_def)
  qed (use assms LoopTurn in \<open>cases "bp_task (sy_poller sys)";
    auto simp: peer_action_def loop_turn_def connects_def split: if_splits\<close>)+
next
  case PollerTurn
  with assms poller_turn_frame [of env sys sys'] show ?thesis by (simp add: peer_action_def)
next
  case NetworkPoll
  with assms network_poll_frame [of env sys sys'] show ?thesis by (simp add: peer_action_def)
next
  case (SourceTurn x)
  with assms show ?thesis by (auto simp: peer_action_def run_bind_eq_Returns_iff)
qed

lemma scheduled_requests_Cons: "scheduled_requests (act # acts) = scheduled_requests [act] @ scheduled_requests acts"
  by (cases "act # acts" rule: scheduled_requests.cases) auto

lemma connects_Cons: "connects (act # acts) \<longleftrightarrow> connects [act] \<or> connects acts"
  by (auto simp: connects_def)

lemma peer_run_ok:
  assumes "announcing_peer env good chain" "system_ok env good chain h msgs sys" "peer_run env turn acts sys = Returns sys'"
    and "\<And>x. SourceTurn x \<in> set acts \<Longrightarrow> keeps_good turn good x"
  shows "(\<exists>h msgs. system_ok env good chain h msgs sys') \<and>
    (\<exists>new. sy_replies sys' = sy_replies sys @ new \<and> subseq (map fst new) (scheduled_requests acts)) \<and>
    (\<not> connects acts \<longrightarrow> sy_first sys' = sy_first sys)"
  using assms(2-4)
proof (induction acts arbitrary: h msgs sys)
  case Nil
  then show ?case by (auto simp: peer_run_def)
next
  case (Cons act acts)
  from Cons.prems(2) obtain sys1 where step: "peer_action env turn act sys = Returns sys1" "peer_run env turn acts sys1 = Returns sys'"
    by (auto simp: peer_run_def run_bind_eq_Returns_iff)
  obtain h1 msgs1 where ok: "system_ok env good chain h1 msgs1 sys1"
    using announcing_peer.peer_action_ok [OF assms(1) Cons.prems(1) step(1)] Cons.prems(3) by auto
  have "sy_exit sys = None" using Cons.prems(1) by (simp add: system_ok_def)
  from peer_action_frame [OF step(1) this] obtain new where
    new: "sy_replies sys1 = sy_replies sys @ new" "subseq (map fst new) (scheduled_requests [act])"
    and first: "\<not> connects [act] \<longrightarrow> sy_first sys1 = sy_first sys" by blast
  from Cons.IH [OF ok step(2)] Cons.prems(3) obtain new' where
    IH: "\<exists>h msgs. system_ok env good chain h msgs sys'" "sy_replies sys' = sy_replies sys1 @ new'"
      "subseq (map fst new') (scheduled_requests acts)" "\<not> connects acts \<longrightarrow> sy_first sys' = sy_first sys1"
    by auto
  have "subseq (map fst (new @ new')) (scheduled_requests (act # acts))"
    unfolding scheduled_requests_Cons [of act acts] map_append using new(2) IH(3) by (rule list_emb_append_mono)
  with new(1) first IH show ?case by (auto simp: connects_Cons [of act acts])
qed

text \<open>A run as far as it goes: it comes to its end, or to an action that does not return.\<close>

lemma peer_run_append: "peer_run env turn (xs @ ys) sys = run_bind (peer_run env turn xs sys) (peer_run env turn ys)"
proof -
  have "run_fold f (xs @ ys) s = run_bind (run_fold f xs s) (run_fold f ys)" for f s
  proof (induction xs arbitrary: s)
    case (Cons a xs)
    then show ?case by (cases "f a s") simp_all
  qed simp
  then show ?thesis by (simp add: peer_run_def [abs_def])
qed

lemma peer_run_stops:
  obtains (finished) sys' where "peer_run env turn acts sys = Returns sys'"
  | (stop) past act rest sys' where "acts = past @ act # rest" "peer_run env turn past sys = Returns sys'"
      "\<nexists>sys''. peer_action env turn act sys' = Returns sys''"
proof (induction acts arbitrary: thesis rule: rev_induct)
  case Nil
  then show ?case by (simp add: peer_run_def)
next
  case (snoc a acts)
  show ?case
  proof (rule snoc.IH)
    fix sys1 assume run: "peer_run env turn acts sys = Returns sys1"
    show ?thesis
    proof (cases "peer_action env turn a sys1")
      case (Returns sys2)
      with run have "peer_run env turn (acts @ [a]) sys = Returns sys2"
        by (simp add: peer_run_append) (simp add: peer_run_def)
      then show ?thesis by (rule snoc.prems(1))
    qed (use run snoc.prems(2) [of acts a "[]" sys1] in auto)
  next
    fix past act rest sys' assume "acts = past @ act # rest" "peer_run env turn past sys = Returns sys'"
      "\<nexists>sys''. peer_action env turn act sys' = Returns sys''"
    then show ?thesis by (intro snoc.prems(2) [of past act "rest @ [a]"]) simp_all
  qed
qed

text \<open>
  The state of a peer that has worked off a schedule: its loop has not ended, what it
  knows is true, what it sent are right answers, to some of the requests and at most one each, in
  their order, nothing was polled before a peer connected, and what it announced are the
  chain's blocks of consecutive heights.
\<close>

definition peer_state_safe ::
  "('s, 'l, 'e, 'g) peer_env \<Rightarrow> (u64 \<rightharpoonup> block_and_receipts) \<Rightarrow> 'x peer_act list \<Rightarrow> ('s, 'l, 'e) peer_system \<Rightarrow> bool" where
  "peer_state_safe env chain acts sys \<longleftrightarrow>
     sy_exit sys = None \<and> cache_sound chain (pp_cache (sy_service sys)) \<and>
     subseq (map fst (sy_replies sys)) (scheduled_requests acts) \<and>
     (\<forall>(req, resp) \<in> set (sy_replies sys). right_answer env chain req resp) \<and>
     length (bp_queue (sy_poller sys)) \<le> BLOCK_CHANNEL \<and>
     (\<not> connects acts \<longrightarrow> bp_task (sy_poller sys) = Suspended \<and> sy_announced sys = []) \<and>
     (\<exists>h msgs. consecutive_blocks chain h (msgs @ bp_queue (sy_poller sys)) \<and>
       list_all2 announces msgs (sy_announced sys))"

lemma system_new_ok:
  assumes "good s" "bp_queue p = []" "bp_task p = Suspended"
  shows "system_ok env good chain h [] (peer_system_new env p s spot)"
  using assms
  by (simp add: system_ok_def peer_system_new_def pseudo_peer_new_def peer_ok_def cache_sound_def task_ok_def
      new_blockhash_cache_def bimap_new_def get_by_left_def get_by_right_def)

lemma start_pseudo_peer_system:
  assumes "start_pseudo_peer env network_manager_new parse_peer key dspec peer s spot = Returns (Ok (network, sys))"
  shows "sys = peer_system_new env (new_suspended (chain_id (pe_chain_spec env))) s spot"
  using assms
  by (auto simp: start_pseudo_peer_def create_network_manager_def network_builder_build_def with_chain_spec_def
      Let_def run_bind_eq_Returns_iff res_bind_eq_Ok_iff)

text \<open>
  Every state that a run reaches is safe, under every schedule of the event loop, the
  poller, the network manager and the source.
\<close>

lemma peer_run_safe:
  assumes "announcing_peer env good chain" "good s"
    and "start_pseudo_peer env network_manager_new parse_peer key dspec peer s spot = Returns (Ok (network, sys0))"
    and "peer_run env turn acts sys0 = Returns sys" "\<And>x. SourceTurn x \<in> set acts \<Longrightarrow> keeps_good turn good x"
  shows "peer_state_safe env chain acts sys"
proof -
  note sys0 = start_pseudo_peer_system [OF assms(3)]
  have "system_ok env good chain 0 [] sys0"
    unfolding sys0 using assms(2) by (intro system_new_ok) (simp_all add: new_suspended_def)
  from peer_run_ok [OF assms(1) this assms(4,5)] obtain h msgs where
    ok: "system_ok env good chain h msgs sys" and
    frame: "subseq (map fst (sy_replies sys)) (scheduled_requests acts)" "\<not> connects acts \<longrightarrow> sy_first sys"
    by (auto simp: sys0 peer_system_new_def)
  have "bp_task (sy_poller sys) = Suspended \<and> sy_announced sys = []" if "\<not> connects acts"
    using ok frame(2) that by (auto simp: system_ok_def task_ok_def split: poller_task.splits)
  with ok frame(1) show ?thesis by (auto simp: system_ok_def peer_ok_def peer_state_safe_def)
qed

section \<open>An example\<close>

text \<open>The example peer with the hash its one block is sealed with; a peer connects and asks for a header.\<close>

definition example_announcer :: "(unit, b256 list, unit, unit) peer_env" where
  "example_announcer = example_peer_env\<lparr>pe_hash_slow := (\<lambda>_. bar_hash example_height_one)\<rparr>"

lemma example_announcer_simps [simp]:
  "pe_src example_announcer = pe_src example_peer_env" "pe_lru example_announcer = pe_lru example_peer_env"
  "pe_chain_spec example_announcer = pe_chain_spec example_peer_env" "pe_iter example_announcer = pe_iter example_peer_env"
  "pe_rpc example_announcer = pe_rpc example_peer_env" "pe_post example_announcer = pe_post example_peer_env"
  "pe_hash_slow example_announcer h = bar_hash example_height_one"
  by (simp_all add: example_announcer_def)

interpretation announcer: announcing_peer example_announcer "\<lambda>_. True" example_chain
proof
  show "pe_hash_slow example_announcer (bar_header b) = bar_hash b" if "example_chain n = Some b" for n b
    using that by (auto simp: example_chain_def split: if_splits)
qed (use example_peer.numbered example_peer.iter_entries blocks_dir.collect_faithful in auto)

definition example_schedule :: "unit peer_act list" where
  "example_schedule = [PollerTurn, LoopTurn (NetworkEvent OtherNetworkEvent), LoopTurn (NetworkEvent ActivePeerSession),
     PollerTurn, LoopTurn (EthRequest (GetBlockHeaders (AtNumber 1) 1 0 Rising)), PollerTurn, LoopTurn TransactionMessage,
     PollerTurn, NetworkPoll]"

end
