(* ===== verification/Hl_Node_Files.thy ===== *)
theory Hl_Node_Files
  imports Block_Sources "HOL-Library.Char_ord" "HOL-Library.List_Lexorder" "HOL-Library.Product_Lexorder"
begin

text \<open>
  The hourly files of a local \<open>hl-node\<close> (\<open>src/src/pseudo_peer/sources/hl_node\<close>:
  \<open>time_utils.rs\<close>, \<open>scan.rs\<close>, \<open>file_ops.rs\<close>). The node writes one JSON line per block into
  \<open>hourly/<date>/<hour>\<close>; the program finds the files, reads the last complete line of one,
  and scans a file for the blocks and the ranges of heights it holds.

  A path is the list of its components, so that the library's lexicographic order is the order
  of \<open>Path\<close>; text is the list of its bytes; an \<open>OffsetDateTime\<close> is the instant it denotes, in
  nanoseconds. The file system, the clock, the JSON decoder and the calendar of the \<open>time\<close>
  crate are arguments; \<open>BufRead::lines\<close>, \<open>str::from_utf8\<close> and \<open>str::trim\<close> of the standard
  library are modelled.
\<close>

section \<open>The environment\<close>

type_synonym path = "string list"

datatype local_block_and_receipts = LocalBlockAndReceipts string block_and_receipts

text \<open>
  \<open>ne_read_dir\<close> fails or lists the entries, each of which may fail to be read; \<open>ne_open\<close> fails,
  or the file opens and reading it fails, or gives its contents. \<open>ne_format_date\<close> and
  \<open>ne_parse_date\<close> are for the format \<open>[year][month][day]\<close>, \<open>ne_from_hms\<close> is the offset of a
  full hour in its day.
\<close>

record 'w node_env =
  ne_read_dir :: "'w \<Rightarrow> path \<Rightarrow> path option list option"
  ne_exists :: "'w \<Rightarrow> path \<Rightarrow> bool"
  ne_open :: "'w \<Rightarrow> path \<Rightarrow> bytes option option"
  ne_now :: "'w \<Rightarrow> int"
  ne_from_str :: "bytes \<Rightarrow> local_block_and_receipts option"
  ne_parse_date :: "string \<Rightarrow> int option"
  ne_from_hms :: "u8 \<Rightarrow> int option"
  ne_format_date :: "int \<Rightarrow> string option"
  ne_hour :: "int \<Rightarrow> nat"

section \<open>Text of the standard library\<close>

text \<open>
  The length of the continuation that follows a first byte of a character, and the bounds of
  the byte that comes next.
\<close>

definition utf8_lead :: "u8 \<Rightarrow> (nat \<times> u8 \<times> u8) option" where
  "utf8_lead b =
     (if b < 0x80 then Some (0, 0, 0)
      else if 0xC2 \<le> b \<and> b \<le> 0xDF then Some (1, 0x80, 0xBF)
      else if b = 0xE0 then Some (2, 0xA0, 0xBF)
      else if b = 0xED then Some (2, 0x80, 0x9F)
      else if 0xE1 \<le> b \<and> b \<le> 0xEF then Some (2, 0x80, 0xBF)
      else if b = 0xF0 then Some (3, 0x90, 0xBF)
      else if 0xF1 \<le> b \<and> b \<le> 0xF3 then Some (3, 0x80, 0xBF)
      else if b = 0xF4 then Some (3, 0x80, 0x8F)
      else None)"

function valid_utf8 :: "bytes \<Rightarrow> bool" where
  "valid_utf8 [] = True"
| "valid_utf8 (b # bs) =
     (case utf8_lead b of None \<Rightarrow> False
      | Some (n, lo, hi) \<Rightarrow>
          n \<le> length bs \<and> (n = 0 \<or> lo \<le> bs ! 0 \<and> bs ! 0 \<le> hi) \<and>
          list_all (\<lambda>c. 0x80 \<le> c \<and> c \<le> 0xBF) (take (n - 1) (tl bs)) \<and> valid_utf8 (drop n bs))"
  by pat_completeness auto
termination
  by (relation "measure length") auto

text \<open>The length of a white-space character at the front, or 0.\<close>

definition white_len :: "bytes \<Rightarrow> nat" where
  "white_len bs =
     (if bs = [] then 0
      else if (0x09 \<le> bs ! 0 \<and> bs ! 0 \<le> 0x0D) \<or> bs ! 0 = 0x20 then 1
      else if take 2 bs \<in> {[0xC2, 0x85], [0xC2, 0xA0]} then 2
      else if take 3 bs \<in> {[0xE1, 0x9A, 0x80], [0xE2, 0x80, 0xA8], [0xE2, 0x80, 0xA9], [0xE2, 0x80, 0xAF],
                          [0xE2, 0x81, 0x9F], [0xE3, 0x80, 0x80]} then 3
      else if take 2 bs = [0xE2, 0x80] \<and> 2 < length bs \<and> 0x80 \<le> bs ! 2 \<and> bs ! 2 \<le> 0x8A then 3
      else 0)"

text \<open>\<open>line.trim().is_empty()\<close>.\<close>

function blank :: "bytes \<Rightarrow> bool" where
  "blank [] = True"
| "blank (b # bs) = (let n = white_len (b # bs) in if n = 0 then False else blank (drop (n - 1) bs))"
  by pat_completeness auto
termination
  by (relation "measure length") auto

text \<open>
  \<open>BufRead::lines\<close>: a line ends at a line feed, which is dropped with a carriage return before
  it; an unterminated last line counts unless it is empty.
\<close>

definition strip_cr :: "bytes \<Rightarrow> bytes" where
  "strip_cr line = (if line \<noteq> [] \<and> last line = 0x0D then butlast line else line)"

fun buf_lines :: "bytes \<Rightarrow> bytes \<Rightarrow> bytes list" where
  "buf_lines acc [] = (if acc = [] then [] else [rev acc])"
| "buf_lines acc (b # bs) =
     (if b = 0x0A then strip_cr (rev acc) # buf_lines [] bs else buf_lines (b # acc) bs)"

section \<open>Time\<close>

definition parse_u8 :: "string \<Rightarrow> u8 option" where
  "parse_u8 s =
     (case parse_u64 s of None \<Rightarrow> None | Some n \<Rightarrow> if n < 256 then Some (of_nat (unat n)) else None)"

definition datetime_from_path :: "'w node_env \<Rightarrow> path \<Rightarrow> int option" where
  "datetime_from_path env path =
     (case rev path of
        hour_part # dt_part # _ \<Rightarrow>
          (case ne_parse_date env dt_part of None \<Rightarrow> None
           | Some date \<Rightarrow> (case parse_u8 hour_part of None \<Rightarrow> None
             | Some h \<Rightarrow> map_option (\<lambda>time. date + time) (ne_from_hms env h)))
      | _ \<Rightarrow> None)"

definition date_from_datetime :: "'w node_env \<Rightarrow> int \<Rightarrow> string run" where
  "date_from_datetime env dt = unwrap (ne_format_date env dt)"

section \<open>Scanning a file\<close>

definition line_to_evm_block :: "'w node_env \<Rightarrow> bytes \<Rightarrow> (block_and_receipts \<times> u64) option" where
  "line_to_evm_block env line =
     (case ne_from_str env line of None \<Rightarrow> None
      | Some (LocalBlockAndReceipts _ parsed_block) \<Rightarrow>
          (case bar_block parsed_block of
             Reth115 b \<Rightarrow> Some (parsed_block, hdr_number (sh_header (sb_header b)))))"

record scan_result =
  sr_path :: path
  next_expected_height :: u64
  sr_new_blocks :: "block_and_receipts list"
  new_block_ranges :: "(u64 \<times> u64) list"

record scan_options =
  start_height :: u64
  only_load_ranges :: bool

text \<open>The variables of the loop in \<open>scan_hour_file\<close>.\<close>

record scan_state =
  last_line :: nat
  last_height :: u64
  new_blocks :: "block_and_receipts list"
  block_ranges :: "(u64 \<times> u64) list"
  current_range :: "(u64 \<times> u64) option"

definition scan_line :: "'w node_env \<Rightarrow> scan_options \<Rightarrow> nat \<times> bytes \<Rightarrow> scan_state \<Rightarrow> scan_state" where
  "scan_line env options = (\<lambda>(line_idx, line) st.
     if line_idx < last_line st \<or> blank line then st
     else case line_to_evm_block env line of
       None \<Rightarrow> st
     | Some (parsed_block, height) \<Rightarrow>
         let st = (if start_height options \<le> height
                   then st\<lparr>last_height := max (last_height st) height,
                           new_blocks := (if only_load_ranges options then new_blocks st
                                          else new_blocks st @ [parsed_block]),
                           last_line := line_idx\<rparr>
                   else st)
         in case current_range st of
              None \<Rightarrow> st\<lparr>current_range := Some (height, height)\<rparr>
            | Some (s, e) \<Rightarrow>
                if e + 1 = height then st\<lparr>current_range := Some (s, height)\<rparr>
                else st\<lparr>block_ranges := block_ranges st @ [(s, e)], current_range := Some (height, height)\<rparr>)"

definition close_ranges :: "scan_state \<Rightarrow> (u64 \<times> u64) list" where
  "close_ranges st = (case current_range st of None \<Rightarrow> block_ranges st | Some r \<Rightarrow> block_ranges st @ [r])"

definition scan_hour_file ::
  "'w node_env \<Rightarrow> 'w \<Rightarrow> path \<Rightarrow> nat \<Rightarrow> scan_options \<Rightarrow> (scan_result \<times> nat) run" where
  "scan_hour_file env w path from_line options =
     run_bind (unwrap (ne_open env w path)) (\<lambda>file.
     run_bind (unwrap file) (\<lambda>content.
       let lines = buf_lines [] content in
       if \<not> list_all valid_utf8 lines then Panics
       else
         let skip = (if from_line = 0 then 0 else from_line - 1);
             st = fold (scan_line env options) (drop skip (List.enumerate 0 lines))
                    \<lparr>last_line = from_line, last_height = start_height options, new_blocks = [],
                     block_ranges = [], current_range = None\<rparr>
         in Returns (\<lparr>sr_path = path, next_expected_height = last_height st + 1,
                      sr_new_blocks = new_blocks st, new_block_ranges = close_ranges st\<rparr>,
                     last_line st)))"

section \<open>Finding and reading the files\<close>

definition HOURLY_SUBDIR :: string where
  "HOURLY_SUBDIR = ''hourly''"

definition CHUNK_SIZE :: nat where
  "CHUNK_SIZE = 50000"

definition hourly_files_of :: "'w node_env \<Rightarrow> 'w \<Rightarrow> path \<Rightarrow> (int \<times> path) list" where
  "hourly_files_of env w dir =
     (case ne_read_dir env w dir of None \<Rightarrow> []
      | Some subentries \<Rightarrow>
          List.map_filter (\<lambda>p. map_option (\<lambda>dt. (dt, p)) (datetime_from_path env p))
            (List.map_filter id subentries))"

definition all_hourly_files :: "'w node_env \<Rightarrow> 'w \<Rightarrow> path \<Rightarrow> path list option" where
  "all_hourly_files env w root =
     (case ne_read_dir env w (root @ [HOURLY_SUBDIR]) of None \<Rightarrow> None
      | Some entries \<Rightarrow>
          (case those entries of None \<Rightarrow> None
           | Some dirs \<Rightarrow> Some (map snd (sort (concat (map (hourly_files_of env w) dirs))))))"

definition find_latest_hourly_file :: "'w node_env \<Rightarrow> 'w \<Rightarrow> path \<Rightarrow> path option" where
  "find_latest_hourly_file env w root =
     (case all_hourly_files env w root of None \<Rightarrow> None
      | Some files \<Rightarrow> if files = [] then None else Some (last files))"

text \<open>\<open>rposition\<close> of the line feed: what is before it and what is after it.\<close>

definition split_last_newline :: "bytes \<Rightarrow> (bytes \<times> bytes) option" where
  "split_last_newline bs =
     (if 0x0A \<in> set bs
      then Some (butlast (rev (dropWhile (\<lambda>b. b \<noteq> 0x0A) (rev bs))), rev (takeWhile (\<lambda>b. b \<noteq> 0x0A) (rev bs)))
      else None)"

text \<open>A line feed at the end is dropped.\<close>

definition pop_newline :: "bytes \<Rightarrow> bytes" where
  "pop_newline seen = (if seen \<noteq> [] \<and> last seen = 0x0A then butlast seen else seen)"

text \<open>
  The loop over the chunks of the file, from its end: \<open>tail\<close> (\<open>last_line\<close> in the code) holds the bytes that are
  still to be looked at. The code runs it with \<open>CHUNK_SIZE\<close>; a chunk size of 0 would never end.
\<close>

function read_last_loop ::
  "'w node_env \<Rightarrow> nat \<Rightarrow> bytes \<Rightarrow> nat \<Rightarrow> bytes \<Rightarrow> (block_and_receipts \<times> u64) option run" where
  "read_last_loop env chunk content pos tail =
     (if pos = 0 then
        (if valid_utf8 tail then Returns (line_to_evm_block env tail) else Panics)
      else if chunk = 0 then Diverges
      else
        let read_size = min pos chunk;
            buf = take read_size (drop (pos - read_size) content);
            tail = pop_newline (buf @ tail)
        in case split_last_newline tail of
             None \<Rightarrow> read_last_loop env chunk content (pos - read_size) tail
           | Some (before, candidate) \<Rightarrow>
               if \<not> valid_utf8 candidate then Panics
               else (case line_to_evm_block env candidate of
                       Some result \<Rightarrow> Returns (Some result)
                     | None \<Rightarrow> read_last_loop env chunk content (pos - read_size) before))"
  by pat_completeness auto
termination
  by (relation "measure (\<lambda>(env, chunk, content, pos, tail). pos)") auto

declare read_last_loop.simps [simp del]

definition read_last_complete_line ::
  "'w node_env \<Rightarrow> bytes \<Rightarrow> (block_and_receipts \<times> u64) option run" where
  "read_last_complete_line env content = read_last_loop env CHUNK_SIZE content (length content) []"

definition read_last_block_from_file ::
  "'w node_env \<Rightarrow> 'w \<Rightarrow> path \<Rightarrow> (block_and_receipts \<times> u64) option run" where
  "read_last_block_from_file env w path =
     (case ne_open env w path of None \<Rightarrow> Returns None
      | Some file \<Rightarrow> run_bind (unwrap file) (read_last_complete_line env))"

section \<open>Lemmas\<close>

subsection \<open>The last line\<close>

lemma split_last_newline_append [simp]:
  "0x0A \<notin> set c \<Longrightarrow> split_last_newline (a @ 0x0A # c) = Some (a, c)"
  by (auto simp: split_last_newline_def takeWhile_append dropWhile_append)

lemma split_last_newline_None [simp]: "0x0A \<notin> set c \<Longrightarrow> split_last_newline c = None"
  by (simp add: split_last_newline_def)

text \<open>
  The text before the final line feed: complete lines, the last of which is \<open>line\<close>.
\<close>

definition last_line_of :: "bytes \<Rightarrow> bytes \<Rightarrow> bytes \<Rightarrow> bool" where
  "last_line_of text before line \<longleftrightarrow>
     text = before @ line \<and> line \<noteq> [] \<and> 0x0A \<notin> set line \<and> (before \<noteq> [] \<longrightarrow> last before = 0x0A)"

lemma last_line_split:
  assumes "last_line_of text before line"
  shows "split_last_newline (drop p text) =
    (if length before \<le> p then None else Some (drop p (butlast before), line))"
proof (cases "length before \<le> p")
  case True
  with assms have "drop p text = drop (p - length before) line" "0x0A \<notin> set line"
    by (auto simp: last_line_of_def)
  then have "0x0A \<notin> set (drop p text)" by (metis in_set_dropD)
  with True show ?thesis by simp
next
  case False
  with assms obtain b where b: "before = b @ [0x0A]"
    by (metis append_butlast_last_id last_line_of_def le0 list.size(3))
  with False assms have "drop p text = drop p b @ 0x0A # line" "0x0A \<notin> set line"
    by (auto simp: last_line_of_def)
  with False b show ?thesis by simp
qed

lemma last_line_last:
  assumes "last_line_of text before line" "p < length text"
  shows "drop p text \<noteq> []" "last (drop p text) \<noteq> 0x0A"
proof -
  have "line \<noteq> []" "last text = last line" "0x0A \<notin> set line"
    using assms(1) by (auto simp: last_line_of_def)
  then have "last text \<noteq> 0x0A" by (metis last_in_set)
  with assms(2) show "drop p text \<noteq> []" "last (drop p text) \<noteq> 0x0A" by simp_all
qed

lemma drop_extend:
  assumes "r \<le> pos" "pos \<le> length text"
  shows "take r (drop (pos - r) (text @ ys)) @ drop pos text = drop (pos - r) text"
proof -
  have "take r (drop (pos - r) (text @ ys)) = take r (drop (pos - r) text)"
    using assms by simp
  moreover have "drop pos text = drop r (drop (pos - r) text)" using assms by simp
  ultimately show ?thesis by (metis append_take_drop_id)
qed

text \<open>One chunk: the bytes looked at become \<open>seen\<close>, without a line feed at their end.\<close>

lemma read_last_loop_step:
  assumes "0 < pos" "0 < chunk" "r = min pos chunk"
    and "pop_newline (take r (drop (pos - r) content) @ tail) = seen"
    and "split_last_newline seen = Some (before, line) \<Longrightarrow> valid_utf8 line \<and> line_to_evm_block env line = Some res"
    and "split_last_newline seen = None \<Longrightarrow> read_last_loop env chunk content (pos - r) seen = Returns (Some res)"
    and "split_last_newline seen \<noteq> None \<Longrightarrow> split_last_newline seen = Some (before, line)"
  shows "read_last_loop env chunk content pos tail = Returns (Some res)"
proof -
  have "read_last_loop env chunk content pos tail =
    (case split_last_newline seen of
       None \<Rightarrow> read_last_loop env chunk content (pos - r) seen
     | Some (before, candidate) \<Rightarrow>
         if \<not> valid_utf8 candidate then Panics
         else (case line_to_evm_block env candidate of
                 Some result \<Rightarrow> Returns (Some result)
               | None \<Rightarrow> read_last_loop env chunk content (pos - r) before))"
    using assms(1,2) by (subst read_last_loop.simps) (simp add: Let_def assms(3) [symmetric] assms(4) cong: option.case_cong)
  with assms(5-7) show ?thesis by (cases "split_last_newline seen") auto
qed

text \<open>Past the final line feed, the bytes looked at are a suffix of the text until the line is complete.\<close>

lemma read_last_loop_suffix:
  assumes last: "last_line_of text before line" and "0 < chunk"
    and "valid_utf8 line" "line_to_evm_block env line = Some res"
  shows "length before \<le> pos \<Longrightarrow> pos \<le> length text \<Longrightarrow>
    read_last_loop env chunk (text @ [0x0A]) pos (drop pos text) = Returns (Some res)"
proof (induction pos rule: less_induct)
  case (less pos)
  show ?case
  proof (cases "pos = 0")
    case True
    with less.prems last assms(3,4) show ?thesis
      by (simp add: read_last_loop.simps last_line_of_def)
  next
    case False
    let ?r = "min pos chunk"
    have p: "pos - ?r < pos" "pos - ?r < length text" using False \<open>0 < chunk\<close> less.prems by auto
    have "take ?r (drop (pos - ?r) (text @ [0x0A])) @ drop pos text = drop (pos - ?r) text"
      using less.prems by (intro drop_extend) simp_all
    then have seen: "pop_newline (take ?r (drop (pos - ?r) (text @ [0x0A])) @ drop pos text) = drop (pos - ?r) text"
      using last_line_last [OF last p(2)] by (simp add: pop_newline_def del: drop_append take_append)
    show ?thesis
      by (rule read_last_loop_step [OF _ \<open>0 < chunk\<close> refl seen])
        (use False p less.IH [OF p(1)] assms(3,4) in \<open>auto simp: last_line_split [OF last] split: if_splits\<close>)
  qed
qed

lemma read_last_loop_line:
  assumes last: "last_line_of text before line" and "0 < chunk"
    and "valid_utf8 line" "line_to_evm_block env line = Some res"
  shows "read_last_loop env chunk (text @ [0x0A]) (length (text @ [0x0A])) [] = Returns (Some res)"
proof -
  let ?n = "length (text @ [0x0A])"
  let ?r = "min ?n chunk"
  have p: "?n - ?r \<le> length text" using \<open>0 < chunk\<close> by simp
  have "length (drop (?n - ?r) (text @ [0x0A])) = ?r" by (simp only: length_drop diff_diff_cancel min.cobounded1)
  then have "take ?r (drop (?n - ?r) (text @ [0x0A])) = drop (?n - ?r) (text @ [0x0A])" by (metis order_refl take_all)
  also have "\<dots> = drop (?n - ?r) text @ [0x0A]" using p by (simp only: drop_append) simp
  finally have "take ?r (drop (?n - ?r) (text @ [0x0A])) = drop (?n - ?r) text @ [0x0A]" .
  then have seen: "pop_newline (take ?r (drop (?n - ?r) (text @ [0x0A])) @ []) = drop (?n - ?r) text"
    by (simp only: pop_newline_def append_Nil2) simp
  show ?thesis
    by (rule read_last_loop_step [OF _ \<open>0 < chunk\<close> refl seen])
      (use p read_last_loop_suffix [OF assms, of "?n - ?r"] assms(3,4)
        in \<open>auto simp: last_line_split [OF last] split: if_splits\<close>)
qed

subsection \<open>Scanning\<close>

text \<open>The lines a scan from \<open>from_line\<close> reads, with their heights.\<close>

definition scanned :: "'w node_env \<Rightarrow> nat \<Rightarrow> (nat \<times> bytes) list \<Rightarrow> (block_and_receipts \<times> u64) list" where
  "scanned env from_line ls =
     List.map_filter (\<lambda>(i, l). if i < from_line \<or> blank l then None else line_to_evm_block env l) ls"

lemma line_to_evm_block_height: "line_to_evm_block env l = Some (b, h) \<Longrightarrow> h = bar_number b"
  by (auto simp: line_to_evm_block_def bar_number_def split: option.splits local_block_and_receipts.splits evm_block.splits)

lemma scanned_height: "(b, h) \<in> set (scanned env n ls) \<Longrightarrow> h = bar_number b"
  by (auto simp: scanned_def List.map_filter_def dest!: line_to_evm_block_height split: if_splits)

lemma scanned_Nil [simp]: "scanned env n [] = []"
  by (simp add: scanned_def List.map_filter_def)

lemma scanned_Cons:
  "scanned env n ((i, l) # ls) =
     (if i < n \<or> blank l then [] else case line_to_evm_block env l of None \<Rightarrow> [] | Some r \<Rightarrow> [r]) @ scanned env n ls"
  by (simp add: scanned_def List.map_filter_def split: option.splits)

lemma scanned_append: "scanned env n (xs @ ys) = scanned env n xs @ scanned env n ys"
  by (simp add: scanned_def List.map_filter_def)

lemma scanned_before: "(\<And>i l. (i, l) \<in> set ls \<Longrightarrow> i < n) \<Longrightarrow> scanned env n ls = []"
  by (force simp: scanned_def List.map_filter_def filter_empty_conv)

lemma scanned_skip: "scanned env n (drop (n - 1) (List.enumerate 0 ls)) = scanned env n (List.enumerate 0 ls)"
proof -
  have "scanned env n (take (n - 1) (List.enumerate 0 ls)) = []"
  proof (rule scanned_before)
    fix i l assume "(i, l) \<in> set (take (n - 1) (List.enumerate 0 ls))"
    then obtain k where "k < n - 1" "k < length ls" "(i, l) = List.enumerate 0 ls ! k"
      by (auto simp: in_set_conv_nth)
    then have "i = k" by (simp add: nth_enumerate_eq)
    with \<open>k < n - 1\<close> show "i < n" by simp
  qed
  then show ?thesis by (metis append_Nil append_take_drop_id scanned_append)
qed

text \<open>The ranges alone: one height extends the current range or starts a new one.\<close>

definition add_height :: "u64 \<Rightarrow> (u64 \<times> u64) list \<times> (u64 \<times> u64) option \<Rightarrow> (u64 \<times> u64) list \<times> (u64 \<times> u64) option" where
  "add_height h = (\<lambda>(rs, cur). case cur of
       None \<Rightarrow> (rs, Some (h, h))
     | Some (s, e) \<Rightarrow> if e + 1 = h then (rs, Some (s, h)) else (rs @ [(s, e)], Some (h, h)))"

text \<open>One line, seen through the parts of the state.\<close>

lemma scan_line_parts:
  assumes "scan_line env opts (i, l) st = st'" "i < last_line st \<longleftrightarrow> i < n"
    and "scanned env n [(i, l)] = bs"
  shows "new_blocks st' = new_blocks st @
      (if only_load_ranges opts then [] else map fst (filter (\<lambda>(b, h). start_height opts \<le> h) bs))"
    and "last_height st' = fold max (map snd (filter (\<lambda>(b, h). start_height opts \<le> h) bs)) (last_height st)"
    and "(block_ranges st', current_range st') = fold add_height (map snd bs) (block_ranges st, current_range st)"
    and "last_line st' = last_line st \<or> \<not> i < n \<and> last_line st' = i"
  using assms
  by (auto simp: scan_line_def scanned_Cons add_height_def Let_def max.commute split: if_splits option.splits)

lemma scan_fold:
  assumes "sorted_wrt (<) (map fst ls)" "\<And>i l. (i, l) \<in> set ls \<Longrightarrow> i < last_line st \<longleftrightarrow> i < n"
    and "fold (scan_line env opts) ls st = st'" "scanned env n ls = bs"
  shows "new_blocks st' = new_blocks st @
      (if only_load_ranges opts then [] else map fst (filter (\<lambda>(b, h). start_height opts \<le> h) bs))"
    and "last_height st' = fold max (map snd (filter (\<lambda>(b, h). start_height opts \<le> h) bs)) (last_height st)"
    and "(block_ranges st', current_range st') = fold add_height (map snd bs) (block_ranges st, current_range st)"
    and "last_line st' \<in> insert (last_line st) (fst ` set ls)"
proof -
  have "new_blocks st' = new_blocks st @
      (if only_load_ranges opts then [] else map fst (filter (\<lambda>(b, h). start_height opts \<le> h) bs)) \<and>
    last_height st' = fold max (map snd (filter (\<lambda>(b, h). start_height opts \<le> h) bs)) (last_height st) \<and>
    (block_ranges st', current_range st') = fold add_height (map snd bs) (block_ranges st, current_range st) \<and>
    last_line st' \<in> insert (last_line st) (fst ` set ls)"
    using assms
  proof (induction ls arbitrary: st bs)
    case Nil
    then show ?case by simp
  next
    case (Cons x ls)
    obtain i l where x: "x = (i, l)" by (cases x)
    let ?st = "scan_line env opts (i, l) st"
    let ?b = "scanned env n [(i, l)]"
    note parts = scan_line_parts [OF refl, of i st n env l ?b opts]
    have i: "i < last_line st \<longleftrightarrow> i < n" using Cons.prems(2) [of i l] x by simp
    note line = parts [OF i refl]
    have bs: "bs = ?b @ scanned env n ls" using Cons.prems(4) x by (simp add: scanned_Cons)
    have "j < last_line ?st \<longleftrightarrow> j < n" if "(j, l') \<in> set ls" for j l'
    proof -
      have "i < j" using Cons.prems(1) x that by force
      moreover have "j < last_line st \<longleftrightarrow> j < n" using Cons.prems(2) that by (meson list.set_intros(2))
      ultimately show ?thesis using line(4) by auto
    qed
    moreover have "sorted_wrt (<) (map fst ls)" "fold (scan_line env opts) ls ?st = st'"
      using Cons.prems(1,3) x by simp_all
    ultimately have "new_blocks st' = new_blocks ?st @
      (if only_load_ranges opts then [] else map fst (filter (\<lambda>(b, h). start_height opts \<le> h) (scanned env n ls))) \<and>
      last_height st' = fold max (map snd (filter (\<lambda>(b, h). start_height opts \<le> h) (scanned env n ls))) (last_height ?st) \<and>
      (block_ranges st', current_range st') =
        fold add_height (map snd (scanned env n ls)) (block_ranges ?st, current_range ?st) \<and>
      last_line st' \<in> insert (last_line ?st) (fst ` set ls)"
      by (intro Cons.IH) auto
    with line show ?case by (auto simp: bs x)
  qed
  then show "new_blocks st' = new_blocks st @
      (if only_load_ranges opts then [] else map fst (filter (\<lambda>(b, h). start_height opts \<le> h) bs))"
    and "last_height st' = fold max (map snd (filter (\<lambda>(b, h). start_height opts \<le> h) bs)) (last_height st)"
    and "(block_ranges st', current_range st') = fold add_height (map snd bs) (block_ranges st, current_range st)"
    and "last_line st' \<in> insert (last_line st) (fst ` set ls)"
    by simp_all
qed

text \<open>The heights of a list of closed ranges.\<close>

definition in_ranges :: "(u64 \<times> u64) list \<Rightarrow> u64 \<Rightarrow> bool" where
  "in_ranges rs h \<longleftrightarrow> (\<exists>(s, e) \<in> set rs. s \<le> h \<and> h \<le> e)"

definition all_ranges :: "(u64 \<times> u64) list \<times> (u64 \<times> u64) option \<Rightarrow> (u64 \<times> u64) list" where
  "all_ranges = (\<lambda>(rs, cur). case cur of None \<Rightarrow> rs | Some r \<Rightarrow> rs @ [r])"

definition proper_ranges :: "(u64 \<times> u64) list \<Rightarrow> bool" where
  "proper_ranges rs \<longleftrightarrow> list_all (\<lambda>(s, e). s \<le> e \<and> e \<noteq> u64_max) rs"

lemma in_ranges_append: "in_ranges (xs @ ys) h \<longleftrightarrow> in_ranges xs h \<or> in_ranges ys h"
  by (auto simp: in_ranges_def)

lemma proper_ranges_append: "proper_ranges (xs @ ys) \<longleftrightarrow> proper_ranges xs \<and> proper_ranges ys"
  by (simp add: proper_ranges_def)

lemma u64_le_succ_iff:
  fixes x e :: u64
  assumes "e \<noteq> u64_max"
  shows "x \<le> e + 1 \<longleftrightarrow> x \<le> e \<or> x = e + 1"
proof -
  have "unat e \<noteq> 2 ^ 64 - 1" using assms unat_u64_max by (metis u64_eq_iff)
  then have "unat e < 2 ^ 64 - 1" using unat_u64_less [of e] by linarith
  then show ?thesis by (auto simp: word_le_nat_alt u64_eq_iff unat_Suc_no_wrap)
qed

lemma u64_less_succ:
  fixes e :: u64
  assumes "e \<noteq> u64_max"
  shows "e \<le> e + 1"
  using u64_le_succ_iff [OF assms, of e] by simp

lemma add_height_ranges:
  assumes "h \<noteq> u64_max" "proper_ranges (all_ranges st)"
  shows "proper_ranges (all_ranges (add_height h st)) \<and>
    (in_ranges (all_ranges (add_height h st)) x \<longleftrightarrow> in_ranges (all_ranges st) x \<or> x = h)"
proof -
  obtain rs cur where st: "st = (rs, cur)" by (cases st)
  show ?thesis
  proof (cases cur)
    case None
    with assms st show ?thesis
      by (auto simp: add_height_def all_ranges_def proper_ranges_append in_ranges_append)
        (auto simp: proper_ranges_def in_ranges_def)
  next
    case (Some r)
    obtain s e where r: "r = (s, e)" by (cases r)
    have "s \<le> e" "e \<noteq> u64_max"
      using assms(2) by (simp_all add: st Some r all_ranges_def proper_ranges_def)
    then have "s \<le> e + 1" using u64_less_succ by (metis order_trans)
    with assms \<open>s \<le> e\<close> u64_le_succ_iff [OF \<open>e \<noteq> u64_max\<close>, of x] show ?thesis
      by (auto simp: st Some r add_height_def all_ranges_def proper_ranges_append in_ranges_append)
        (auto simp: proper_ranges_def in_ranges_def)
  qed
qed

lemma fold_add_height_ranges:
  assumes "u64_max \<notin> set hs" "proper_ranges (all_ranges st)"
  shows "proper_ranges (all_ranges (fold add_height hs st)) \<and>
    (in_ranges (all_ranges (fold add_height hs st)) x \<longleftrightarrow> in_ranges (all_ranges st) x \<or> x \<in> set hs)"
  using assms
proof (induction hs arbitrary: st)
  case (Cons h hs)
  then have "proper_ranges (all_ranges (add_height h st)) \<and>
    (in_ranges (all_ranges (add_height h st)) x \<longleftrightarrow> in_ranges (all_ranges st) x \<or> x = h)"
    by (intro add_height_ranges) auto
  with Cons show ?case by auto
qed simp

lemma close_ranges_eq: "close_ranges st = all_ranges (block_ranges st, current_range st)"
  by (simp add: close_ranges_def all_ranges_def)

lemma enumerate_sorted: "sorted_wrt (<) (map fst (List.enumerate n xs))"
  by (simp add: sorted_wrt_upt)

lemma fst_enumerate: "x \<in> set (List.enumerate 0 ls) \<Longrightarrow> fst x < length ls"
  by (simp add: in_set_enumerate_eq)

text \<open>What a scan returns, in terms of the lines of the file.\<close>

lemma scan_hour_file_returns:
  assumes "ne_open env w path = Some (Some content)" "list_all valid_utf8 (buf_lines [] content)"
    and "scanned env from_line (List.enumerate 0 (buf_lines [] content)) = bs"
    and "\<And>b h. (b, h) \<in> set bs \<Longrightarrow> h \<noteq> u64_max"
  obtains res n where "scan_hour_file env w path from_line opts = Returns (res, n)"
    and "sr_path res = path"
    and "sr_new_blocks res =
      (if only_load_ranges opts then [] else map fst (filter (\<lambda>(b, h). start_height opts \<le> h) bs))"
    and "next_expected_height res =
      fold max (map snd (filter (\<lambda>(b, h). start_height opts \<le> h) bs)) (start_height opts) + 1"
    and "\<And>h. in_ranges (new_block_ranges res) h \<longleftrightarrow> h \<in> snd ` set bs"
    and "proper_ranges (new_block_ranges res)"
    and "n = from_line \<or> n < length (buf_lines [] content)"
proof -
  let ?ls = "drop (from_line - 1) (List.enumerate 0 (buf_lines [] content))"
  let ?st = "\<lparr>last_line = from_line, last_height = start_height opts, new_blocks = [],
      block_ranges = [], current_range = None\<rparr>"
  let ?st' = "fold (scan_line env opts) ?ls ?st"
  have sorted: "sorted_wrt (<) (map fst ?ls)"
    by (simp only: drop_map [symmetric]) (intro sorted_wrt_drop enumerate_sorted)
  have bs: "scanned env from_line ?ls = bs" using assms(3) by (simp only: scanned_skip)
  note fold = scan_fold [OF sorted, where st = ?st, OF _ refl bs, simplified]
  have run: "scan_hour_file env w path from_line opts = Returns (\<lparr>sr_path = path,
      next_expected_height = last_height ?st' + 1, sr_new_blocks = new_blocks ?st',
      new_block_ranges = close_ranges ?st'\<rparr>, last_line ?st')"
    using assms(1,2) by (simp add: scan_hour_file_def Let_def)
  have "u64_max \<notin> set (map snd bs)" using assms(4) by force
  then have ranges: "proper_ranges (close_ranges ?st') \<and> (in_ranges (close_ranges ?st') h \<longleftrightarrow> h \<in> snd ` set bs)" for h
    using fold_add_height_ranges [of "map snd bs" "([], None)" h] fold(3) [of opts]
    by (simp add: close_ranges_eq) (simp add: all_ranges_def proper_ranges_def in_ranges_def)
  have "last_line ?st' = from_line \<or> last_line ?st' < length (buf_lines [] content)"
    using fold(4) [of opts] by (auto dest!: in_set_dropD fst_enumerate)
  with that [OF run] fold(1,2) [of opts] ranges show thesis by simp
qed

subsection \<open>The files\<close>

lemma hourly_files_of_time:
  "(dt, p) \<in> set (hourly_files_of env w dir) \<Longrightarrow> datetime_from_path env p = Some dt"
  by (auto simp: hourly_files_of_def List.map_filter_def split: option.splits)

lemma all_hourly_files_listed:
  assumes "all_hourly_files env w root = Some files"
  shows "\<exists>fs. files = map snd (sort fs) \<and> (\<forall>dt p. (dt, p) \<in> set fs \<longrightarrow> datetime_from_path env p = Some dt)"
proof -
  from assms obtain dirs where "files = map snd (sort (concat (map (hourly_files_of env w) dirs)))"
    by (auto simp: all_hourly_files_def split: option.splits)
  moreover have "datetime_from_path env p = Some dt"
    if "(dt, p) \<in> set (concat (map (hourly_files_of env w) dirs))" for dt p
    using that by (auto dest: hourly_files_of_time)
  ultimately show ?thesis by blast
qed

text \<open>Every file has a time, and the files come in the order of their times.\<close>

lemma all_hourly_files_chronological:
  assumes "all_hourly_files env w root = Some files"
  shows "\<exists>times. map (datetime_from_path env) files = map Some times \<and> sorted times"
proof -
  obtain fs where fs: "files = map snd (sort fs)"
    "\<forall>dt p. (dt, p) \<in> set fs \<longrightarrow> datetime_from_path env p = Some dt"
    using all_hourly_files_listed [OF assms] by (elim exE conjE)
  have "map (datetime_from_path env) files = map Some (map fst (sort fs))"
    using fs by (auto simp: o_def)
  moreover have "sorted_wrt (\<lambda>x y. fst x \<le> fst y) (sort fs)"
    using sorted_sort [of fs] by (rule sorted_wrt_mono_rel [rotated]) (auto simp: less_eq_prod_def)
  then have "sorted (map fst (sort fs))" by (simp add: sorted_wrt_map)
  ultimately show ?thesis by blast
qed

lemma find_latest_hourly_file_latest:
  assumes "find_latest_hourly_file env w root = Some p"
  obtains files dt where "all_hourly_files env w root = Some files" "p \<in> set files"
    "datetime_from_path env p = Some dt"
    "\<And>q dt'. q \<in> set files \<Longrightarrow> datetime_from_path env q = Some dt' \<Longrightarrow> dt' \<le> dt"
proof -
  from assms obtain files where files: "all_hourly_files env w root = Some files" "files \<noteq> []" "p = last files"
    by (auto simp: find_latest_hourly_file_def split: option.splits if_splits)
  from all_hourly_files_chronological [OF files(1)] obtain times
    where times: "map (datetime_from_path env) files = map Some times" "sorted times" by blast
  then have "times \<noteq> []" using files(2) by auto
  have "datetime_from_path env p = Some (last times)"
    using times(1) files(2,3) \<open>times \<noteq> []\<close> by (metis last_map)
  moreover have "dt' \<le> last times" if "q \<in> set files" "datetime_from_path env q = Some dt'" for q dt'
  proof -
    have "Some dt' \<in> set (map Some times)" using that times(1) by (metis image_eqI list.set_map)
    then obtain i where "i < length times" "dt' = times ! i" by (auto simp: in_set_conv_nth)
    with times(2) \<open>times \<noteq> []\<close> show ?thesis
      by (auto simp: last_conv_nth intro!: sorted_nth_mono)
  qed
  ultimately show thesis using that files by simp
qed

section \<open>Properties\<close>

text \<open>
  C35. The last block of a file. If a file consists of complete lines, however long, the last of
  which is not empty, is valid UTF-8 and decodes to a block, then reading the file backwards in chunks returns
  that block.
\<close>

theorem read_last_complete_line_correct:
  assumes "last_line_of text before line" "valid_utf8 line" "line_to_evm_block env line = Some res"
  shows "read_last_complete_line env (text @ [0x0A]) = Returns (Some res)"
  using read_last_loop_line [OF assms(1) _ assms(2,3), of CHUNK_SIZE]
  by (simp add: read_last_complete_line_def CHUNK_SIZE_def)

text \<open>
  After a last line that does not decode (one that is still being written), the loop looks at
  one line per chunk only: in a file of at most one chunk, all the lines before it are decoded
  as if they were one.
\<close>

lemma read_last_complete_line_partial:
  assumes "0x0A \<notin> set partial" "partial \<noteq> []" "valid_utf8 partial" "line_to_evm_block env partial = None"
    and "length (before @ 0x0A # partial) \<le> CHUNK_SIZE"
  shows "read_last_complete_line env (before @ 0x0A # partial) =
    (if valid_utf8 before then Returns (line_to_evm_block env before) else Panics)"
proof -
  let ?c = "before @ 0x0A # partial"
  have "last ?c \<noteq> 0x0A" using assms(1,2) by (metis last.simps last_appendR last_in_set list.distinct(1))
  then have "pop_newline ?c = ?c" by (simp add: pop_newline_def)
  then have "read_last_loop env CHUNK_SIZE ?c (length ?c) [] = read_last_loop env CHUNK_SIZE ?c 0 before"
    using assms by (subst read_last_loop.simps) (simp add: Let_def min_absorb1 CHUNK_SIZE_def)
  then show ?thesis by (simp add: read_last_complete_line_def read_last_loop.simps [of _ _ _ 0])
qed

text \<open>
  C31. A scan of an hourly file. If the file can be read and no height is the largest number
  there is, the scan returns. Its blocks are those of the scanned lines at or above the start
  height, in the order of the file; its ranges cover exactly the heights of all scanned lines;
  the next expected height is one more than the highest of those blocks and the start height;
  and the line to go on from is the old one or a line of the file.
\<close>

theorem scan_hour_file_spec:
  assumes "ne_open env w path = Some (Some content)" "list_all valid_utf8 (buf_lines [] content)"
    and "scanned env from_line (List.enumerate 0 (buf_lines [] content)) = bs"
    and "u64_max \<notin> snd ` set bs"
  shows "\<exists>res n. scan_hour_file env w path from_line opts = Returns (res, n) \<and>
    sr_path res = path \<and>
    sr_new_blocks res =
      (if only_load_ranges opts then [] else map fst (filter (\<lambda>(b, h). start_height opts \<le> h) bs)) \<and>
    next_expected_height res =
      fold max (map snd (filter (\<lambda>(b, h). start_height opts \<le> h) bs)) (start_height opts) + 1 \<and>
    {h. in_ranges (new_block_ranges res) h} = snd ` set bs \<and> proper_ranges (new_block_ranges res) \<and>
    (n = from_line \<or> n < length (buf_lines [] content))"
proof -
  have bounded: "\<And>b h. (b, h) \<in> set bs \<Longrightarrow> h \<noteq> u64_max" using assms(4) by force
  show ?thesis
    by (rule scan_hour_file_returns [OF assms(1-3) bounded, where opts = opts]) auto
qed

section \<open>An example\<close>

text \<open>A world with one hourly file, whose line \<open>1\<close> stands for the block of height 1.\<close>

definition example_node_env :: "unit node_env" where
  "example_node_env = \<lparr>
     ne_read_dir = (\<lambda>_ p. if p = [''hourly''] then Some [Some [''hourly'', ''20250731'']]
       else if p = [''hourly'', ''20250731''] then Some [Some [''hourly'', ''20250731'', ''4'']] else None),
     ne_exists = (\<lambda>_ p. p = [''hourly'', ''20250731'', ''4'']),
     ne_open = (\<lambda>_ p. if p = [''hourly'', ''20250731'', ''4''] then Some (Some [0x31, 0x0A]) else None),
     ne_now = (\<lambda>_. 0),
     ne_from_str = (\<lambda>l. if l = [0x31] then Some (LocalBlockAndReceipts '''' example_height_one) else None),
     ne_parse_date = (\<lambda>d. if d = ''20250731'' then Some 0 else None),
     ne_from_hms = (\<lambda>h. if h < 24 then Some (of_nat (unat h) * 3600000000000) else None),
     ne_format_date = (\<lambda>_. Some ''20250731''),
     ne_hour = (\<lambda>_. 4)\<rparr>"

lemma example_line: "line_to_evm_block example_node_env [0x31] = Some (example_height_one, 1)"
  by (simp add: line_to_evm_block_def example_node_env_def example_height_one_def)

lemma example_line_utf8: "valid_utf8 [0x31]"
  by (simp add: utf8_lead_def)

lemma example_scanned: "scanned example_node_env 0 (List.enumerate 0 (buf_lines [] [0x31, 0x0A])) = [(example_height_one, 1)]"
  by (simp add: scanned_Cons example_line strip_cr_def white_len_def)

theorem read_last_complete_line_correct_witness:
  "read_last_complete_line example_node_env ([0x31] @ [0x0A]) = Returns (Some (example_height_one, 1))"
  by (rule read_last_complete_line_correct [OF _ example_line_utf8 example_line, of _ "[]"])
    (simp add: last_line_of_def)

theorem scan_hour_file_spec_witness:
  "\<exists>res n. scan_hour_file example_node_env () [''hourly'', ''20250731'', ''4''] 0
      \<lparr>start_height = 1, only_load_ranges = False\<rparr> = Returns (res, n) \<and>
    sr_new_blocks res = [example_height_one] \<and> next_expected_height res = 2"
proof -
  have "ne_open example_node_env () [''hourly'', ''20250731'', ''4''] = Some (Some [0x31, 0x0A])"
    by (simp add: example_node_env_def)
  moreover have "list_all valid_utf8 (buf_lines [] [0x31, 0x0A])"
    by (simp add: strip_cr_def utf8_lead_def)
  ultimately show ?thesis
    using scan_hour_file_spec [where opts = "\<lparr>start_height = 1, only_load_ranges = False\<rparr>", OF _ _ example_scanned]
    by (force simp: u64_max_def)
qed

end
