(* ===== verification/Hl_Node_Source.thy ===== *)
theory Hl_Node_Source
  imports Hl_Node_Files
begin

text \<open>
  The block source that follows a local \<open>hl-node\<close>
  (\<open>src/src/pseudo_peer/sources/hl_node/mod.rs\<close> and \<open>cache.rs\<close>). It keeps the blocks it has
  scanned in an LRU map and the ranges of heights each hourly file holds in a range map; a
  block that is no longer in the map is loaded again from its file; a block that no file
  holds is fetched from a fallback source, but not while the local node may still catch up.
  A task of its own follows the file that is being written.

  The LRU map (\<open>reth_network::cache::LruMap\<close>), the range map (\<open>rangemap::RangeInclusiveMap\<close>),
  the file system and the clock are arguments. The metrics are counters. \<open>log_range_summary\<close>
  only writes to the log and is left out.
\<close>

section \<open>The cache of local blocks\<close>

record ('m, 'r) cache_ops =
  lc_new :: "nat \<Rightarrow> 'm"
  lc_insert :: "u64 \<Rightarrow> block_and_receipts \<Rightarrow> 'm \<Rightarrow> 'm"
  lc_remove :: "u64 \<Rightarrow> 'm \<Rightarrow> 'm \<times> block_and_receipts option"
  rm_new :: 'r
  rm_insert :: "u64 \<times> u64 \<Rightarrow> path \<Rightarrow> 'r \<Rightarrow> 'r run"
  rm_get :: "u64 \<Rightarrow> 'r \<Rightarrow> path option"

record ('m, 'r) local_blocks_cache =
  lb_cache :: 'm
  lb_ranges :: 'r

definition local_blocks_cache_new :: "('m, 'r) cache_ops \<Rightarrow> nat \<Rightarrow> ('m, 'r) local_blocks_cache" where
  "local_blocks_cache_new ops cache_size = \<lparr>lb_cache = lc_new ops cache_size, lb_ranges = rm_new ops\<rparr>"

definition insert_block :: "('m, 'r) cache_ops \<Rightarrow> block_and_receipts \<Rightarrow> 'm \<Rightarrow> 'm" where
  "insert_block ops blk =
     (case bar_block blk of Reth115 b \<Rightarrow> lc_insert ops (hdr_number (sh_header (sb_header b))) blk)"

definition load_scan_result ::
  "('m, 'r) cache_ops \<Rightarrow> scan_result \<Rightarrow> ('m, 'r) local_blocks_cache \<Rightarrow> ('m, 'r) local_blocks_cache run" where
  "load_scan_result ops sr c =
     (let cache = fold (insert_block ops) (sr_new_blocks sr) (lb_cache c)
      in run_bind (run_fold (\<lambda>range. rm_insert ops range (sr_path sr)) (new_block_ranges sr) (lb_ranges c))
           (\<lambda>ranges. Returns \<lparr>lb_cache = cache, lb_ranges = ranges\<rparr>))"

definition get_block ::
  "('m, 'r) cache_ops \<Rightarrow> u64 \<Rightarrow> ('m, 'r) local_blocks_cache \<Rightarrow>
     ('m, 'r) local_blocks_cache \<times> block_and_receipts option" where
  "get_block ops height c =
     (case lc_remove ops height (lb_cache c) of (cache, r) \<Rightarrow> (c\<lparr>lb_cache := cache\<rparr>, r))"

definition get_path_for_height :: "('m, 'r) cache_ops \<Rightarrow> u64 \<Rightarrow> ('m, 'r) local_blocks_cache \<Rightarrow> path option" where
  "get_path_for_height ops height c = rm_get ops height (lb_ranges c)"

section \<open>The source\<close>

definition CACHE_SIZE :: nat where
  "CACHE_SIZE = 8000"

text \<open>In nanoseconds.\<close>

definition ONE_HOUR :: int where
  "ONE_HOUR = 3600000000000"

record hl_node_args =
  args_root :: path
  fallback_threshold :: int

text \<open>The variables of the task that follows the files: the hour file it reads and how far.\<close>

record ingest =
  ig_next_height :: u64
  ig_dt :: int
  ig_hour :: nat
  ig_day :: string
  ig_last_line :: nat

text \<open>The task is spawned with the height it starts from; it waits for a first file.\<close>

datatype ingest_task = NotSpawned | AwaitsFile u64 | Follows ingest

text \<open>The world is the file system and the clock as the operation finds them.\<close>

record ('m, 'r, 'w, 's) hl_node_state =
  local_blocks :: "('m, 'r) local_blocks_cache"
  last_local_fetch :: "(u64 \<times> int) option"
  fetched_from_hl_node :: nat
  fetched_from_fallback :: nat
  fallback_state :: 's
  ingest_loop :: ingest_task
  world :: 'w

datatype 'e hl_node_error = LimitingPollingRate | FallbackError 'e

definition update_last_fetch :: "u64 \<Rightarrow> int \<Rightarrow> (u64 \<times> int) option \<Rightarrow> (u64 \<times> int) option" where
  "update_last_fetch height now last_fetch =
     (case last_fetch of None \<Rightarrow> Some (height, now)
      | Some (h, _) \<Rightarrow> if h < height then Some (height, now) else last_fetch)"

definition try_collect_local_block ::
  "'w node_env \<Rightarrow> ('m, 'r) cache_ops \<Rightarrow> 'w \<Rightarrow> u64 \<Rightarrow> ('m, 'r) local_blocks_cache \<Rightarrow>
     (('m, 'r) local_blocks_cache \<times> block_and_receipts option) run" where
  "try_collect_local_block env ops w height u_cache =
     (case get_block ops height u_cache of
        (u_cache, Some block) \<Rightarrow> Returns (u_cache, Some block)
      | (u_cache, None) \<Rightarrow>
          (case get_path_for_height ops height u_cache of None \<Rightarrow> Returns (u_cache, None)
           | Some path \<Rightarrow>
               run_bind (scan_hour_file env w path 0 \<lparr>start_height = 0, only_load_ranges = False\<rparr>)
                 (\<lambda>(scan_result, _). run_bind (load_scan_result ops scan_result u_cache)
                   (\<lambda>u_cache. Returns (get_block ops height u_cache)))))"

definition hl_node_collect_block ::
  "'w node_env \<Rightarrow> ('m, 'r) cache_ops \<Rightarrow> hl_node_args \<Rightarrow> ('s, 'e) block_source \<Rightarrow> u64 \<Rightarrow>
     ('m, 'r, 'w, 's) hl_node_state \<Rightarrow>
     (('m, 'r, 'w, 's) hl_node_state \<times> (block_and_receipts, 'e hl_node_error) result) run" where
  "hl_node_collect_block env ops args fallback height st =
     (let now = ne_now env (world st) in
      run_bind (try_collect_local_block env ops (world st) height (local_blocks st)) (\<lambda>(cache, found).
      let st = st\<lparr>local_blocks := cache\<rparr> in
      case found of
        Some block \<Rightarrow>
          Returns (st\<lparr>last_local_fetch := update_last_fetch height now (last_local_fetch st),
                      fetched_from_hl_node := fetched_from_hl_node st + 1\<rparr>, Ok block)
      | None \<Rightarrow>
          if (case last_local_fetch st of None \<Rightarrow> False
              | Some (fetched_height, last_poll_time) \<Rightarrow>
                  fetched_height < height \<and> now - last_poll_time < fallback_threshold args)
          then Returns (st, Err LimitingPollingRate)
          else run_bind (src_collect fallback height (fallback_state st)) (\<lambda>(s, r).
            let st = st\<lparr>fallback_state := s\<rparr> in
            case r of
              Err e \<Rightarrow> Returns (st, Err (FallbackError e))
            | Ok block \<Rightarrow>
                Returns (st\<lparr>fetched_from_fallback := fetched_from_fallback st + 1,
                            last_local_fetch := update_last_fetch height now (last_local_fetch st)\<rparr>, Ok block))))"

definition hl_node_find_latest_block_number ::
  "'w node_env \<Rightarrow> hl_node_args \<Rightarrow> ('s, 'e) block_source \<Rightarrow> ('m, 'r, 'w, 's) hl_node_state \<Rightarrow>
     (('m, 'r, 'w, 's) hl_node_state \<times> u64 option) run" where
  "hl_node_find_latest_block_number env args fallback st =
     (let ask_fallback = run_bind (src_latest fallback (fallback_state st))
            (\<lambda>(s, l). Returns (st\<lparr>fallback_state := s\<rparr>, l))
      in case find_latest_hourly_file env (world st) (args_root args) of
           None \<Rightarrow> ask_fallback
         | Some dir \<Rightarrow> run_bind (read_last_block_from_file env (world st) dir) (\<lambda>r. case r of
               Some (_, height) \<Rightarrow> Returns (st, Some height)
             | None \<Rightarrow> ask_fallback))"

definition hl_node_source ::
  "'w node_env \<Rightarrow> ('m, 'r) cache_ops \<Rightarrow> hl_node_args \<Rightarrow> ('s, 'e) block_source \<Rightarrow>
     (('m, 'r, 'w, 's) hl_node_state, 'e hl_node_error) block_source" where
  "hl_node_source env ops args fallback =
     \<lparr>src_collect = hl_node_collect_block env ops args fallback,
      src_latest = hl_node_find_latest_block_number env args fallback,
      src_chunk = src_chunk fallback\<rparr>"

section \<open>Backfilling and following the files\<close>

definition backfill_file ::
  "'w node_env \<Rightarrow> ('m, 'r) cache_ops \<Rightarrow> 'w \<Rightarrow> u64 \<Rightarrow> path \<Rightarrow> ('m, 'r) local_blocks_cache \<Rightarrow>
     ('m, 'r) local_blocks_cache run" where
  "backfill_file env ops w cutoff_height subfile u_cache =
     run_bind (read_last_block_from_file env w subfile) (\<lambda>r.
       if (case r of Some (_, height) \<Rightarrow> height < cutoff_height | None \<Rightarrow> False) then Returns u_cache
       else run_bind (scan_hour_file env w subfile 0 \<lparr>start_height = cutoff_height, only_load_ranges = True\<rparr>)
              (\<lambda>(scan_result, _). load_scan_result ops (scan_result\<lparr>sr_new_blocks := []\<rparr>) u_cache))"

definition try_backfill_local_blocks ::
  "'w node_env \<Rightarrow> ('m, 'r) cache_ops \<Rightarrow> 'w \<Rightarrow> path \<Rightarrow> u64 \<Rightarrow> ('m, 'r) local_blocks_cache \<Rightarrow>
     ('m, 'r) local_blocks_cache run" where
  "try_backfill_local_blocks env ops w root cutoff_height u_cache =
     run_fold (backfill_file env ops w cutoff_height)
       (case all_hourly_files env w root of None \<Rightarrow> [] | Some files \<Rightarrow> files) u_cache"

text \<open>Before there is a file the task sleeps and looks again.\<close>

definition ingest_start :: "'w node_env \<Rightarrow> path \<Rightarrow> u64 \<Rightarrow> 'w \<Rightarrow> ingest option run" where
  "ingest_start env root current_head w =
     (case find_latest_hourly_file env w root of None \<Rightarrow> Returns None
      | Some f \<Rightarrow>
          run_bind (unwrap (datetime_from_path env f)) (\<lambda>dt.
          run_bind (date_from_datetime env dt) (\<lambda>day.
            Returns (Some \<lparr>ig_next_height = current_head, ig_dt = dt, ig_hour = ne_hour env dt,
                           ig_day = day, ig_last_line = 0\<rparr>))))"

definition ingest_step ::
  "'w node_env \<Rightarrow> ('m, 'r) cache_ops \<Rightarrow> path \<Rightarrow> 'w \<Rightarrow> ingest \<times> ('m, 'r) local_blocks_cache \<Rightarrow>
     (ingest \<times> ('m, 'r) local_blocks_cache) run" where
  "ingest_step env ops root w = (\<lambda>(ig, cache).
     let hour_file = root @ [HOURLY_SUBDIR, ig_day ig, show_nat (ig_hour ig)] in
     run_bind
       (if ne_exists env w hour_file
        then run_bind (scan_hour_file env w hour_file (ig_last_line ig)
                         \<lparr>start_height = ig_next_height ig, only_load_ranges = False\<rparr>)
               (\<lambda>(scan_result, last_line). run_bind (load_scan_result ops scan_result cache)
                 (\<lambda>cache. Returns (ig\<lparr>ig_next_height := next_expected_height scan_result,
                                      ig_last_line := last_line\<rparr>, cache)))
        else Returns (ig, cache))
       (\<lambda>(ig, cache).
         let now = ne_now env w in
         if ig_dt ig + ONE_HOUR < now
         then let dt = ig_dt ig + ONE_HOUR in
              run_bind (date_from_datetime env dt) (\<lambda>day.
                Returns (ig\<lparr>ig_dt := dt, ig_hour := ne_hour env dt, ig_day := day, ig_last_line := 0\<rparr>, cache))
         else Returns (ig, cache)))"

text \<open>One turn of the spawned task, up to the next time it sleeps or looks again.\<close>

definition ingest_turn ::
  "'w node_env \<Rightarrow> ('m, 'r) cache_ops \<Rightarrow> hl_node_args \<Rightarrow> ('m, 'r, 'w, 's) hl_node_state \<Rightarrow>
     ('m, 'r, 'w, 's) hl_node_state run" where
  "ingest_turn env ops args st =
     (case ingest_loop st of
        NotSpawned \<Rightarrow> Returns st
      | AwaitsFile current_head \<Rightarrow>
          run_bind (ingest_start env (args_root args) current_head (world st)) (\<lambda>r. case r of
            None \<Rightarrow> Returns st
          | Some ig \<Rightarrow> Returns (st\<lparr>ingest_loop := Follows ig\<rparr>))
      | Follows ig \<Rightarrow>
          run_bind (ingest_step env ops (args_root args) (world st) (ig, local_blocks st)) (\<lambda>(ig, cache).
            Returns (st\<lparr>local_blocks := cache, ingest_loop := Follows ig\<rparr>)))"

definition start_local_ingest_loop ::
  "u64 \<Rightarrow> ('m, 'r, 'w, 's) hl_node_state \<Rightarrow> ('m, 'r, 'w, 's) hl_node_state" where
  "start_local_ingest_loop current_head st = st\<lparr>ingest_loop := AwaitsFile current_head\<rparr>"

text \<open>\<open>run\<close>: the cache is backfilled, then the task is spawned.\<close>

definition hl_node_run ::
  "'w node_env \<Rightarrow> ('m, 'r) cache_ops \<Rightarrow> hl_node_args \<Rightarrow> u64 \<Rightarrow> ('m, 'r, 'w, 's) hl_node_state \<Rightarrow>
     ('m, 'r, 'w, 's) hl_node_state run" where
  "hl_node_run env ops args next_block_number st =
     run_bind (try_backfill_local_blocks env ops (world st) (args_root args) next_block_number (local_blocks st))
       (\<lambda>cache. Returns (start_local_ingest_loop next_block_number (st\<lparr>local_blocks := cache\<rparr>)))"

text \<open>\<open>HlNodeBlockSource::new\<close>: an empty cache, and \<open>run\<close>.\<close>

definition hl_node_source_new ::
  "'w node_env \<Rightarrow> ('m, 'r) cache_ops \<Rightarrow> hl_node_args \<Rightarrow> u64 \<Rightarrow> 's \<Rightarrow> 'w \<Rightarrow>
     ('m, 'r, 'w, 's) hl_node_state run" where
  "hl_node_source_new env ops args next_block_number fallback w =
     hl_node_run env ops args next_block_number
       \<lparr>local_blocks = local_blocks_cache_new ops CACHE_SIZE, last_local_fetch = None, fetched_from_hl_node = 0,
        fetched_from_fallback = 0, fallback_state = fallback, ingest_loop = NotSpawned, world = w\<rparr>"

section \<open>The maps\<close>

text \<open>
  What the source relies on. A new map is empty; an entry of the LRU map was inserted, and the
  last entries up to the capacity are kept; removing an entry returns it. A range map returns
  what was last inserted for a key; inserting an empty range panics.
\<close>

locale cache_laws =
  fixes ops :: "('m, 'r) cache_ops"
    and view :: "'m \<Rightarrow> u64 \<rightharpoonup> block_and_receipts"
  assumes lc_new_empty: "view (lc_new ops n) = Map.empty"
    and lc_insert_old: "view (lc_insert ops k v m) k' = Some v' \<Longrightarrow> k' = k \<and> v' = v \<or> view m k' = Some v'"
    and lc_insert_kept: "length kvs \<le> CACHE_SIZE \<Longrightarrow> k \<in> fst ` set kvs \<Longrightarrow>
      view (fold (\<lambda>(k, v). lc_insert ops k v) kvs (m :: 'm)) k \<noteq> None"
    and lc_remove_view: "lc_remove ops k m = (m', r) \<Longrightarrow> r = view m k \<and> view m' = (view m)(k := None)"
    and rm_new_empty: "rm_get ops k (rm_new ops) = None"
    and rm_insert_get: "s \<le> e \<Longrightarrow>
      \<exists>rs'. rm_insert ops (s, e) p rs = Returns rs' \<and>
           (\<forall>k. rm_get ops k rs' = (if s \<le> k \<and> k \<le> e then Some p else rm_get ops k rs))"
begin

lemma insert_block_eq: "insert_block ops blk = lc_insert ops (bar_number blk) blk"
  by (simp add: insert_block_def bar_number_def split: evm_block.splits)

lemma fold_insert_block_old:
  "view (fold (insert_block ops) bs m) k = Some v \<Longrightarrow> v \<in> set bs \<and> bar_number v = k \<or> view m k = Some v"
  by (induction bs arbitrary: m) (auto simp: insert_block_eq dest: lc_insert_old)

lemma fold_insert_block_kept:
  assumes "length bs \<le> CACHE_SIZE" "b \<in> set bs"
  shows "view (fold (insert_block ops) bs m) (bar_number b) \<noteq> None"
proof -
  have "fold (insert_block ops) bs m = fold (\<lambda>(k, v). lc_insert ops k v) (map (\<lambda>b. (bar_number b, b)) bs) m"
    by (simp add: fold_map o_def insert_block_eq [abs_def])
  moreover have "view (fold (\<lambda>(k, v). lc_insert ops k v) (map (\<lambda>b. (bar_number b, b)) bs) m) (bar_number b) \<noteq> None"
    by (rule lc_insert_kept) (use assms in force)+
  ultimately show ?thesis by simp
qed

text \<open>Loading proper ranges never panics, and they then lead to the path.\<close>

lemma insert_ranges:
  assumes "proper_ranges rs"
  shows "\<exists>m'. run_fold (\<lambda>range. rm_insert ops range p) rs m = Returns m' \<and>
    (\<forall>k. rm_get ops k m' = (if in_ranges rs k then Some p else rm_get ops k m))"
  using assms
proof (induction rs arbitrary: m)
  case Nil
  then show ?case by (simp add: in_ranges_def)
next
  case (Cons r rs)
  obtain s e where r: "r = (s, e)" by (cases r)
  with Cons.prems have "s \<le> e" "proper_ranges rs" by (simp_all add: proper_ranges_def)
  from rm_insert_get [OF this(1), of p m] obtain m1 where m1: "rm_insert ops (s, e) p m = Returns m1"
    "\<forall>k. rm_get ops k m1 = (if s \<le> k \<and> k \<le> e then Some p else rm_get ops k m)" by blast
  from Cons.IH [OF \<open>proper_ranges rs\<close>, of m1] m1 show ?case
    by (auto simp: r in_ranges_def)
qed

lemma load_scan_result_returns:
  assumes "proper_ranges (new_block_ranges sr)"
  obtains c' where "load_scan_result ops sr c = Returns c'"
    and "lb_cache c' = fold (insert_block ops) (sr_new_blocks sr) (lb_cache c)"
    and "\<And>k. get_path_for_height ops k c' =
      (if in_ranges (new_block_ranges sr) k then Some (sr_path sr) else get_path_for_height ops k c)"
  using insert_ranges [OF assms, of "sr_path sr" "lb_ranges c"]
  by (auto simp: load_scan_result_def get_path_for_height_def Let_def)

lemma load_scan_result_cache:
  "load_scan_result ops sr c = Returns c' \<Longrightarrow> lb_cache c' = fold (insert_block ops) (sr_new_blocks sr) (lb_cache c)"
  by (auto simp: load_scan_result_def Let_def run_bind_eq_Returns_iff)

lemma get_block_view:
  assumes "get_block ops h c = (c', r)"
  shows "r = view (lb_cache c) h" "view (lb_cache c') = (view (lb_cache c))(h := None)" "lb_ranges c' = lb_ranges c"
  using assms lc_remove_view by (auto simp: get_block_def split: prod.splits)

end

section \<open>The files hold the chain\<close>

text \<open>Every line of every file that decodes to a block is the block of its height.\<close>

definition files_hold :: "'w node_env \<Rightarrow> (u64 \<rightharpoonup> block_and_receipts) \<Rightarrow> 'w \<Rightarrow> bool" where
  "files_hold env chain w \<longleftrightarrow>
     (\<forall>path content line b h. ne_open env w path = Some (Some content) \<longrightarrow> line \<in> set (buf_lines [] content) \<longrightarrow>
        line_to_evm_block env line = Some (b, h) \<longrightarrow> chain h = Some b)"

definition cache_holds :: "('m \<Rightarrow> u64 \<rightharpoonup> block_and_receipts) \<Rightarrow> (u64 \<rightharpoonup> block_and_receipts) \<Rightarrow>
    ('m, 'r) local_blocks_cache \<Rightarrow> bool" where
  "cache_holds view chain c \<longleftrightarrow> (\<forall>h b. view (lb_cache c) h = Some b \<longrightarrow> chain h = Some b)"

lemma scanned_lines: "(b, h) \<in> set (scanned env n ls) \<Longrightarrow> \<exists>(i, l) \<in> set ls. line_to_evm_block env l = Some (b, h)"
  by (force simp: scanned_def List.map_filter_def split: if_splits)

lemma scan_hour_file_blocks:
  assumes "scan_hour_file env w path n opts = Returns (sr, n')" "b \<in> set (sr_new_blocks sr)"
  shows "\<exists>content. ne_open env w path = Some (Some content) \<and>
    (b, bar_number b) \<in> set (scanned env n (List.enumerate 0 (buf_lines [] content)))"
proof -
  from assms(1) obtain content where content: "ne_open env w path = Some (Some content)"
    by (auto simp: scan_hour_file_def run_bind_eq_Returns_iff unwrap_def split: option.splits)
  let ?ls = "drop (n - 1) (List.enumerate 0 (buf_lines [] content))"
  have sorted: "sorted_wrt (<) (map fst ?ls)"
    by (simp only: drop_map [symmetric]) (intro sorted_wrt_drop enumerate_sorted)
  let ?st = "\<lparr>last_line = n, last_height = start_height opts, new_blocks = [], block_ranges = [], current_range = None\<rparr>"
  have "sr_new_blocks sr = new_blocks (fold (scan_line env opts) ?ls ?st)"
    using assms(1) content by (auto simp: scan_hour_file_def Let_def split: if_splits)
  with assms(2) scan_fold(1) [OF sorted, where st = ?st, OF _ refl refl, where n = n and opts = opts and env = env]
  obtain h where "(b, h) \<in> set (scanned env n ?ls)" by (auto split: if_splits)
  then have "(b, h) \<in> set (scanned env n (List.enumerate 0 (buf_lines [] content)))" by (simp only: scanned_skip)
  with scanned_height [OF this] content show ?thesis by auto
qed

lemma scan_hour_file_holds:
  assumes "files_hold env chain w" "scan_hour_file env w path n opts = Returns (sr, n')" "b \<in> set (sr_new_blocks sr)"
  shows "chain (bar_number b) = Some b"
proof -
  from scan_hour_file_blocks [OF assms(2,3)] obtain content where content: "ne_open env w path = Some (Some content)"
    "(b, bar_number b) \<in> set (scanned env n (List.enumerate 0 (buf_lines [] content)))" by blast
  from scanned_lines [OF content(2)] obtain i l where "(i, l) \<in> set (List.enumerate 0 (buf_lines [] content))"
    "line_to_evm_block env l = Some (b, bar_number b)" by blast
  moreover from this(1) have "l \<in> set (buf_lines [] content)" by (auto simp: in_set_enumerate_eq)
  ultimately show ?thesis using assms(1) content(1) unfolding files_hold_def by blast
qed

text \<open>A request is answered locally, refused, or passed on to the fallback.\<close>

definition poll_limited :: "hl_node_args \<Rightarrow> u64 \<Rightarrow> int \<Rightarrow> (u64 \<times> int) option \<Rightarrow> bool" where
  "poll_limited args h now last_fetch \<longleftrightarrow>
     (case last_fetch of None \<Rightarrow> False | Some (h0, t0) \<Rightarrow> h0 < h \<and> now - t0 < fallback_threshold args)"

lemma hl_node_collect_cases:
  assumes "hl_node_collect_block env ops args fallback h st = Returns (st', r)"
  obtains (local) c b where "try_collect_local_block env ops (world st) h (local_blocks st) = Returns (c, Some b)"
      "r = Ok b" "st' = st\<lparr>local_blocks := c,
        last_local_fetch := update_last_fetch h (ne_now env (world st)) (last_local_fetch st),
        fetched_from_hl_node := fetched_from_hl_node st + 1\<rparr>"
  | (limited) c where "try_collect_local_block env ops (world st) h (local_blocks st) = Returns (c, None)"
      "poll_limited args h (ne_now env (world st)) (last_local_fetch st)"
      "r = Err LimitingPollingRate" "st' = st\<lparr>local_blocks := c\<rparr>"
  | (failed) c s e where "try_collect_local_block env ops (world st) h (local_blocks st) = Returns (c, None)"
      "\<not> poll_limited args h (ne_now env (world st)) (last_local_fetch st)"
      "src_collect fallback h (fallback_state st) = Returns (s, Err e)"
      "r = Err (FallbackError e)" "st' = st\<lparr>local_blocks := c, fallback_state := s\<rparr>"
  | (fallback) c s b where "try_collect_local_block env ops (world st) h (local_blocks st) = Returns (c, None)"
      "\<not> poll_limited args h (ne_now env (world st)) (last_local_fetch st)"
      "src_collect fallback h (fallback_state st) = Returns (s, Ok b)" "r = Ok b"
      "st' = st\<lparr>local_blocks := c, fallback_state := s,
        fetched_from_fallback := fetched_from_fallback st + 1,
        last_local_fetch := update_last_fetch h (ne_now env (world st)) (last_local_fetch st)\<rparr>"
proof -
  from assms obtain c found
    where local: "try_collect_local_block env ops (world st) h (local_blocks st) = Returns (c, found)"
    by (auto simp: hl_node_collect_block_def Let_def run_bind_eq_Returns_iff)
  show thesis
  proof (cases found)
    case (Some b)
    with assms local that(1) [of c b] show thesis by (simp add: hl_node_collect_block_def Let_def)
  next
    case None
    note run = assms [unfolded hl_node_collect_block_def Let_def local None run_bind_simps prod.case option.case
        hl_node_state.simps poll_limited_def [symmetric]]
    show thesis
    proof (cases "poll_limited args h (ne_now env (world st)) (last_local_fetch st)")
      case True
      with run local None that(2) [of c] show thesis by simp
    next
      case False
      with run obtain s r' where src: "src_collect fallback h (fallback_state st) = Returns (s, r')"
        by (auto simp: run_bind_eq_Returns_iff)
      with False run local None that(3,4) show thesis by (cases r') simp_all
    qed
  qed
qed

context cache_laws
begin

lemma load_scan_result_holds:
  assumes "cache_holds view chain c" "load_scan_result ops sr c = Returns c'"
    and "\<And>b. b \<in> set (sr_new_blocks sr) \<Longrightarrow> chain (bar_number b) = Some b"
  shows "cache_holds view chain c'"
  using assms load_scan_result_cache [OF assms(2)]
  by (auto simp: cache_holds_def dest!: fold_insert_block_old)

lemma get_block_holds:
  assumes "cache_holds view chain c" "get_block ops h c = (c', r)"
  shows "cache_holds view chain c'" "r = Some b \<Longrightarrow> chain h = Some b"
  using assms get_block_view [OF assms(2)] by (auto simp: cache_holds_def split: if_splits)

lemma try_collect_holds:
  assumes "cache_holds view chain c" "files_hold env chain w"
    and "try_collect_local_block env ops w h c = Returns (c', r)"
  shows "cache_holds view chain c' \<and> (\<forall>b. r = Some b \<longrightarrow> chain h = Some b)"
proof -
  obtain c1 r1 where get: "get_block ops h c = (c1, r1)" by (cases "get_block ops h c")
  note c1 = get_block_holds [OF assms(1) get]
  show ?thesis
  proof (cases "r1 = None \<and> get_path_for_height ops h c1 \<noteq> None")
    case False
    with assms(3) get c1 show ?thesis
      by (auto simp: try_collect_local_block_def split: option.splits)
  next
    case True
    with assms(3) get obtain path sr n c2 where path: "get_path_for_height ops h c1 = Some path"
      and scan: "scan_hour_file env w path 0 \<lparr>start_height = 0, only_load_ranges = False\<rparr> = Returns (sr, n)"
      and load: "load_scan_result ops sr c1 = Returns c2" and got: "get_block ops h c2 = (c', r)"
      by (auto simp: try_collect_local_block_def run_bind_eq_Returns_iff)
    have "cache_holds view chain c2"
      by (rule load_scan_result_holds [OF c1(1) load]) (rule scan_hour_file_holds [OF assms(2) scan])
    from get_block_holds [OF this got] show ?thesis by blast
  qed
qed

text \<open>A block whose file can be read and is not larger than the cache is found.\<close>

lemma try_collect_found:
  assumes "get_path_for_height ops h c = Some path" "ne_open env w path = Some (Some content)"
    and "list_all valid_utf8 (buf_lines [] content)"
    and "scanned env 0 (List.enumerate 0 (buf_lines [] content)) = bs" "length bs \<le> CACHE_SIZE"
    and "u64_max \<notin> snd ` set bs" "h \<in> snd ` set bs"
  shows "\<exists>c' b. try_collect_local_block env ops w h c = Returns (c', Some b)"
proof -
  obtain c1 r1 where get: "get_block ops h c = (c1, r1)" by (cases "get_block ops h c")
  show ?thesis
  proof (cases r1)
    case (Some b)
    with get show ?thesis by (simp add: try_collect_local_block_def)
  next
    case None
    have path: "get_path_for_height ops h c1 = Some path"
      using assms(1) get_block_view(3) [OF get] by (simp add: get_path_for_height_def)
    have bounded: "\<And>b h. (b, h) \<in> set bs \<Longrightarrow> h \<noteq> u64_max" using assms(6) by force
    obtain sr n where scan: "scan_hour_file env w path 0 \<lparr>start_height = 0, only_load_ranges = False\<rparr> = Returns (sr, n)"
      and blocks: "sr_new_blocks sr = map fst bs" and proper: "proper_ranges (new_block_ranges sr)"
      by (rule scan_hour_file_returns [OF assms(2-4) bounded,
            where opts = "\<lparr>start_height = 0, only_load_ranges = False\<rparr>"])
        (auto simp: case_prod_unfold)
    from load_scan_result_returns [OF proper, of c1] obtain c2 where load: "load_scan_result ops sr c1 = Returns c2"
      and cache: "lb_cache c2 = fold (insert_block ops) (map fst bs) (lb_cache c1)"
      unfolding blocks by metis
    from assms(7) obtain b where b: "(b, h) \<in> set bs" by force
    with assms(4) have h: "h = bar_number b" using scanned_height by metis
    have "b \<in> set (map fst bs)" using b by force
    with assms(5) have found: "view (lb_cache c2) h \<noteq> None"
      unfolding cache h by (intro fold_insert_block_kept) simp_all
    obtain c3 r3 where got: "get_block ops h c2 = (c3, r3)" by (cases "get_block ops h c2")
    have "r3 \<noteq> None" using found get_block_view(1) [OF got] by simp
    with get None path scan load got show ?thesis by (auto simp: try_collect_local_block_def)
  qed
qed

text \<open>The parts of a call that finds the block locally, and of one that does not.\<close>

lemma hl_node_collect_local:
  assumes "try_collect_local_block env ops (world st) h (local_blocks st) = Returns (c, Some b)"
  shows "hl_node_collect_block env ops args fallback h st =
    Returns (st\<lparr>local_blocks := c,
                last_local_fetch := update_last_fetch h (ne_now env (world st)) (last_local_fetch st),
                fetched_from_hl_node := fetched_from_hl_node st + 1\<rparr>, Ok b)"
  using assms by (simp add: hl_node_collect_block_def Let_def)

lemma hl_node_collect_faithful:
  assumes "faithful_source fallback good chain"
    and "cache_holds view chain (local_blocks st)" "files_hold env chain (world st)" "good (fallback_state st)"
    and run: "hl_node_collect_block env ops args fallback h st = Returns (st', r)"
  shows "cache_holds view chain (local_blocks st') \<and> files_hold env chain (world st') \<and> good (fallback_state st') \<and>
    (\<forall>b. r = Ok b \<longrightarrow> chain h = Some b)"
proof -
  note local = try_collect_holds [OF assms(2,3)]
  note collect = faithful_source.collect_faithful [OF assms(1,4)]
  from run show ?thesis
    by (rule hl_node_collect_cases) (use assms(3,4) in \<open>auto dest: local collect\<close>)
qed

end

section \<open>The source and the task that follows the files\<close>

text \<open>
  The requests and the task share the cache under a lock, so they interleave call by call; the
  world changes between them, as long as the files keep holding the chain.
\<close>

inductive node_step ::
  "'w node_env \<Rightarrow> ('m, 'r) cache_ops \<Rightarrow> hl_node_args \<Rightarrow> ('s, 'e) block_source \<Rightarrow> (u64 \<rightharpoonup> block_and_receipts) \<Rightarrow>
     ('m, 'r, 'w, 's) hl_node_state \<Rightarrow> ('m, 'r, 'w, 's) hl_node_state \<Rightarrow> bool"
  for env ops args fallback chain where
  Collect: "hl_node_collect_block env ops args fallback h st = Returns (st', r) \<Longrightarrow>
    node_step env ops args fallback chain st st'"
| Latest: "hl_node_find_latest_block_number env args fallback st = Returns (st', l) \<Longrightarrow>
    node_step env ops args fallback chain st st'"
| Ingest: "ingest_turn env ops args st = Returns st' \<Longrightarrow> node_step env ops args fallback chain st st'"
| World: "files_hold env chain w \<Longrightarrow> node_step env ops args fallback chain st (st\<lparr>world := w\<rparr>)"

inductive node_reachable ::
  "'w node_env \<Rightarrow> ('m, 'r) cache_ops \<Rightarrow> hl_node_args \<Rightarrow> ('s, 'e) block_source \<Rightarrow> u64 \<Rightarrow> (u64 \<rightharpoonup> block_and_receipts) \<Rightarrow>
     's \<Rightarrow> ('m, 'r, 'w, 's) hl_node_state \<Rightarrow> bool"
  for env ops args fallback head chain s where
  New: "files_hold env chain w \<Longrightarrow> hl_node_source_new env ops args head s w = Returns st \<Longrightarrow>
    node_reachable env ops args fallback head chain s st"
| Step: "node_reachable env ops args fallback head chain s x \<Longrightarrow>
    node_step env ops args fallback chain x y \<Longrightarrow> node_reachable env ops args fallback head chain s y"

text \<open>The invariant: cache, files and fallback agree with the chain, and the task is in step with its clock.\<close>

definition node_inv ::
  "'w node_env \<Rightarrow> ('m \<Rightarrow> u64 \<rightharpoonup> block_and_receipts) \<Rightarrow> ('s \<Rightarrow> bool) \<Rightarrow> (u64 \<rightharpoonup> block_and_receipts) \<Rightarrow>
     ('m, 'r, 'w, 's) hl_node_state \<Rightarrow> bool" where
  "node_inv env view good chain st \<longleftrightarrow>
     cache_holds view chain (local_blocks st) \<and> files_hold env chain (world st) \<and> good (fallback_state st) \<and>
     (case ingest_loop st of
        Follows ig \<Rightarrow> ne_format_date env (ig_dt ig) = Some (ig_day ig) \<and> ig_hour ig = ne_hour env (ig_dt ig)
      | _ \<Rightarrow> True)"

context cache_laws
begin

lemma backfill_file_holds:
  assumes "cache_holds view chain c" "backfill_file env ops w cutoff f c = Returns c'"
  shows "cache_holds view chain c'"
proof -
  from assms(2) consider "c' = c" | sr where "load_scan_result ops (sr\<lparr>sr_new_blocks := []\<rparr>) c = Returns c'"
    by (auto simp: backfill_file_def run_bind_eq_Returns_iff split: if_splits option.splits)
  then show ?thesis
  proof cases
    case 2
    show ?thesis by (rule load_scan_result_holds [OF assms(1) 2]) simp
  qed (use assms(1) in simp)
qed

lemma new_holds:
  assumes "hl_node_source_new env ops args head s w = Returns st"
  shows "cache_holds view chain (local_blocks st)" "world st = w" "fallback_state st = s" "ingest_loop st = AwaitsFile head"
proof -
  from assms obtain c where c: "try_backfill_local_blocks env ops w (args_root args) head
      (local_blocks_cache_new ops CACHE_SIZE) = Returns c" "local_blocks st = c" "world st = w" "fallback_state st = s"
      "ingest_loop st = AwaitsFile head"
    by (auto simp: hl_node_source_new_def hl_node_run_def start_local_ingest_loop_def run_bind_eq_Returns_iff)
  have "cache_holds view chain (local_blocks_cache_new ops CACHE_SIZE)"
    by (simp add: cache_holds_def local_blocks_cache_new_def lc_new_empty)
  from run_fold_invariant [where P = "cache_holds view chain",
      OF c(1) [unfolded try_backfill_local_blocks_def] this backfill_file_holds] c
  show "cache_holds view chain (local_blocks st)" "world st = w" "fallback_state st = s" "ingest_loop st = AwaitsFile head"
    by auto
qed

lemma ingest_step_holds:
  assumes "cache_holds view chain c" "files_hold env chain w"
    and "ingest_step env ops root w (ig, c) = Returns (ig', c')"
  shows "cache_holds view chain c'"
proof -
  from assms(3) consider "c' = c"
    | path n opts sr n' where "scan_hour_file env w path n opts = Returns (sr, n')"
        "load_scan_result ops sr c = Returns c'"
    by (auto simp: ingest_step_def run_bind_eq_Returns_iff Let_def split: if_splits)
  then show ?thesis
  proof cases
    case 2
    show ?thesis
      by (rule load_scan_result_holds [OF assms(1) 2(2)]) (rule scan_hour_file_holds [OF assms(2) 2(1)])
  qed (use assms(1) in simp)
qed

lemma ingest_step_clock:
  assumes "ingest_step env ops root w (ig, c) = Returns (ig', c')"
    and "ne_format_date env (ig_dt ig) = Some (ig_day ig) \<and> ig_hour ig = ne_hour env (ig_dt ig)"
  shows "ne_format_date env (ig_dt ig') = Some (ig_day ig') \<and> ig_hour ig' = ne_hour env (ig_dt ig')"
  using assms
  by (auto simp: ingest_step_def run_bind_eq_Returns_iff Let_def date_from_datetime_def unwrap_def
      split: if_splits option.splits)

lemma find_latest_holds:
  assumes "faithful_source fallback good chain" "good (fallback_state st)"
    and "hl_node_find_latest_block_number env args fallback st = Returns (st', l)"
  shows "good (fallback_state st') \<and> local_blocks st' = local_blocks st \<and> world st' = world st \<and>
    ingest_loop st' = ingest_loop st"
  using assms(2,3) faithful_source.latest_good [OF assms(1)]
  by (auto simp: hl_node_find_latest_block_number_def run_bind_eq_Returns_iff Let_def split: option.splits)

lemma hl_node_collect_ingest:
  assumes "hl_node_collect_block env ops args fallback h st = Returns (st', r)"
  shows "ingest_loop st' = ingest_loop st"
  using assms by (rule hl_node_collect_cases) simp_all

lemma ingest_start_clock:
  assumes "ingest_start env root head w = Returns (Some ig)"
  shows "ne_format_date env (ig_dt ig) = Some (ig_day ig) \<and> ig_hour ig = ne_hour env (ig_dt ig)"
  using assms
  by (auto simp: ingest_start_def date_from_datetime_def unwrap_def run_bind_eq_Returns_iff split: option.splits)

lemma ingest_turn_inv:
  assumes "ingest_turn env ops args st = Returns st'" "node_inv env view good chain st"
  shows "node_inv env view good chain st'"
proof (cases "ingest_loop st")
  case NotSpawned
  with assms show ?thesis by (simp add: ingest_turn_def)
next
  case (AwaitsFile head)
  with assms(1) obtain r where r: "ingest_start env (args_root args) head (world st) = Returns r"
    "st' = (case r of None \<Rightarrow> st | Some ig \<Rightarrow> st\<lparr>ingest_loop := Follows ig\<rparr>)"
    by (auto simp: ingest_turn_def run_bind_eq_Returns_iff split: option.splits)
  show ?thesis
  proof (cases r)
    case (Some ig)
    with r ingest_start_clock [of env "args_root args" head "world st" ig] assms(2) show ?thesis by (simp add: node_inv_def)
  qed (use r assms(2) in simp)
next
  case (Follows ig)
  with assms(1) obtain ig' c where
    step: "ingest_step env ops (args_root args) (world st) (ig, local_blocks st) = Returns (ig', c)"
    "st' = st\<lparr>local_blocks := c, ingest_loop := Follows ig'\<rparr>"
    by (auto simp: ingest_turn_def run_bind_eq_Returns_iff)
  with ingest_step_holds [OF _ _ step(1)] ingest_step_clock [OF step(1)] assms(2) Follows show ?thesis
    by (auto simp: node_inv_def)
qed

lemma node_step_inv:
  assumes "faithful_source fallback good chain" "node_step env ops args fallback chain x y"
    and "node_inv env view good chain x"
  shows "node_inv env view good chain y"
  using assms(2,3)
proof cases
  case (Collect h r)
  with hl_node_collect_faithful [OF assms(1) _ _ _ Collect(1)] hl_node_collect_ingest [OF Collect(1)] assms(3)
  show ?thesis by (auto simp: node_inv_def)
next
  case (Latest l)
  with find_latest_holds [OF assms(1) _ Latest(1)] assms(3) show ?thesis by (auto simp: node_inv_def)
next
  case Ingest
  from ingest_turn_inv [OF this assms(3)] show ?thesis .
next
  case (World w)
  with assms(3) show ?thesis by (auto simp: node_inv_def)
qed

lemma node_reachable_inv:
  assumes "faithful_source fallback good chain" "good s"
    and "node_reachable env ops args fallback head chain s x"
  shows "node_inv env view good chain x"
  using assms(3)
proof induction
  case (New w st)
  with new_holds [OF New(2)] assms(2) show ?case by (simp add: node_inv_def)
next
  case (Step x y)
  with node_step_inv [OF assms(1) Step.hyps(2)] show ?case by blast
qed

text \<open>Starting to follow the files never panics on the name of a file.\<close>

lemma ingest_start_returns:
  assumes "\<And>dt. ne_format_date env dt \<noteq> None"
  shows "\<exists>ig. ingest_start env root head w = Returns ig"
proof (cases "find_latest_hourly_file env w root")
  case (Some p)
  then obtain dt where "datetime_from_path env p = Some dt" by (rule find_latest_hourly_file_latest)
  with Some assms [of dt] show ?thesis by (auto simp: ingest_start_def date_from_datetime_def)
qed (simp add: ingest_start_def)

end

section \<open>Properties\<close>

text \<open>
  C29. The source never serves a block that is not on the chain. Start it on files that hold the
  chain and over a faithful fallback, and let requests, the task it spawns to follow the files and
  changes of the files interleave in any order: in every state that is reached, a block that a
  request returns is the chain's block of that height, and so is every block in the cache.
\<close>

theorem hl_node_serves_chain:
  assumes "cache_laws ops view" "faithful_source fallback good chain" "good s"
    and "node_reachable env ops args fallback head chain s st"
  shows "(\<forall>h st' b. hl_node_collect_block env ops args fallback h st = Returns (st', Ok b) \<longrightarrow> chain h = Some b) \<and>
    cache_holds view chain (local_blocks st)"
proof -
  have inv: "node_inv env view good chain st"
    by (rule cache_laws.node_reachable_inv [OF assms])
  then have "cache_holds view chain (local_blocks st)" "files_hold env chain (world st)" "good (fallback_state st)"
    by (simp_all add: node_inv_def)
  with cache_laws.hl_node_collect_faithful [OF assms(1,2) this] show ?thesis by blast
qed

text \<open>
  C30. What has been scanned is served locally. Load the ranges of a file, with any of its blocks
  or with none: as long as the file can be read and holds no more blocks than the cache, a
  request for any of its heights is answered without asking the fallback, even if the cache
  has evicted the block or has handed it out before.
\<close>

theorem hl_node_serves_scanned:
  assumes "cache_laws ops view" "ne_open env (world st) path = Some (Some content)"
    and "list_all valid_utf8 (buf_lines [] content)"
    and "scanned env 0 (List.enumerate 0 (buf_lines [] content)) = bs" "length bs \<le> CACHE_SIZE"
    and "u64_max \<notin> snd ` set bs" "h \<in> snd ` set bs"
    and "scan_hour_file env w path 0 opts = Returns (sr, n)" "ne_open env w path = Some (Some content)"
    and "load_scan_result ops (sr\<lparr>sr_new_blocks := bl\<rparr>) c = Returns (local_blocks st)"
  shows "\<exists>st' b. hl_node_collect_block env ops args fallback h st = Returns (st', Ok b) \<and>
    fallback_state st' = fallback_state st \<and> fetched_from_fallback st' = fetched_from_fallback st"
proof -
  have bounded: "\<And>b h. (b, h) \<in> set bs \<Longrightarrow> h \<noteq> u64_max" using assms(6) by force
  obtain sr' n' where sr': "scan_hour_file env w path 0 opts = Returns (sr', n')" "sr_path sr' = path"
    "\<And>h. in_ranges (new_block_ranges sr') h \<longleftrightarrow> h \<in> snd ` set bs" "proper_ranges (new_block_ranges sr')"
    by (rule scan_hour_file_returns [OF assms(9,3,4) bounded, where opts = opts]) blast+
  with assms(8) have sr: "sr_path sr = path" "\<And>h. in_ranges (new_block_ranges sr) h \<longleftrightarrow> h \<in> snd ` set bs"
    "proper_ranges (new_block_ranges sr)" by simp_all
  obtain c' where c': "load_scan_result ops (sr\<lparr>sr_new_blocks := bl\<rparr>) c = Returns c'"
    "\<And>k. get_path_for_height ops k c' =
      (if in_ranges (new_block_ranges sr) k then Some path else get_path_for_height ops k c)"
    by (rule cache_laws.load_scan_result_returns [OF assms(1), of "sr\<lparr>sr_new_blocks := bl\<rparr>" c]) (use sr in auto)
  have "c' = local_blocks st" using assms(10) c'(1) by simp
  then have "get_path_for_height ops h (local_blocks st) = Some path"
    using c'(2) [of h] sr(2) [of h] assms(7) by simp
  from cache_laws.try_collect_found [OF assms(1) this assms(2-7)] obtain c'' b
    where "try_collect_local_block env ops (world st) h (local_blocks st) = Returns (c'', Some b)" by blast
  from cache_laws.hl_node_collect_local [OF assms(1) this, of args fallback] show ?thesis by force
qed

text \<open>
  C32. The fallback is not asked while the local node may catch up. Once a request for a height
  beyond all earlier ones has been answered, a request for a higher block within the threshold
  leaves the fallback alone: it is answered from the local files or refused.
\<close>

theorem fallback_not_polled_too_soon:
  assumes "hl_node_collect_block env ops args fallback h st = Returns (st', Ok b)"
    and "\<And>h0 t0. last_local_fetch st = Some (h0, t0) \<Longrightarrow> h0 < h"
    and "h < h'" "ne_now env w' - ne_now env (world st) < fallback_threshold args"
    and "hl_node_collect_block env ops args fallback h' (st'\<lparr>world := w'\<rparr>) = Returns (st'', r)"
  shows "fallback_state st'' = fallback_state st' \<and> (r = Err LimitingPollingRate \<or> (\<exists>b'. r = Ok b'))"
proof -
  have "last_local_fetch st' = update_last_fetch h (ne_now env (world st)) (last_local_fetch st)"
    using assms(1) by (rule hl_node_collect_cases) simp_all
  then have fetched: "last_local_fetch st' = Some (h, ne_now env (world st))"
    using assms(2) by (cases "last_local_fetch st") (auto simp: update_last_fetch_def)
  from assms(5) show ?thesis
    by (rule hl_node_collect_cases) (use assms(3,4) fetched in \<open>auto simp: poll_limited_def\<close>)
qed

text \<open>
  While nothing new is written, each look at the file moves the next expected height on by one
  all the same.
\<close>

lemma idle_scan_drifts:
  assumes "ne_open env w path = Some (Some content)" "list_all valid_utf8 (buf_lines [] content)"
    and "scanned env n (List.enumerate 0 (buf_lines [] content)) = bs" "u64_max \<notin> snd ` set bs"
    and "\<And>b h. (b, h) \<in> set bs \<Longrightarrow> h < start_height opts"
  shows "\<exists>sr n'. scan_hour_file env w path n opts = Returns (sr, n') \<and>
    sr_new_blocks sr = [] \<and> next_expected_height sr = start_height opts + 1"
proof -
  have bounded: "\<And>b h. (b, h) \<in> set bs \<Longrightarrow> h \<noteq> u64_max" using assms(4) by force
  have none: "filter (\<lambda>(b, h). start_height opts \<le> h) bs = []"
    using assms(5) by (fastforce simp: filter_empty_conv)
  show ?thesis
    by (rule scan_hour_file_returns [OF assms(1-3) bounded, where opts = opts]) (auto simp: none)
qed

section \<open>An example\<close>

text \<open>A cache without a limit over the file of the example.\<close>

definition example_cache_ops :: "(u64 \<rightharpoonup> block_and_receipts, u64 \<rightharpoonup> path) cache_ops" where
  "example_cache_ops = \<lparr>lc_new = (\<lambda>_. Map.empty), lc_insert = (\<lambda>k v m. m(k \<mapsto> v)),
     lc_remove = (\<lambda>k m. (m(k := None), m k)), rm_new = Map.empty,
     rm_insert = (\<lambda>(s, e) p m. if s \<le> e then Returns (\<lambda>k. if s \<le> k \<and> k \<le> e then Some p else m k) else Panics),
     rm_get = (\<lambda>k m. m k)\<rparr>"

lemma fold_update_kept:
  fixes m :: "'a \<rightharpoonup> 'b"
  shows "k \<in> fst ` set kvs \<or> m k \<noteq> None \<Longrightarrow> fold (\<lambda>(k, v) m. m(k \<mapsto> v)) kvs m k \<noteq> None"
proof (induction kvs arbitrary: m)
  case (Cons kv kvs)
  obtain k' v where kv: "kv = (k', v)" by (cases kv)
  have "fold (\<lambda>(k, v) m. m(k \<mapsto> v)) kvs (m(k' \<mapsto> v)) k \<noteq> None"
    using Cons.prems kv by (intro Cons.IH) auto
  then show ?case by (simp only: kv fold.simps comp_def prod.case simp_thms)
qed simp

interpretation example_cache: cache_laws example_cache_ops id
proof
  fix kvs :: "(u64 \<times> block_and_receipts) list" and k m
  assume "k \<in> fst ` set kvs"
  then show "id (fold (\<lambda>(k, v). lc_insert example_cache_ops k v) kvs m) k \<noteq> None"
    using fold_update_kept [of k kvs m] by (simp add: example_cache_ops_def)
qed (auto simp: example_cache_ops_def split: if_splits)

definition example_args :: hl_node_args where
  "example_args = \<lparr>args_root = [], fallback_threshold = 5000000000\<rparr>"

lemma example_files_hold: "files_hold example_node_env example_chain ()"
  by (auto simp: files_hold_def example_node_env_def line_to_evm_block_def example_chain_def
      example_height_one_def split: if_splits)

definition example_node_state ::
  "(u64 \<rightharpoonup> block_and_receipts, u64 \<rightharpoonup> path, unit, unit) hl_node_state" where
  "example_node_state = \<lparr>local_blocks = \<lparr>lb_cache = Map.empty, lb_ranges = [1 \<mapsto> [''hourly'', ''20250731'', ''4'']]\<rparr>,
     last_local_fetch = None, fetched_from_hl_node = 0, fetched_from_fallback = 0, fallback_state = (),
     ingest_loop = AwaitsFile 1, world = ()\<rparr>"

lemma example_open: "ne_open example_node_env u [''hourly'', ''20250731'', ''4''] = Some (Some [0x31, 0x0A])"
  by (simp add: example_node_env_def)

lemma example_utf8: "list_all valid_utf8 (buf_lines [] [0x31, 0x0A])"
  by (simp add: strip_cr_def utf8_lead_def)

lemma example_all_files: "all_hourly_files example_node_env () [] = Some [[''hourly'', ''20250731'', ''4'']]"
  by (simp add: all_hourly_files_def example_node_env_def HOURLY_SUBDIR_def hourly_files_of_def
      List.map_filter_def datetime_from_path_def parse_u8_def parse_u64_def char_digit_def)

definition example_scan :: scan_result where
  "example_scan = \<lparr>sr_path = [''hourly'', ''20250731'', ''4''], next_expected_height = 2,
     sr_new_blocks = [], new_block_ranges = [(1, 1)]\<rparr>"

lemma example_scan_run: "scan_hour_file example_node_env () [''hourly'', ''20250731'', ''4''] 0
    \<lparr>start_height = 1, only_load_ranges = True\<rparr> = Returns (example_scan, 0)"
  by (simp add: scan_hour_file_def example_open example_line strip_cr_def white_len_def utf8_lead_def Let_def
      scan_line_def close_ranges_def example_scan_def)

lemma example_load: "load_scan_result example_cache_ops (example_scan\<lparr>sr_new_blocks := []\<rparr>)
    (local_blocks_cache_new example_cache_ops CACHE_SIZE) = Returns (local_blocks example_node_state)"
  by (auto simp: load_scan_result_def example_scan_def example_cache_ops_def local_blocks_cache_new_def
      example_node_state_def Let_def intro!: ext)

lemma example_backfill: "backfill_file example_node_env example_cache_ops () 1 [''hourly'', ''20250731'', ''4'']
    (local_blocks_cache_new example_cache_ops CACHE_SIZE) = Returns (local_blocks example_node_state)"
proof -
  have "read_last_loop example_node_env CHUNK_SIZE ([0x31] @ [0x0A]) (length [0x31 :: u8, 0x0A]) [] =
      Returns (Some (example_height_one, 1))"
    using read_last_loop_line [OF _ _ example_line_utf8 example_line, of "[0x31]" "[]" CHUNK_SIZE]
    by (simp add: last_line_of_def CHUNK_SIZE_def)
  then have "read_last_block_from_file example_node_env () [''hourly'', ''20250731'', ''4''] =
      Returns (Some (example_height_one, 1))"
    by (simp add: read_last_block_from_file_def read_last_complete_line_def example_open)
  then show ?thesis by (simp add: backfill_file_def example_scan_run example_load)
qed

lemma example_new: "hl_node_source_new example_node_env example_cache_ops example_args 1 () () = Returns example_node_state"
  by (simp add: hl_node_source_new_def hl_node_run_def start_local_ingest_loop_def try_backfill_local_blocks_def
      example_args_def example_all_files example_backfill) (simp add: example_node_state_def)

lemma example_reachable:
  "node_reachable example_node_env example_cache_ops example_args (local_source example_fs ''/blocks'') 1
     example_chain () example_node_state"
  by (rule node_reachable.New [OF example_files_hold example_new])

lemma example_served: "\<exists>st' b. hl_node_collect_block example_node_env example_cache_ops example_args
      (local_source example_fs ''/blocks'') 1 example_node_state = Returns (st', Ok b)"
proof -
  have "get_path_for_height example_cache_ops 1 (local_blocks example_node_state) = Some [''hourly'', ''20250731'', ''4'']"
    by (simp add: get_path_for_height_def example_cache_ops_def example_node_state_def)
  from example_cache.try_collect_found [OF this example_open example_utf8 example_scanned, of "()"]
  obtain c b where "try_collect_local_block example_node_env example_cache_ops () 1 (local_blocks example_node_state) =
      Returns (c, Some b)"
    by (auto simp: CACHE_SIZE_def u64_max_def)
  then have "try_collect_local_block example_node_env example_cache_ops (world example_node_state) 1
      (local_blocks example_node_state) = Returns (c, Some b)"
    by simp
  from example_cache.hl_node_collect_local [OF this] show ?thesis by blast
qed

theorem hl_node_serves_chain_witness:
  "\<exists>st' b. hl_node_collect_block example_node_env example_cache_ops example_args
      (local_source example_fs ''/blocks'') 1 example_node_state = Returns (st', Ok b) \<and>
    example_chain 1 = Some b \<and> cache_holds id example_chain (local_blocks example_node_state)"
  using example_served
    hl_node_serves_chain [OF example_cache.cache_laws_axioms blocks_dir.faithful_source_axioms TrueI example_reachable]
  by blast

theorem hl_node_serves_scanned_witness:
  "\<exists>st' b. hl_node_collect_block example_node_env example_cache_ops example_args
      (local_source example_fs ''/blocks'') 1 example_node_state = Returns (st', Ok b) \<and>
    fallback_state st' = fallback_state example_node_state \<and>
    fetched_from_fallback st' = fetched_from_fallback example_node_state"
  by (rule hl_node_serves_scanned [OF example_cache.cache_laws_axioms example_open example_utf8 example_scanned
        _ _ _ example_scan_run example_open example_load])
    (simp_all add: CACHE_SIZE_def u64_max_def)

text \<open>The block of height 1 is served at time 0; a request for height 2 follows at once.\<close>

definition served_one :: "(u64 \<rightharpoonup> block_and_receipts, u64 \<rightharpoonup> path, unit, unit) hl_node_state" where
  "served_one = example_node_state\<lparr>last_local_fetch := Some (1, 0), fetched_from_hl_node := 1\<rparr>"

lemma example_collect_one: "hl_node_collect_block example_node_env example_cache_ops example_args
    (local_source example_fs ''/blocks'') 1 (example_node_state\<lparr>local_blocks := (local_blocks example_node_state)
      \<lparr>lb_cache := [1 \<mapsto> example_height_one]\<rparr>\<rparr>) = Returns (served_one, Ok example_height_one)"
  by (simp add: hl_node_collect_block_def try_collect_local_block_def get_block_def example_cache_ops_def Let_def
      example_node_state_def served_one_def update_last_fetch_def) (simp add: example_node_env_def)

lemma example_collect_two: "hl_node_collect_block example_node_env example_cache_ops example_args
    (local_source example_fs ''/blocks'') 2 (served_one\<lparr>world := ()\<rparr>) = Returns (served_one, Err LimitingPollingRate)"
  by (simp add: hl_node_collect_block_def try_collect_local_block_def get_block_def get_path_for_height_def
      example_cache_ops_def Let_def served_one_def example_node_state_def example_args_def)
    (simp add: example_node_env_def)

theorem fallback_not_polled_too_soon_witness:
  "\<exists>st'' r. hl_node_collect_block example_node_env example_cache_ops example_args
      (local_source example_fs ''/blocks'') 2 (served_one\<lparr>world := ()\<rparr>) = Returns (st'', r) \<and>
    fallback_state st'' = fallback_state served_one \<and> (r = Err LimitingPollingRate \<or> (\<exists>b'. r = Ok b'))"
proof (intro exI conjI)
  show "hl_node_collect_block example_node_env example_cache_ops example_args
      (local_source example_fs ''/blocks'') 2 (served_one\<lparr>world := ()\<rparr>) = Returns (served_one, Err LimitingPollingRate)"
    by (rule example_collect_two)
  have "fallback_state served_one = fallback_state served_one \<and>
    (Err LimitingPollingRate = (Err LimitingPollingRate :: (block_and_receipts, unit hl_node_error) result) \<or>
     (\<exists>b'. Err LimitingPollingRate = (Ok b' :: (block_and_receipts, unit hl_node_error) result)))"
    by (rule fallback_not_polled_too_soon [OF example_collect_one _ _ _ example_collect_two])
      (simp_all add: example_node_state_def example_args_def example_node_env_def)
  then show "fallback_state served_one = fallback_state served_one"
    "Err LimitingPollingRate = (Err LimitingPollingRate :: (block_and_receipts, unit hl_node_error) result) \<or>
     (\<exists>b'. Err LimitingPollingRate = (Ok b' :: (block_and_receipts, unit hl_node_error) result))"
    by blast+
qed

end
