(* ===== verification/Source_Config.thy ===== *)
theory Source_Config
  imports Hl_Node_Source Chain_Spec
begin

text \<open>
  The command line options of the block source (\<open>src/src/pseudo_peer/cli.rs\<close>) and the
  source that is built from them (\<open>src/src/pseudo_peer/config.rs\<close>): a directory or an S3
  bucket, below an optional local hl-node source, below a cache. A boxed trait object is
  a value of \<open>created_source\<close>, one constructor for each type of source that is built,
  with the state it starts in.
\<close>

section \<open>Options\<close>

text \<open>Durations are in nanoseconds, as in the clock of the hl-node source.\<close>

definition from_millis :: "u64 \<Rightarrow> int" where
  "from_millis ms = int (unat ms) * 1000000"

datatype block_source_type = S3Default int | S3 string int | Local string

record block_source_config =
  source_type :: block_source_type
  block_source_from_node :: "hl_node_args option"

record block_source_args =
  arg_block_source :: "string option"
  arg_local_ingest_dir :: "string option"
  arg_s3 :: bool
  arg_local :: bool
  arg_s3_polling_interval :: u64
  arg_local_fallback_threshold :: u64

text \<open>The components of a path: repeated separators and inner dots vanish.\<close>

fun split_slash :: "string \<Rightarrow> string list" where
  "split_slash [] = [[]]"
| "split_slash (c # cs) =
     (if c = CHR ''/'' then [] # split_slash cs
      else case split_slash cs of [] \<Rightarrow> [[c]] | w # ws \<Rightarrow> (c # w) # ws)"

definition path_components :: "string \<Rightarrow> path" where
  "path_components s =
     (let cs = split_slash s;
          inner = filter (\<lambda>c. c \<noteq> [] \<and> c \<noteq> ''.'') cs
      in if is_absolute s then ''/'' # inner else if hd cs = ''.'' then ''.'' # inner else inner)"

section \<open>Building a configuration\<close>

definition config_s3_default :: "int \<Rightarrow> block_source_config" where
  "config_s3_default polling_interval = \<lparr>source_type = S3Default polling_interval, block_source_from_node = None\<rparr>"

definition config_s3 :: "string \<Rightarrow> int \<Rightarrow> block_source_config" where
  "config_s3 bucket polling_interval = \<lparr>source_type = S3 bucket polling_interval, block_source_from_node = None\<rparr>"

definition config_local :: "string \<Rightarrow> block_source_config" where
  "config_local p = \<lparr>source_type = Local p, block_source_from_node = None\<rparr>"

definition local_default :: "string option \<Rightarrow> block_source_config run" where
  "local_default home_dir = run_bind (unwrap home_dir) (\<lambda>home. Returns
     \<lparr>source_type = Local (path_join (path_join (path_join home ''hl'') ''data'') ''evm_blocks_and_receipts''),
      block_source_from_node = None\<rparr>)"

definition with_block_source_from_node :: "hl_node_args \<Rightarrow> block_source_config \<Rightarrow> block_source_config" where
  "with_block_source_from_node node config = config\<lparr>block_source_from_node := Some node\<rparr>"

definition create_base_config ::
  "string option \<Rightarrow> block_source_args \<Rightarrow> (block_source_config, string) result run" where
  "create_base_config home_dir args =
     (if arg_s3 args then Returns (Ok (config_s3_default (from_millis (arg_s3_polling_interval args))))
      else if arg_local args then run_bind (local_default home_dir) (\<lambda>c. Returns (Ok c))
      else case arg_block_source args of
        None \<Rightarrow> Returns (Err ''You need to specify a block source e.g., --s3 or --block-source=/path/to/blocks'')
      | Some v \<Rightarrow>
          (case strip_prefix ''s3://'' v of
             Some bucket \<Rightarrow> Returns (Ok (config_s3 bucket (from_millis (arg_s3_polling_interval args))))
           | None \<Rightarrow> Returns (Ok (config_local v))))"

definition apply_node_source_config :: "block_source_args \<Rightarrow> block_source_config \<Rightarrow> block_source_config" where
  "apply_node_source_config args config =
     (case arg_local_ingest_dir args of
        None \<Rightarrow> config
      | Some d \<Rightarrow> with_block_source_from_node
          \<lparr>args_root = path_components d,
           fallback_threshold = from_millis (arg_local_fallback_threshold args)\<rparr> config)"

definition parse_args :: "string option \<Rightarrow> block_source_args \<Rightarrow> (block_source_config, string) result run" where
  "parse_args home_dir args = run_bind (create_base_config home_dir args) (\<lambda>r. Returns (case r of
     Err e \<Rightarrow> Err e | Ok config \<Rightarrow> Ok (apply_node_source_config args config)))"

section \<open>Building a source\<close>

text \<open>
  What the sources read: the file system, an S3 client for each bucket, the files of the
  node, and the maps the caches are made of.
\<close>

record ('m, 'b, 'r, 'w, 'd, 'e) source_env =
  se_fs :: "('d, 'e) file_system"
  se_s3 :: "string \<Rightarrow> 'e s3_client"
  se_node :: "'w node_env"
  se_cache :: "('b, 'r) cache_ops"
  se_lru :: "('m, block_and_receipts) lru_map_ops"
  se_lru_new :: "nat \<Rightarrow> 'm"

definition CACHE_LIMIT :: nat where
  "CACHE_LIMIT = 100000"

text \<open>The S3 client holds nothing that changes; the state of the base source is passed through.\<close>

definition s3_block_source :: "('m, 'b, 'r, 'w, 'd, 'e) source_env \<Rightarrow> string \<Rightarrow> ('d, 'e) block_source" where
  "s3_block_source env bucket =
     (let src = s3_source (se_s3 env bucket)
      in \<lparr>src_collect = (\<lambda>h d. run_bind (src_collect src h ()) (\<lambda>(_, r). Returns (d, r))),
          src_latest = (\<lambda>d. run_bind (src_latest src ()) (\<lambda>(_, l). Returns (d, l))),
          src_chunk = src_chunk src\<rparr>)"

definition create_block_source ::
  "('m, 'b, 'r, 'w, 'd, 'e) source_env \<Rightarrow> block_source_config \<Rightarrow> 'g chain_spec \<Rightarrow> ('d, 'e) block_source run" where
  "create_block_source env config spec =
     (case source_type config of
        S3Default _ \<Rightarrow> run_bind (official_s3_bucket spec) (\<lambda>bucket. Returns (s3_block_source env bucket))
      | S3 bucket _ \<Rightarrow> Returns (s3_block_source env bucket)
      | Local p \<Rightarrow> Returns (local_source (se_fs env) p))"

datatype ('s1, 's2, 'e) created_source =
    Plain "('s1, 'e) block_source" 's1
  | OverNode "('s2, 'e hl_node_error) block_source" 's2

definition create_block_source_from_node ::
  "('m, 'b, 'r, 'w, 'd, 'e) source_env \<Rightarrow> block_source_config \<Rightarrow> u64 \<Rightarrow> ('d, 'e) block_source \<Rightarrow> 'd \<Rightarrow> 'w \<Rightarrow>
   ('d, ('b, 'r, 'w, 'd) hl_node_state, 'e) created_source run" where
  "create_block_source_from_node env config next_block_number fallback d w =
     (case block_source_from_node config of
        None \<Rightarrow> Returns (Plain fallback d)
      | Some args \<Rightarrow>
          run_bind (hl_node_source_new (se_node env) (se_cache env) args next_block_number d w) (\<lambda>st.
            Returns (OverNode (hl_node_source (se_node env) (se_cache env) args fallback) st)))"

definition create_cached_block_source ::
  "('m, 'b, 'r, 'w, 'd, 'e) source_env \<Rightarrow> block_source_config \<Rightarrow> 'g chain_spec \<Rightarrow> u64 \<Rightarrow> 'd \<Rightarrow> 'w \<Rightarrow>
   ('m \<times> 'd, 'm \<times> ('b, 'r, 'w, 'd) hl_node_state, 'e) created_source run" where
  "create_cached_block_source env config spec next_block_number d w =
     run_bind (create_block_source env config spec) (\<lambda>src.
     run_bind (create_block_source_from_node env config next_block_number src d w) (\<lambda>c.
       let cache = se_lru_new env CACHE_LIMIT
       in Returns (case c of
            Plain src s \<Rightarrow> Plain (cached_source (se_lru env) src) (cache, s)
          | OverNode src s \<Rightarrow> OverNode (cached_source (se_lru env) src) (cache, s))))"

section \<open>Specification\<close>

text \<open>The store a configuration names, and that what it holds is the chain's.\<close>

definition base_holds ::
  "('m, 'b, 'r, 'w, 'd, 'e) source_env \<Rightarrow> block_source_config \<Rightarrow> 'g chain_spec \<Rightarrow> (u64 \<rightharpoonup> block_and_receipts) \<Rightarrow> bool" where
  "base_holds env config spec chain \<longleftrightarrow>
     (let s3_holds = (\<lambda>bucket. \<forall>h b bs. res_bind (s3_get (se_s3 env bucket) (rmp_path h))
            (s3_decode (se_s3 env bucket)) = Ok (b # bs) \<longrightarrow> chain h = Some b)
      in case source_type config of
           S3Default _ \<Rightarrow> (\<forall>bucket. official_s3_bucket spec = Returns bucket \<longrightarrow> s3_holds bucket)
         | S3 bucket _ \<Rightarrow> s3_holds bucket
         | Local p \<Rightarrow> (\<forall>d h b bs. res_bind (fs_read (se_fs env) d (path_join p (rmp_path h)))
             (fs_decode (se_fs env)) = Ok (b # bs) \<longrightarrow> chain h = Some b))"

text \<open>
  What happens to a created source between its calls. The store below it may change; the
  files of the node and the clock may change, and the task that follows these files may run.
  A cache above it is not touched.
\<close>

definition store_turn :: "'d \<Rightarrow> 'd \<Rightarrow> 'd run" where
  "store_turn d _ = Returns d"

datatype ('w, 'd) node_event = FilesChange 'w | StoreChange 'd | IngestRuns

definition node_turn ::
  "'w node_env \<Rightarrow> ('m, 'r) cache_ops \<Rightarrow> hl_node_args \<Rightarrow> ('w, 'd) node_event \<Rightarrow> ('m, 'r, 'w, 'd) hl_node_state \<Rightarrow>
     ('m, 'r, 'w, 'd) hl_node_state run" where
  "node_turn env ops args ev st =
     (case ev of
        FilesChange w \<Rightarrow> Returns (st\<lparr>world := w\<rparr>)
      | StoreChange d \<Rightarrow> Returns (st\<lparr>fallback_state := d\<rparr>)
      | IngestRuns \<Rightarrow> ingest_turn env ops args st)"

definition cached_turn :: "('x \<Rightarrow> 's \<Rightarrow> 's run) \<Rightarrow> 'x \<Rightarrow> 'm \<times> 's \<Rightarrow> ('m \<times> 's) run" where
  "cached_turn turn x = (\<lambda>(m, s). run_bind (turn x s) (\<lambda>s. Returns (m, s)))"

text \<open>The files may change as long as they hold the chain.\<close>

fun holds_after :: "'w node_env \<Rightarrow> (u64 \<rightharpoonup> block_and_receipts) \<Rightarrow> ('w, 'd) node_event \<Rightarrow> bool" where
  "holds_after env chain (FilesChange w) = files_hold env chain w"
| "holds_after env chain _ = True"

text \<open>
  A source that, started in its state, delivers only blocks of the chain, and goes on to do so
  after everything that is allowed to happen to it.
\<close>

definition delivers_chain ::
  "('s, 'e) block_source \<Rightarrow> ('x \<Rightarrow> 's \<Rightarrow> 's run) \<Rightarrow> ('x \<Rightarrow> bool) \<Rightarrow> 's \<Rightarrow> (u64 \<rightharpoonup> block_and_receipts) \<Rightarrow> bool" where
  "delivers_chain src turn allowed s chain \<longleftrightarrow>
     (\<exists>good. good s \<and> faithful_source src good chain \<and> (\<forall>x. allowed x \<longrightarrow> keeps_good turn good x))"

section \<open>Lemmas\<close>

lemma delivers_chainI:
  "faithful_source src good chain \<Longrightarrow> good s \<Longrightarrow> (\<And>x. allowed x \<Longrightarrow> keeps_good turn good x) \<Longrightarrow>
    delivers_chain src turn allowed s chain"
  unfolding delivers_chain_def by blast

lemma s3_block_source_faithful:
  assumes "\<And>h b bs. res_bind (s3_get (se_s3 env bucket) (rmp_path h)) (s3_decode (se_s3 env bucket)) = Ok (b # bs) \<Longrightarrow>
    chain h = Some b"
  shows "faithful_source (s3_block_source env bucket) (\<lambda>_. True) chain"
proof
  fix s n s' r
  assume "src_collect (s3_block_source env bucket) n s = Returns (s', r)"
  with assms [of n] show "True \<and> (\<forall>b. r = Ok b \<longrightarrow> chain n = Some b)"
    by (auto simp: s3_block_source_def s3_source_def s3_collect_block_def run_bind_eq_Returns_iff
        split: sum.splits list.splits)
qed simp

lemma create_block_source_faithful:
  assumes "create_block_source env config spec = Returns src" "base_holds env config spec chain"
  shows "faithful_source src (\<lambda>_. True) chain"
proof (cases "source_type config")
  case (Local p)
  with assms show ?thesis
    by (auto simp: create_block_source_def base_holds_def intro!: local_source_faithful)
qed (use assms in \<open>auto simp: create_block_source_def base_holds_def run_bind_eq_Returns_iff
      intro!: s3_block_source_faithful\<close>)

context cache_laws
begin

text \<open>The hl-node source over a faithful fallback is a faithful source itself, and stays one.\<close>

lemma hl_node_source_faithful:
  assumes "faithful_source fallback good chain"
  shows "faithful_source (hl_node_source env ops args fallback) (node_inv env view good chain) chain"
proof
  fix st n st' r
  assume inv: "node_inv env view good chain st" and "src_collect (hl_node_source env ops args fallback) n st = Returns (st', r)"
  then have run: "hl_node_collect_block env ops args fallback n st = Returns (st', r)" by (simp add: hl_node_source_def)
  from node_step_inv [OF assms node_step.Collect [OF run] inv] hl_node_collect_faithful [OF assms _ _ _ run] inv
  show "node_inv env view good chain st' \<and> (\<forall>b. r = Ok b \<longrightarrow> chain n = Some b)" by (auto simp: node_inv_def)
next
  fix st st' l
  assume inv: "node_inv env view good chain st" and "src_latest (hl_node_source env ops args fallback) st = Returns (st', l)"
  then have "hl_node_find_latest_block_number env args fallback st = Returns (st', l)" by (simp add: hl_node_source_def)
  from node_step_inv [OF assms node_step.Latest [OF this] inv] show "node_inv env view good chain st'" .
qed

lemma node_turn_keeps:
  assumes "holds_after env chain x"
  shows "keeps_good (node_turn env ops args) (node_inv env view (\<lambda>_. True) chain) x"
  unfolding keeps_good_def
proof (intro allI impI)
  fix st st' assume st: "node_inv env view (\<lambda>_. True) chain st" "node_turn env ops args x st = Returns st'"
  show "node_inv env view (\<lambda>_. True) chain st'"
  proof (cases x)
    case IngestRuns
    with st show ?thesis using ingest_turn_inv by (auto simp: node_turn_def)
  qed (use st assms in \<open>auto simp: node_turn_def node_inv_def\<close>)
qed

end

text \<open>A source below the cache delivers the chain if the cache starts empty.\<close>

lemma cached_delivers_chain:
  assumes "delivers_chain src turn allowed s chain" "lru_map_laws ops view" "view m = Map.empty"
  shows "delivers_chain (cached_source ops src) (cached_turn turn) allowed (m, s) chain"
proof -
  from assms(1) obtain good where good: "good s" "faithful_source src good chain" "\<And>x. allowed x \<Longrightarrow> keeps_good turn good x"
    unfolding delivers_chain_def by blast
  let ?good = "\<lambda>(m, s). good s \<and> (\<forall>h b. view m h = Some b \<longrightarrow> chain h = Some b)"
  have "faithful_source (cached_source ops src) ?good chain"
    using good(2) assms(2) by (rule cached_source_faithful)
  moreover have "?good (m, s)" using good(1) assms(3) by simp
  moreover have "keeps_good (cached_turn turn) ?good x" if "allowed x" for x
    using good(3) [OF that] by (auto simp: keeps_good_def cached_turn_def run_bind_eq_Returns_iff)
  ultimately show ?thesis by (rule delivers_chainI)
qed

text \<open>The base configuration, by the options.\<close>

lemma create_base_config_eq:
  "create_base_config home_dir args =
     (if arg_s3 args then Returns (Ok (config_s3_default (from_millis (arg_s3_polling_interval args))))
      else if arg_local args then
        (case home_dir of None \<Rightarrow> Panics
         | Some home \<Rightarrow> Returns (Ok (config_local (path_join (path_join (path_join home ''hl'') ''data'') ''evm_blocks_and_receipts''))))
      else case arg_block_source args of
        None \<Rightarrow> Returns (Err ''You need to specify a block source e.g., --s3 or --block-source=/path/to/blocks'')
      | Some v \<Rightarrow> Returns (Ok (case strip_prefix ''s3://'' v of
             Some bucket \<Rightarrow> config_s3 bucket (from_millis (arg_s3_polling_interval args))
           | None \<Rightarrow> config_local v)))"
  by (simp add: create_base_config_def local_default_def unwrap_def config_local_def split: option.split)

lemma parse_args_Ok:
  assumes "parse_args home_dir args = Returns (Ok config)"
  obtains base where "create_base_config home_dir args = Returns (Ok base)"
    "config = apply_node_source_config args base"
proof -
  from assms obtain r where r: "create_base_config home_dir args = Returns r"
    by (auto simp: parse_args_def run_bind_eq_Returns_iff)
  with assms that show thesis by (cases r) (auto simp: parse_args_def)
qed

lemma base_config_no_node:
  assumes "create_base_config home_dir args = Returns (Ok base)"
  shows "block_source_from_node base = None"
  using assms unfolding create_base_config_eq config_s3_default_def config_s3_def config_local_def
  by (simp split: if_split_asm option.split_asm) auto

lemma apply_node_source_config_simps [simp]:
  "source_type (apply_node_source_config args base) = source_type base"
  "block_source_from_node base = None \<Longrightarrow>
     block_source_from_node (apply_node_source_config args base) = None \<longleftrightarrow> arg_local_ingest_dir args = None"
  by (simp_all add: apply_node_source_config_def with_block_source_from_node_def split: option.split)

lemma strip_prefix_Some: "strip_prefix p s = Some q \<longleftrightarrow> s = p @ q"
  by (auto simp: strip_prefix_def) (metis append_take_drop_id)

lemma parse_args_error_iff:
  "(\<exists>e. parse_args home_dir args = Returns (Err e)) \<longleftrightarrow>
     \<not> arg_s3 args \<and> \<not> arg_local args \<and> arg_block_source args = None"
  by (cases "arg_s3 args"; cases "arg_local args"; cases "arg_block_source args"; cases home_dir)
    (simp_all add: parse_args_def create_base_config_eq)

text \<open>The flags win over each other in the order \<open>--s3\<close>, \<open>--local\<close>, \<open>--block-source\<close>.\<close>

lemma parse_args_source_type:
  assumes "parse_args home_dir args = Returns (Ok config)"
  shows "case source_type config of
      S3Default i \<Rightarrow> arg_s3 args \<and> i = from_millis (arg_s3_polling_interval args)
    | S3 bucket i \<Rightarrow> \<not> arg_s3 args \<and> \<not> arg_local args \<and> arg_block_source args = Some (''s3://'' @ bucket) \<and>
        i = from_millis (arg_s3_polling_interval args)
    | Local p \<Rightarrow> \<not> arg_s3 args \<and> (if arg_local args then home_dir \<noteq> None else arg_block_source args = Some p)"
proof -
  from assms obtain base where base: "create_base_config home_dir args = Returns (Ok base)"
    and config: "config = apply_node_source_config args base" by (rule parse_args_Ok)
  from base show ?thesis unfolding create_base_config_eq config
    by (auto simp: config_s3_default_def config_s3_def config_local_def strip_prefix_Some
        split: if_split_asm option.split_asm)
qed

lemma created_source_faithful:
  assumes "parse_args home_dir args = Returns (Ok config)"
    and "create_cached_block_source env config spec next d w = Returns created"
    and "base_holds env config spec chain"
    and "arg_local_ingest_dir args = None \<or> files_hold (se_node env) chain w"
    and "cache_laws (se_cache env) view" "lru_map_laws (se_lru env) lru_view"
    and "lru_view (se_lru_new env CACHE_LIMIT) = Map.empty"
  shows "case created of
      Plain src s \<Rightarrow> block_source_from_node config = None \<and>
        delivers_chain src (cached_turn store_turn) (\<lambda>_. True) s chain
    | OverNode src s \<Rightarrow> (\<exists>node_args. block_source_from_node config = Some node_args \<and>
        delivers_chain src (cached_turn (node_turn (se_node env) (se_cache env) node_args)) (holds_after (se_node env) chain) s chain)"
proof -
  from assms(2) obtain src where src: "create_block_source env config spec = Returns src"
    by (auto simp: create_cached_block_source_def run_bind_eq_Returns_iff)
  note base = create_block_source_faithful [OF src assms(3)]
  note cached = cached_delivers_chain [OF _ assms(6,7)]
  have node: "block_source_from_node config = None \<longleftrightarrow> arg_local_ingest_dir args = None"
    using assms(1) by (rule parse_args_Ok) (simp add: base_config_no_node)
  show ?thesis
  proof (cases "block_source_from_node config")
    case None
    have "delivers_chain src store_turn (\<lambda>_. True) d chain"
      using base TrueI by (rule delivers_chainI) (simp add: keeps_good_def)
    moreover have "created = Plain (cached_source (se_lru env) src) (se_lru_new env CACHE_LIMIT, d)"
      using None assms(2) src by (simp add: create_cached_block_source_def create_block_source_from_node_def)
    ultimately show ?thesis using None cached by simp
  next
    case (Some node_args)
    with assms(2) src obtain st where
      new: "hl_node_source_new (se_node env) (se_cache env) node_args next d w = Returns st"
      and created: "created = OverNode (cached_source (se_lru env)
        (hl_node_source (se_node env) (se_cache env) node_args src)) (se_lru_new env CACHE_LIMIT, st)"
      by (auto simp: create_cached_block_source_def create_block_source_from_node_def run_bind_eq_Returns_iff)
    have "node_inv (se_node env) view (\<lambda>_. True) chain st"
      using cache_laws.new_holds [OF assms(5) new] assms(4) node Some by (auto simp: node_inv_def)
    then have "delivers_chain (hl_node_source (se_node env) (se_cache env) node_args src)
        (node_turn (se_node env) (se_cache env) node_args) (holds_after (se_node env) chain) st chain"
      by (intro delivers_chainI [OF cache_laws.hl_node_source_faithful [OF assms(5) base]]
          cache_laws.node_turn_keeps [OF assms(5)])
    with cached Some show ?thesis by (simp add: created)
  qed
qed

section \<open>Properties\<close>

text \<open>
  Whatever options are given, if they are accepted and the store they name holds the
  chain (and so do the files of the node, when a node directory is given), then the source
  that is built from them, through the fallback, the node's files and both caches,
  delivers only blocks of the chain at their heights, from its initial state on, whatever
  happens to the store, and whatever the task that follows the node's files does, as long as
  these files hold the chain.
\<close>

theorem created_source_delivers_chain:
  assumes "parse_args home_dir args = Returns (Ok config)"
    and "create_cached_block_source env config spec next d w = Returns created"
    and "base_holds env config spec chain"
    and "arg_local_ingest_dir args = None \<or> files_hold (se_node env) chain w"
    and "cache_laws (se_cache env) view" "lru_map_laws (se_lru env) lru_view"
    and "lru_view (se_lru_new env CACHE_LIMIT) = Map.empty"
  shows "case created of
      Plain src s \<Rightarrow> block_source_from_node config = None \<and>
        delivers_chain src (cached_turn store_turn) (\<lambda>_. True) s chain
    | OverNode src s \<Rightarrow> (\<exists>node_args. block_source_from_node config = Some node_args \<and>
        delivers_chain src (cached_turn (node_turn (se_node env) (se_cache env) node_args)) (holds_after (se_node env) chain) s chain)"
  by (rule created_source_faithful [OF assms])

section \<open>An example\<close>

definition example_source_env ::
  "((u64 \<times> block_and_receipts) option, u64 \<rightharpoonup> block_and_receipts, u64 \<rightharpoonup> path, unit, unit, unit) source_env" where
  "example_source_env = \<lparr>se_fs = example_fs, se_s3 = (\<lambda>_. \<lparr>s3_list = (\<lambda>_. Err ()), s3_get = (\<lambda>_. Err ()), s3_decode = (\<lambda>_. Err ())\<rparr>),
     se_node = example_node_env, se_cache = example_cache_ops, se_lru = example_lru_map, se_lru_new = (\<lambda>_. None)\<rparr>"

definition example_source_args :: block_source_args where
  "example_source_args = \<lparr>arg_block_source = Some ''/blocks'', arg_local_ingest_dir = Some '''', arg_s3 = False,
     arg_local = False, arg_s3_polling_interval = 25, arg_local_fallback_threshold = 5000\<rparr>"


definition example_config :: block_source_config where
  "example_config = \<lparr>source_type = Local ''/blocks'', block_source_from_node = Some example_args\<rparr>"

lemma example_parse: "parse_args None example_source_args = Returns (Ok example_config)"
  by (simp add: parse_args_def create_base_config_def example_source_args_def config_local_def strip_prefix_def
      apply_node_source_config_def with_block_source_from_node_def example_config_def example_args_def
      path_components_def is_absolute_def from_millis_def)

definition example_view :: "(u64 \<times> block_and_receipts) option \<Rightarrow> u64 \<rightharpoonup> block_and_receipts" where
  "example_view m = (case m of Some (k, v) \<Rightarrow> [k \<mapsto> v] | None \<Rightarrow> Map.empty)"

lemma example_lru_map_laws: "lru_map_laws example_lru_map example_view"
  by (auto simp: lru_map_laws_def example_lru_map_def example_view_def split: option.splits if_splits)

lemma example_created:
  "create_cached_block_source example_source_env example_config (hl_mainnet ()) 1 () () =
     Returns (OverNode (cached_source example_lru_map (hl_node_source example_node_env example_cache_ops example_args
       (local_source example_fs ''/blocks''))) (None, example_node_state))"
  by (simp add: create_cached_block_source_def create_block_source_def create_block_source_from_node_def
      example_config_def example_source_env_def example_new)

theorem created_source_delivers_chain_witness:
  "delivers_chain (cached_source example_lru_map (hl_node_source example_node_env example_cache_ops example_args
     (local_source example_fs ''/blocks''))) (cached_turn (node_turn example_node_env example_cache_ops example_args))
     (holds_after example_node_env example_chain) (None, example_node_state) example_chain"
proof -
  have "base_holds example_source_env example_config (hl_mainnet ()) example_chain"
    by (auto simp: base_holds_def example_config_def example_source_env_def example_read example_chain_def split: if_splits)
  moreover have "files_hold (se_node example_source_env) example_chain ()"
    using example_files_hold by (simp add: example_source_env_def)
  moreover have "cache_laws (se_cache example_source_env) id" "lru_map_laws (se_lru example_source_env) example_view"
    "example_view (se_lru_new example_source_env CACHE_LIMIT) = Map.empty"
    using example_cache.cache_laws_axioms example_lru_map_laws by (simp_all add: example_source_env_def example_view_def)
  ultimately show ?thesis
    using created_source_delivers_chain [OF example_parse example_created]
    by (simp add: example_config_def example_source_env_def)
qed

end
