(* ===== verification/Block_Import.thy ===== *)
theory Block_Import
  imports Consensus_Head Spot_Meta "HOL-Library.Multiset"
begin

text \<open>
  Importing announced blocks (\<open>src/src/node/network/block_import\<close>: \<open>mod.rs\<close>, \<open>handle.rs\<close>,
  \<open>service.rs\<close>) and the payload the engine is given (\<open>src/src/node/rpc/engine_api\<close>:
  \<open>payload.rs\<close>, \<open>validator.rs\<close>). The network hands a block to the handle, which sends it to the
  service; the service starts two tasks for it, one that gives the engine the payload and one
  that updates the fork choice, and sends the outcomes back.

  The engine with the database behind it is an argument. The two channels are queues. The
  tasks are polled through \<open>FuturesUnordered\<close>, which yields them in the order they complete:
  a poll of the service is given that order.
\<close>

section \<open>Payloads\<close>

datatype hl_execution_data = HlExecutionData hl_block

definition payload_parent_hash :: "hl_execution_data \<Rightarrow> b256" where
  "payload_parent_hash p = (case p of HlExecutionData b \<Rightarrow> parent_hash (block_header b))"

definition payload_block_hash :: "(header \<Rightarrow> b256) \<Rightarrow> hl_execution_data \<Rightarrow> b256" where
  "payload_block_hash hash_slow p = (case p of HlExecutionData b \<Rightarrow> hash_slow (block_header b))"

definition payload_block_number :: "hl_execution_data \<Rightarrow> u64" where
  "payload_block_number p = (case p of HlExecutionData b \<Rightarrow> hdr_number (block_header b))"

definition payload_withdrawals :: "hl_execution_data \<Rightarrow> withdrawal list option" where
  "payload_withdrawals p = None"

definition payload_parent_beacon_block_root :: "hl_execution_data \<Rightarrow> b256 option" where
  "payload_parent_beacon_block_root p = None"

definition payload_timestamp :: "hl_execution_data \<Rightarrow> u64" where
  "payload_timestamp p = (case p of HlExecutionData b \<Rightarrow> timestamp (block_header b))"

definition payload_gas_used :: "hl_execution_data \<Rightarrow> u64" where
  "payload_gas_used p = (case p of HlExecutionData b \<Rightarrow> hdr_gas_used (block_header b))"

text \<open>A sealed block is the block with the hash of its header, which \<open>seal_slow\<close> computes.\<close>

definition seal_slow :: "(header \<Rightarrow> b256) \<Rightarrow> hl_block \<Rightarrow> hl_block \<times> b256" where
  "seal_slow hash_slow b = (b, hash_slow (block_header b))"

definition block_to_payload :: "hl_block \<times> b256 \<Rightarrow> hl_execution_data" where
  "block_to_payload sealed = HlExecutionData (fst sealed)"

text \<open>A block hash that differs (with both hashes), or a signer that cannot be recovered.\<close>

datatype 'e payload_error = BlockHashMismatch b256 b256 | RecoveryFailed 'e

definition ensure_well_formed_sealed ::
  "(header \<Rightarrow> b256) \<Rightarrow> hl_execution_data \<Rightarrow> (hl_block \<times> b256, 'e payload_error) result" where
  "ensure_well_formed_sealed hash_slow payload =
     (case payload of HlExecutionData block \<Rightarrow>
        let expected_hash = hash_slow (block_header block);
            sealed_block = seal_slow hash_slow block
        in if expected_hash \<noteq> snd sealed_block then Err (BlockHashMismatch (snd sealed_block) expected_hash)
           else Ok sealed_block)"

definition ensure_well_formed_payload ::
  "(header \<Rightarrow> b256) \<Rightarrow> (inner_tx \<Rightarrow> (address, 'e) result) \<Rightarrow> hl_execution_data \<Rightarrow>
     ((hl_block \<times> b256) \<times> address list, 'e payload_error) result" where
  "ensure_well_formed_payload hash_slow inner_recover payload =
     res_bind (ensure_well_formed_sealed hash_slow payload) (\<lambda>sealed_block.
     res_bind (res_map_err RecoveryFailed (collect_results (map (recover_signer inner_recover) (block_txs (fst sealed_block)))))
       (\<lambda>senders. Ok (sealed_block, senders)))"

section \<open>The engine\<close>

datatype payload_status = Valid | Invalid string | Syncing | Accepted

record forkchoice_state =
  head_block_hash :: b256
  safe_block_hash :: b256
  finalized_block_hash :: b256

record ('g, 'p, 'e) engine =
  en_hash_slow :: "header \<Rightarrow> b256"
  en_new_payload :: "hl_execution_data \<Rightarrow> 'g \<Rightarrow> 'g \<times> (payload_status, 'e) result"
  en_fork_choice_updated :: "forkchoice_state \<Rightarrow> 'g \<Rightarrow> 'g \<times> (payload_status, 'e) result"
  en_provider :: "'g \<Rightarrow> 'p provider"

section \<open>The service\<close>

record new_block =
  nb_block :: hl_block
  nb_td :: u128

datatype hl_new_block = HlNewBlock new_block

record block_msg =
  msg_hash :: b256
  msg_block :: hl_new_block

type_synonym peer_id = "512 word"

definition msg_hl_block :: "block_msg \<Rightarrow> hl_block" where
  "msg_hl_block msg = (case msg_block msg of HlNewBlock n \<Rightarrow> nb_block n)"

datatype block_validation = ValidBlock block_msg

record outcome =
  oc_peer :: peer_id
  oc_result :: "(block_validation, string) result"

text \<open>A future of the service: what it will do when it runs.\<close>

datatype import_task =
    NewPayload block_msg peer_id
  | UpdateForkChoice block_msg peer_id b256 u64

definition status_outcome :: "block_msg \<Rightarrow> peer_id \<Rightarrow> (payload_status, 'e) result \<Rightarrow> outcome option" where
  "status_outcome block peer_id r =
     (case r of
        Ok Valid \<Rightarrow> Some \<lparr>oc_peer = peer_id, oc_result = Ok (ValidBlock block)\<rparr>
      | Ok (Invalid validation_error) \<Rightarrow> Some \<lparr>oc_peer = peer_id, oc_result = Err validation_error\<rparr>
      | Ok _ \<Rightarrow> None
      | Err _ \<Rightarrow> None)"

definition run_new_payload ::
  "('g, 'p, 'e) engine \<Rightarrow> block_msg \<Rightarrow> peer_id \<Rightarrow> 'g \<Rightarrow> 'g \<times> outcome option" where
  "run_new_payload env block peer_id g =
     (let payload = block_to_payload (seal_slow (en_hash_slow env) (msg_hl_block block))
      in case en_new_payload env payload g of (g, r) \<Rightarrow> (g, status_outcome block peer_id r))"

definition run_update_fork_choice ::
  "('g, 'p, 'e) engine \<Rightarrow> block_msg \<Rightarrow> peer_id \<Rightarrow> b256 \<Rightarrow> u64 \<Rightarrow> 'g \<Rightarrow> 'g \<times> outcome option" where
  "run_update_fork_choice env block peer_id hash number g =
     (case canonical_head (en_provider env g) hash number of
        Err _ \<Rightarrow> (g, None)
      | Ok (head, _) \<Rightarrow>
          let state = \<lparr>head_block_hash = head, safe_block_hash = head, finalized_block_hash = head\<rparr>
          in case en_fork_choice_updated env state g of (g, r) \<Rightarrow> (g, status_outcome block peer_id r))"

fun run_task :: "('g, 'p, 'e) engine \<Rightarrow> import_task \<Rightarrow> 'g \<Rightarrow> 'g \<times> outcome option" where
  "run_task env (NewPayload block peer_id) g = run_new_payload env block peer_id g"
| "run_task env (UpdateForkChoice block peer_id hash number) g = run_update_fork_choice env block peer_id hash number g"

text \<open>
  The two channels with their ends: \<open>service_alive\<close> is the receiver of the blocks and the sender
  of the events, \<open>handle_alive\<close> the receiver of the events.
\<close>

record 'g import_state =
  from_network :: "(block_msg \<times> peer_id) list"
  to_network :: "outcome list"
  pending_imports :: "import_task list"
  service_alive :: bool
  handle_alive :: bool
  engine_state :: 'g

definition import_new :: "'g \<Rightarrow> 'g import_state" where
  "import_new g = \<lparr>from_network = [], to_network = [], pending_imports = [], service_alive = True,
                   handle_alive = True, engine_state = g\<rparr>"

definition tasks_of :: "('g, 'p, 'e) engine \<Rightarrow> block_msg \<Rightarrow> peer_id \<Rightarrow> import_task list" where
  "tasks_of env block peer_id =
     (let sealed_block = seal_slow (en_hash_slow env) (msg_hl_block block)
      in [NewPayload block peer_id,
          UpdateForkChoice block peer_id (snd sealed_block) (hdr_number (block_header (fst sealed_block)))])"

definition service_on_new_block ::
  "('g, 'p, 'e) engine \<Rightarrow> block_msg \<times> peer_id \<Rightarrow> 'g import_state \<Rightarrow> 'g import_state" where
  "service_on_new_block env = (\<lambda>(block, peer_id) st.
     st\<lparr>pending_imports := pending_imports st @ tasks_of env block peer_id\<rparr>)"

definition receive_blocks :: "('g, 'p, 'e) engine \<Rightarrow> 'g import_state \<Rightarrow> 'g import_state" where
  "receive_blocks env st =
     (fold (service_on_new_block env) (from_network st) st)\<lparr>from_network := []\<rparr>"

text \<open>
  The second loop of \<open>poll\<close>, over the positions of the futures that are ready, in the order
  they are yielded. A future without an outcome ends the loop.
\<close>

datatype service_poll = Pending | SendFailed

fun drain_imports :: "('g, 'p, 'e) engine \<Rightarrow> nat list \<Rightarrow> 'g import_state \<Rightarrow> 'g import_state \<times> service_poll" where
  "drain_imports env [] st = (st, Pending)"
| "drain_imports env (i # ready) st =
     (if i < length (pending_imports st)
      then case run_task env (pending_imports st ! i) (engine_state st) of
        (g, r) \<Rightarrow>
          let st = st\<lparr>pending_imports := take i (pending_imports st) @ drop (Suc i) (pending_imports st),
                      engine_state := g\<rparr>
          in case r of
               None \<Rightarrow> (st, Pending)
             | Some outcome \<Rightarrow>
                 if handle_alive st then drain_imports env ready (st\<lparr>to_network := to_network st @ [outcome]\<rparr>)
                 else (st\<lparr>service_alive := False\<rparr>, SendFailed)
      else (st, Pending))"

definition service_poll_step ::
  "('g, 'p, 'e) engine \<Rightarrow> nat list \<Rightarrow> 'g import_state \<Rightarrow> 'g import_state \<times> service_poll" where
  "service_poll_step env ready st = drain_imports env ready (receive_blocks env st)"

section \<open>The handle\<close>

definition send_block :: "block_msg \<Rightarrow> peer_id \<Rightarrow> 'g import_state \<Rightarrow> 'g import_state \<times> (unit, string) result" where
  "send_block block peer_id st =
     (if service_alive st then (st\<lparr>from_network := from_network st @ [(block, peer_id)]\<rparr>, Ok ())
      else (st, Err ''block import service channel closed''))"

datatype 'a poll = Ready 'a | NotReady

definition poll_outcome :: "'g import_state \<Rightarrow> 'g import_state \<times> outcome option poll" where
  "poll_outcome st =
     (case to_network st of
        e # es \<Rightarrow> (st\<lparr>to_network := es\<rparr>, Ready (Some e))
      | [] \<Rightarrow> (st, if service_alive st then NotReady else Ready None))"

datatype new_block_event = NewBlockEvent block_msg | NewBlockHashes "(b256 \<times> u64) list"

definition import_on_new_block :: "peer_id \<Rightarrow> new_block_event \<Rightarrow> 'g import_state \<Rightarrow> 'g import_state" where
  "import_on_new_block peer_id incoming_block st =
     (case incoming_block of NewBlockEvent block \<Rightarrow> fst (send_block block peer_id st) | NewBlockHashes _ \<Rightarrow> st)"

definition import_poll :: "'g import_state \<Rightarrow> 'g import_state \<times> outcome poll" where
  "import_poll st =
     (case poll_outcome st of
        (st, Ready (Some outcome)) \<Rightarrow> (st, Ready outcome)
      | (st, Ready None) \<Rightarrow> (st, NotReady)
      | (st, NotReady) \<Rightarrow> (st, NotReady))"

section \<open>Runs\<close>

text \<open>
  A run of the network and the service. The trace keeps the blocks that were announced, the
  tasks that ran with what they returned, and the events the network has received.
\<close>

record import_trace =
  announced :: "(block_msg \<times> peer_id) list"
  finished :: "(import_task \<times> outcome option) list"
  delivered :: "outcome list"

text \<open>The tasks a poll runs, and what they return.\<close>

fun drained :: "('g, 'p, 'e) engine \<Rightarrow> nat list \<Rightarrow> 'g import_state \<Rightarrow> (import_task \<times> outcome option) list" where
  "drained env [] st = []"
| "drained env (i # ready) st =
     (if i < length (pending_imports st)
      then case run_task env (pending_imports st ! i) (engine_state st) of
        (g, r) \<Rightarrow>
          let st' = st\<lparr>pending_imports := take i (pending_imports st) @ drop (Suc i) (pending_imports st),
                       engine_state := g\<rparr>
          in (pending_imports st ! i, r) #
             (case r of None \<Rightarrow> []
              | Some outcome \<Rightarrow> if handle_alive st' then drained env ready (st'\<lparr>to_network := to_network st' @ [outcome]\<rparr>)
                                else [])
      else [])"

inductive import_run :: "('g, 'p, 'e) engine \<Rightarrow> 'g \<Rightarrow> 'g import_state \<Rightarrow> import_trace \<Rightarrow> bool"
  for env g where
  New: "import_run env g (import_new g) \<lparr>announced = [], finished = [], delivered = []\<rparr>"
| Announce: "import_run env g st tr \<Longrightarrow> service_alive st \<Longrightarrow>
    import_run env g (import_on_new_block peer (NewBlockEvent b) st) (tr\<lparr>announced := announced tr @ [(b, peer)]\<rparr>)"
| Hashes: "import_run env g st tr \<Longrightarrow> import_run env g (import_on_new_block peer (NewBlockHashes hs) st) tr"
| Service: "import_run env g st tr \<Longrightarrow> service_alive st \<Longrightarrow>
    import_run env g (fst (service_poll_step env ready st))
      (tr\<lparr>finished := finished tr @ drained env ready (receive_blocks env st)\<rparr>)"
| Deliver: "import_run env g st tr \<Longrightarrow> import_poll st = (st', Ready e) \<Longrightarrow>
    import_run env g st' (tr\<lparr>delivered := delivered tr @ [e]\<rparr>)"

inductive_cases import_runE: "import_run env g st tr"

section \<open>Lemmas\<close>

abbreviation all_tasks :: "('g, 'p, 'e) engine \<Rightarrow> (block_msg \<times> peer_id) list \<Rightarrow> import_task list" where
  "all_tasks env msgs \<equiv> concat (map (\<lambda>(b, p). tasks_of env b p) msgs)"

lemma fold_on_new_block:
  "fold (service_on_new_block env) msgs st = st\<lparr>pending_imports := pending_imports st @ all_tasks env msgs\<rparr>"
  by (induction msgs arbitrary: st) (auto simp: service_on_new_block_def)

lemma receive_blocks_eq:
  "receive_blocks env st = st\<lparr>pending_imports := pending_imports st @ all_tasks env (from_network st), from_network := []\<rparr>"
  by (simp add: receive_blocks_def fold_on_new_block)

lemma mset_take_drop_nth:
  assumes "i < length xs"
  shows "mset (take i xs @ drop (Suc i) xs) + {#xs ! i#} = mset xs"
  by (subst (4) id_take_nth_drop [OF assms]) simp

text \<open>A poll moves tasks from the pending ones to the finished ones, and sends their outcomes.\<close>

lemma drain_imports_effect:
  assumes "handle_alive st"
  shows "mset (pending_imports (fst (drain_imports env ready st))) + mset (map fst (drained env ready st)) =
      mset (pending_imports st) \<and>
    to_network (fst (drain_imports env ready st)) = to_network st @ List.map_filter snd (drained env ready st) \<and>
    from_network (fst (drain_imports env ready st)) = from_network st \<and>
    handle_alive (fst (drain_imports env ready st)) \<and>
    service_alive (fst (drain_imports env ready st)) = service_alive st \<and>
    (\<forall>(t, r) \<in> set (drained env ready st). \<exists>g. r = snd (run_task env t g))"
  using assms
proof (induction ready arbitrary: st)
  case Nil
  then show ?case by (simp add: List.map_filter_def)
next
  case (Cons i ready)
  show ?case
  proof (cases "i < length (pending_imports st)")
    case False
    with Cons.prems show ?thesis by (simp add: List.map_filter_def)
  next
    case True
    obtain g r where task: "run_task env (pending_imports st ! i) (engine_state st) = (g, r)" by force
    then have ran: "\<exists>g'. r = snd (run_task env (pending_imports st ! i) g')" by (metis snd_conv)
    note moved = mset_take_drop_nth [OF True]
    show ?thesis
    proof (cases r)
      case None
      with True task ran moved Cons.prems show ?thesis by (auto simp: List.map_filter_def)
    next
      case (Some e)
      let ?st = "st\<lparr>pending_imports := take i (pending_imports st) @ drop (Suc i) (pending_imports st),
          engine_state := g, to_network := to_network st @ [e]\<rparr>"
      have drain: "drain_imports env (i # ready) st = drain_imports env ready ?st"
        "drained env (i # ready) st = (pending_imports st ! i, r) # drained env ready ?st"
        using True task Some Cons.prems by simp_all
      from Cons.IH [of ?st] Cons.prems ran moved show ?thesis
        unfolding drain by (auto simp: Some List.map_filter_def)
    qed
  qed
qed

definition import_inv :: "('g, 'p, 'e) engine \<Rightarrow> 'g import_state \<Rightarrow> import_trace \<Rightarrow> bool" where
  "import_inv env st tr \<longleftrightarrow>
     mset (pending_imports st) + mset (map fst (finished tr)) + mset (all_tasks env (from_network st)) =
       mset (all_tasks env (announced tr)) \<and>
     delivered tr @ to_network st = List.map_filter snd (finished tr) \<and>
     service_alive st \<and> handle_alive st \<and>
     (\<forall>(t, r) \<in> set (finished tr). \<exists>g. r = snd (run_task env t g))"

lemma map_filter_append: "List.map_filter f (xs @ ys) = List.map_filter f xs @ List.map_filter f ys"
  by (simp add: List.map_filter_def)

lemma import_run_inv: "import_run env g st tr \<Longrightarrow> import_inv env st tr"
proof (induction rule: import_run.induct)
  case New
  then show ?case by (simp add: import_inv_def import_new_def List.map_filter_def)
next
  case (Announce st tr peer b)
  then show ?case by (simp add: import_inv_def import_on_new_block_def send_block_def ac_simps)
next
  case (Hashes st tr peer hs)
  then show ?case by (simp add: import_on_new_block_def)
next
  case (Service st tr ready)
  let ?st = "receive_blocks env st"
  have "handle_alive ?st" using Service.IH by (simp add: import_inv_def receive_blocks_eq)
  from drain_imports_effect [OF this, of env ready] Service.IH show ?case
    by (auto simp: import_inv_def service_poll_step_def map_filter_append receive_blocks_eq ac_simps)
next
  case (Deliver st tr st' e)
  then show ?case
    by (auto simp: import_inv_def import_poll_def poll_outcome_def split: list.splits if_splits)
qed

lemma run_task_outcome:
  assumes "Some e = snd (run_task env t g)" "t \<in> set (tasks_of env b p)"
  shows "oc_peer e = p \<and> (\<forall>v. oc_result e = Ok v \<longrightarrow> v = ValidBlock b)"
  using assms
  by (auto simp: tasks_of_def Let_def run_new_payload_def run_update_fork_choice_def status_outcome_def
      split: prod.splits sum.splits payload_status.splits)

lemma length_all_tasks: "length (all_tasks env msgs) = 2 * length msgs"
  by (induction msgs) (auto simp: tasks_of_def Let_def)

section \<open>Properties\<close>

text \<open>
  C34. No task is lost and none runs twice. In every run, the tasks of the announced blocks are
  exactly the pending ones, the finished ones and those of the blocks still in the channel; the
  events delivered to the network and those still in the channel are the outcomes of the
  finished tasks, in order. So every event names a peer that announced a block and, if the
  block is valid, that block; and there are at most two events for an announcement.
\<close>

theorem import_conserves:
  assumes "import_run env g st tr"
  shows "mset (pending_imports st) + mset (map fst (finished tr)) + mset (all_tasks env (from_network st)) =
      mset (all_tasks env (announced tr)) \<and>
    delivered tr @ to_network st = List.map_filter snd (finished tr) \<and>
    (\<forall>e \<in> set (delivered tr). \<exists>b. (b, oc_peer e) \<in> set (announced tr) \<and>
       (\<forall>v. oc_result e = Ok v \<longrightarrow> v = ValidBlock b)) \<and>
    length (delivered tr) \<le> 2 * length (announced tr)"
proof -
  have inv: "import_inv env st tr" using assms by (rule import_run_inv)
  then have tasks: "mset (pending_imports st) + mset (map fst (finished tr)) + mset (all_tasks env (from_network st)) =
      mset (all_tasks env (announced tr))"
    and events: "delivered tr @ to_network st = List.map_filter snd (finished tr)"
    by (simp_all add: import_inv_def)
  have "\<exists>b. (b, oc_peer e) \<in> set (announced tr) \<and> (\<forall>v. oc_result e = Ok v \<longrightarrow> v = ValidBlock b)"
    if "e \<in> set (delivered tr)" for e
  proof -
    have "e \<in> set (List.map_filter snd (finished tr))" using that arg_cong [OF events, of set] by auto
    then obtain t where t: "(t, Some e) \<in> set (finished tr)" by (force simp: List.map_filter_def)
    then obtain g' where ran: "Some e = snd (run_task env t g')" using inv by (auto simp: import_inv_def)
    have "t \<in># mset (all_tasks env (announced tr))" using t by (force simp flip: tasks)
    then obtain b p where "(b, p) \<in> set (announced tr)" "t \<in> set (tasks_of env b p)" by auto
    with run_task_outcome [OF ran] show ?thesis by blast
  qed
  moreover have "length (delivered tr) \<le> length (finished tr)"
    using arg_cong [OF events, of length] length_filter_le [of "\<lambda>x. \<exists>y. snd x = Some y" "finished tr"]
    by (simp add: List.map_filter_def del: length_filter_le)
  moreover have "length (finished tr) \<le> 2 * length (announced tr)"
    using arg_cong [OF tasks, of size] by (simp add: length_all_tasks)
  ultimately show ?thesis using tasks events by auto
qed

text \<open>
  A task that returns no outcome ends the poll: the tasks that are ready after it wait for the
  next one.
\<close>

lemma poll_stops_at_silent_task:
  assumes "i < length (pending_imports st)"
    and "snd (run_task env (pending_imports st ! i) (engine_state st)) = None"
  shows "drain_imports env (i # ready) st = drain_imports env [i] st"
  using assms by (cases "run_task env (pending_imports st ! i) (engine_state st)") simp

text \<open>
  The validator accepts the payload of every block whose signers can be recovered, seals it
  with the hash of its header and recovers the signers in order, the system addresses of system
  transactions among them; it refuses a payload only for a signer that cannot be recovered.
\<close>

theorem payload_validated:
  fixes b :: hl_block
  shows "ensure_well_formed_payload hash_slow inner_recover (block_to_payload (seal_slow hash_slow b)) =
    (case collect_results (map (recover_signer inner_recover) (block_txs b)) of
       Err e \<Rightarrow> Err (RecoveryFailed e)
     | Ok senders \<Rightarrow> Ok ((b, payload_block_hash hash_slow (HlExecutionData b)), senders))"
  by (simp add: ensure_well_formed_payload_def ensure_well_formed_sealed_def block_to_payload_def seal_slow_def
      payload_block_hash_def split: sum.splits)

section \<open>An example\<close>

definition announced_header :: header where
  "announced_header = \<lparr>parent_hash = 0, ommers_hash = 0, beneficiary = 0, state_root = 0, transactions_root = 0,
     receipts_root = 0, logs_bloom = 0, difficulty = 0, hdr_number = 1, hdr_gas_limit = 30000000,
     hdr_gas_used = 0, timestamp = 1, extra_data = [], mix_hash = 0, hdr_nonce = 0,
     base_fee_per_gas = Some 0, withdrawals_root = None, blob_gas_used = None, excess_blob_gas = None,
     parent_beacon_block_root = None, requests_hash = None\<rparr>"

definition example_msg :: block_msg where
  "example_msg = \<lparr>msg_hash = 7, msg_block = HlNewBlock \<lparr>nb_block = \<lparr>block_header = announced_header,
     block_body = \<lparr>body_inner = \<lparr>transactions = [], ommers = [], withdrawals = None\<rparr>, sidecars = None,
       read_precompile_calls = None, highest_precompile_address = None\<rparr>\<rparr>, nb_td = 0\<rparr>\<rparr>"

text \<open>An engine that finds every payload valid and is syncing when the fork choice changes.\<close>

definition example_engine :: "(unit, unit, unit) engine" where
  "example_engine = \<lparr>en_hash_slow = (\<lambda>_. 7), en_new_payload = (\<lambda>_ g. (g, Ok Valid)),
     en_fork_choice_updated = (\<lambda>_ g. (g, Ok Syncing)), en_provider = (\<lambda>_. provider_at (0, 5))\<rparr>"

definition example_trace :: import_trace where
  "example_trace = \<lparr>announced = [(example_msg, 9)],
     finished = [(NewPayload example_msg 9, Some \<lparr>oc_peer = 9, oc_result = Ok (ValidBlock example_msg)\<rparr>)],
     delivered = [\<lparr>oc_peer = 9, oc_result = Ok (ValidBlock example_msg)\<rparr>]\<rparr>"

lemma example_import_run:
  "import_run example_engine () ((import_new ())\<lparr>pending_imports := [UpdateForkChoice example_msg 9 7 1]\<rparr>) example_trace"
proof -
  note new = import_run.New [of example_engine "()"]
  note announced = import_run.Announce [OF new, of 9 example_msg, simplified import_new_def import_state.simps simp_thms]
  note served = import_run.Service [OF announced, of "[0]"]
  note delivered = import_run.Deliver [OF served]
  show ?thesis
    by (rule back_subst [of "\<lambda>tr. import_run example_engine () _ tr", OF delivered])
      (simp_all add: import_on_new_block_def send_block_def service_poll_step_def receive_blocks_eq tasks_of_def Let_def
        seal_slow_def run_new_payload_def status_outcome_def example_engine_def import_poll_def poll_outcome_def
        msg_hl_block_def example_msg_def announced_header_def example_trace_def import_new_def)
qed

theorem import_conserves_witness:
  "mset [UpdateForkChoice example_msg 9 7 1] + mset (map fst (finished example_trace)) + mset (all_tasks example_engine []) =
      mset (all_tasks example_engine (announced example_trace)) \<and>
    delivered example_trace @ [] = List.map_filter snd (finished example_trace) \<and>
    length (delivered example_trace) \<le> 2 * length (announced example_trace)"
  using import_conserves [OF example_import_run] by (auto simp: import_new_def)

end
