(* ===== verification/Node_Network.thy ===== *)
theory Node_Network
  imports Peer_Loop Source_Config Block_Import
begin

text \<open>
  The network of the node (\<open>HlNetworkBuilder\<close> of \<open>src/src/node/network/mod.rs\<close>) and the part of
  \<open>HlNode\<close> (\<open>src/src/node/mod.rs\<close>) that carries its state: the configuration of the network
  manager, the task of the block import, which waits for the handle of the engine, and the
  task of the pseudo peer over the configured block source.

  Reth's builder context (the configuration builder, the head, the start of the network, the
  stage checkpoints) is the record \<open>network_ctx\<close>.
\<close>

section \<open>The node\<close>

text \<open>
  The receiver of the engine's handle: a slot that is emptied when it is taken. The slot is
  shared between the node and every network builder made from it.
\<close>

record hl_node =
  hn_engine_handle_rx :: bool
  hn_block_source_config :: block_source_config

definition hl_node_new :: "block_source_config \<Rightarrow> hl_node" where
  "hl_node_new config = \<lparr>hn_engine_handle_rx = True, hn_block_source_config = config\<rparr>"

text \<open>
  The task \<open>block import\<close> up to the start of the service: the receiver is taken, and what
  arrives on it is the handle, or nothing if the sender was dropped.
\<close>

definition start_import_task :: "'g option \<Rightarrow> bool \<Rightarrow> 'g import_state run \<times> bool" where
  "start_import_task received slot =
     (if slot then (run_bind (unwrap received) (\<lambda>handle. Returns (import_new handle)), False)
      else (Panics, False))"

section \<open>The network\<close>

definition BOOTNODES :: "string list" where
  "BOOTNODES = []"

definition boot_nodes :: "(string \<Rightarrow> ('p, 'pe) result) \<Rightarrow> 'p list run" where
  "boot_nodes parse_node = run_list (map (\<lambda>s. unwrap_res (parse_node s)) BOOTNODES)"




text \<open>
  What the pseudo peer uses beside its block source; the official RPC server and the spot
  metadata server answer or fail.
\<close>

record ('l, 'k, 'q, 'qe, 'm, 'e) peer_world =
  pw_lru :: "('l, b256) lru_ops"
  pw_iter :: "(b256 \<rightharpoonup> u64) \<Rightarrow> (b256 \<times> u64) list"
  pw_rpc :: "string \<Rightarrow> b256 \<Rightarrow> u64 option"
  pw_post :: "nat \<Rightarrow> string \<Rightarrow> spot_meta option"
  pw_hash_slow :: "header \<Rightarrow> b256"
  pw_parse_peer :: "string \<Rightarrow> ('q, 'qe) result"
  pw_secret_key :: 'k
  pw_network_manager_new :: "'q list \<Rightarrow> 'm option"
  pw_error :: 'e

definition peer_env_over ::
  "('l, 'k, 'q, 'qe, 'm, 'e) peer_world \<Rightarrow> 'g chain_spec \<Rightarrow> ('x \<Rightarrow> 'f) \<Rightarrow> 'x \<Rightarrow> ('s, 'f) block_source \<Rightarrow> ('s, 'l, 'f, 'g) peer_env" where
  "peer_env_over pw spec report err src =
     \<lparr>pe_src = src, pe_lru = pw_lru pw, pe_iter = pw_iter pw,
      pe_rpc = (\<lambda>url h s. (s, ok_or (pw_rpc pw url h) (report err))), pe_chain_spec = spec,
      pe_post = (\<lambda>n url. ok_or (pw_post pw n url) (report err)), pe_hash_slow = pw_hash_slow pw\<rparr>"






section \<open>Lemmas\<close>


lemma boot_nodes_none [simp]: "boot_nodes parse = Returns []"
  by (simp add: boot_nodes_def BOOTNODES_def)


lemma peer_env_over_src [simp]: "pe_src (peer_env_over pw spec report err src) = src"
  by (simp add: peer_env_over_def)







section \<open>Properties\<close>


text \<open>
  The engine's handle is taken once. The first network a node builds gives its block
  import the handle that is sent to the node; the import task of a second network of
  the same node panics, and so does the first if the sender is dropped.
\<close>

theorem import_task_once:
  "start_import_task received (hn_engine_handle_rx (hl_node_new config)) =
     ((case received of None \<Rightarrow> Panics | Some handle \<Rightarrow> Returns (import_new handle)), False) \<and>
   fst (start_import_task received' (snd (start_import_task received (hn_engine_handle_rx (hl_node_new config))))) = Panics"
  by (cases received) (simp_all add: start_import_task_def hl_node_new_def)

section \<open>An example\<close>





end
