(* ===== verification/Rpc_Modules.thy ===== *)
theory Rpc_Modules
  imports Prelude
begin

text \<open>
  Which handler serves which RPC method (the closure given to \<open>extend_rpc_modules\<close> in
  \<open>src/src/main.rs\<close>, \<open>install_hl_node_compliance\<close> of
  \<open>src/src/addons/hl_node_compliance.rs\<close>, and the names in the \<open>#[rpc]\<close> traits of
  \<open>src/src/addons\<close>).

  Reth's table of modules is the record \<open>module_ops\<close>, an argument of the definitions; what
  its documentation says of replacing, merging and removing methods is the locale
  \<open>rpc_modules\<close>, which is interpreted on a table of maps.
\<close>

section \<open>Names\<close>

text \<open>\<open>#[rpc(namespace = ...)]\<close> puts the namespace and an underscore before the name of a method.\<close>

definition rpc_name :: "string \<Rightarrow> string \<Rightarrow> string" where
  "rpc_name namespace name = namespace @ ''_'' @ name"

datatype rpc_handler =
    RethHandler string
  | EthForwarder string string
  | CallForwarder string string
  | FilterHttp string
  | FilterWs string
  | BlockFilterHttp string
  | SystemTransactionExt string

definition eth_forwarder_methods :: "string \<Rightarrow> (string \<times> rpc_handler) list" where
  "eth_forwarder_methods url = map (\<lambda>m. (rpc_name ''eth'' m, EthForwarder url m))
     [''sendRawTransaction'', ''eth_sendTransaction'', ''eth_sendRawTransactionSync'']"

definition call_forwarder_methods :: "string \<Rightarrow> (string \<times> rpc_handler) list" where
  "call_forwarder_methods url = map (\<lambda>m. (rpc_name ''eth'' m, CallForwarder url m)) [''call'', ''estimateGas'']"

text \<open>Reth's traits \<open>EthFilterApi\<close> and \<open>EthPubSubApi\<close>, which the compliance layer implements.\<close>

definition filter_http_methods :: "(string \<times> rpc_handler) list" where
  "filter_http_methods = map (\<lambda>m. (rpc_name ''eth'' m, FilterHttp m))
     [''newFilter'', ''newBlockFilter'', ''newPendingTransactionFilter'', ''getFilterChanges'', ''getFilterLogs'',
      ''uninstallFilter'', ''getLogs'']"

definition filter_ws_methods :: "(string \<times> rpc_handler) list" where
  "filter_ws_methods = map (\<lambda>m. (rpc_name ''eth'' m, FilterWs m)) [''subscribe'', ''unsubscribe'']"

definition block_filter_methods :: "(string \<times> rpc_handler) list" where
  "block_filter_methods = map (\<lambda>m. (rpc_name ''eth'' m, BlockFilterHttp m))
     [''getBlockByHash'', ''getBlockByNumber'', ''getBlockReceipts'', ''getBlockTransactionCountByHash'',
      ''getBlockTransactionCountByNumber'', ''getTransactionReceipt'']"

definition system_transaction_methods :: "(string \<times> rpc_handler) list" where
  "system_transaction_methods = map (\<lambda>m. (rpc_name ''eth'' m, SystemTransactionExt m))
     [''getEvmSystemTxsByBlockHash'', ''getEvmSystemTxsByBlockNumber'', ''getEvmSystemTxsReceiptsByBlockHash'',
      ''getEvmSystemTxsReceiptsByBlockNumber'']"

section \<open>The table of modules\<close>

datatype transport = Http | Ws | Ipc

record ('t, 'x) module_ops =
  mo_configured :: "'t \<Rightarrow> transport \<Rightarrow> bool"
  mo_handler :: "'t \<Rightarrow> transport \<Rightarrow> string \<Rightarrow> rpc_handler option"
  mo_replace_configured :: "(string \<times> rpc_handler) list \<Rightarrow> 't \<Rightarrow> ('t, 'x) result"
  mo_merge_configured :: "(string \<times> rpc_handler) list \<Rightarrow> 't \<Rightarrow> ('t, 'x) result"
  mo_remove_method :: "string \<Rightarrow> 't \<Rightarrow> 't"

text \<open>
  Reth's promises. Replacing removes the names from every configured transport and puts the
  new methods there; merging refuses a name that is taken and otherwise adds the methods;
  removing a method leaves the others.
\<close>

locale rpc_modules =
  fixes ops :: "('t, 'x) module_ops"
  assumes replace_ok: "distinct (map fst ms) \<Longrightarrow> \<exists>t'. mo_replace_configured ops ms t = Ok t'"
    and replace_handler: "mo_replace_configured ops ms t = Ok t' \<Longrightarrow> mo_configured ops t tr \<Longrightarrow>
      mo_handler ops t' tr m = (case map_of ms m of Some h \<Rightarrow> Some h | None \<Rightarrow> mo_handler ops t tr m)"
    and replace_configured: "mo_replace_configured ops ms t = Ok t' \<Longrightarrow> mo_configured ops t' = mo_configured ops t"
    and merge_ok: "distinct (map fst ms) \<Longrightarrow>
      (\<exists>t'. mo_merge_configured ops ms t = Ok t') \<longleftrightarrow>
      (\<forall>tr. mo_configured ops t tr \<longrightarrow> (\<forall>m \<in> set (map fst ms). mo_handler ops t tr m = None))"
    and merge_handler: "mo_merge_configured ops ms t = Ok t' \<Longrightarrow> mo_configured ops t tr \<Longrightarrow>
      mo_handler ops t' tr m = (case map_of ms m of Some h \<Rightarrow> Some h | None \<Rightarrow> mo_handler ops t tr m)"
    and merge_configured: "mo_merge_configured ops ms t = Ok t' \<Longrightarrow> mo_configured ops t' = mo_configured ops t"
    and remove_handler: "mo_configured ops t tr \<Longrightarrow>
      mo_handler ops (mo_remove_method ops n t) tr m = (if m = n then None else mo_handler ops t tr m)"
    and remove_configured: "mo_configured ops (mo_remove_method ops n t) = mo_configured ops t"

section \<open>Installing the handlers\<close>

definition install_hl_node_compliance :: "('t, 'x) module_ops \<Rightarrow> 't \<Rightarrow> ('t, 'x) result" where
  "install_hl_node_compliance ops t =
     res_bind (mo_replace_configured ops filter_http_methods t) (\<lambda>t.
     res_bind (mo_replace_configured ops filter_ws_methods t) (\<lambda>t.
     res_bind (mo_replace_configured ops block_filter_methods t) (\<lambda>t.
       mo_merge_configured ops system_transaction_methods t)))"

text \<open>The options of the node beside those of its block source.\<close>

record rpc_args =
  upstream_rpc_url :: "string option"
  hl_node_compliant :: bool
  forward_call_arg :: bool
  experimental_eth_get_proof :: bool

text \<open>The clients of the forwarders have to be built from the URL (\<open>expect\<close>).\<close>

definition extend_rpc_modules ::
  "('t, 'x) module_ops \<Rightarrow> (string \<Rightarrow> bool) \<Rightarrow> rpc_args \<Rightarrow> string \<Rightarrow> 't \<Rightarrow> ('t, 'x) result run" where
  "extend_rpc_modules ops client_builds ext default_upstream_rpc_url t =
     (let url = (case upstream_rpc_url ext of None \<Rightarrow> default_upstream_rpc_url | Some u \<Rightarrow> u)
      in if \<not> client_builds url then Panics
         else Returns
           (res_bind (mo_replace_configured ops (eth_forwarder_methods url) t) (\<lambda>t.
            res_bind (if forward_call_arg ext then mo_replace_configured ops (call_forwarder_methods url) t else Ok t) (\<lambda>t.
            res_bind (if hl_node_compliant ext then install_hl_node_compliance ops t else Ok t) (\<lambda>t.
              Ok (if \<not> experimental_eth_get_proof ext then mo_remove_method ops ''eth_getProof'' t else t))))))"

section \<open>Specification\<close>

text \<open>Who serves a method: the last group that names it, or whoever did before.\<close>

definition compliance_methods :: "(string \<times> rpc_handler) list" where
  "compliance_methods = system_transaction_methods @ block_filter_methods @ filter_ws_methods @ filter_http_methods"

definition served_by :: "rpc_args \<Rightarrow> string \<Rightarrow> (string \<Rightarrow> rpc_handler option) \<Rightarrow> string \<Rightarrow> rpc_handler option" where
  "served_by ext url before m =
     (if m = ''eth_getProof'' \<and> \<not> experimental_eth_get_proof ext then None
      else case (if hl_node_compliant ext then map_of compliance_methods m else None) of
        Some h \<Rightarrow> Some h
      | None \<Rightarrow> (case (if forward_call_arg ext then map_of (call_forwarder_methods url) m else None) of
          Some h \<Rightarrow> Some h
        | None \<Rightarrow> (case map_of (eth_forwarder_methods url) m of Some h \<Rightarrow> Some h | None \<Rightarrow> before m)))"

lemmas method_lists = eth_forwarder_methods_def call_forwarder_methods_def filter_http_methods_def filter_ws_methods_def
  block_filter_methods_def system_transaction_methods_def rpc_name_def

lemma distinct_methods [simp]:
  "distinct (map fst (eth_forwarder_methods url))" "distinct (map fst (call_forwarder_methods url))"
  "distinct (map fst filter_http_methods)" "distinct (map fst filter_ws_methods)"
  "distinct (map fst block_filter_methods)" "distinct (map fst system_transaction_methods)"
  by (simp_all add: method_lists)

lemma distinct_compliance: "distinct (map fst compliance_methods)"
  by (simp add: compliance_methods_def method_lists)

context rpc_modules
begin

lemma install_handler:
  assumes "install_hl_node_compliance ops t = Ok t'" "mo_configured ops t tr"
  shows "mo_handler ops t' tr m = (case map_of compliance_methods m of Some h \<Rightarrow> Some h | None \<Rightarrow> mo_handler ops t tr m)"
    and "mo_configured ops t' = mo_configured ops t"
proof -
  from assms(1) obtain t1 t2 t3 where
    t: "mo_replace_configured ops filter_http_methods t = Ok t1" "mo_replace_configured ops filter_ws_methods t1 = Ok t2"
    "mo_replace_configured ops block_filter_methods t2 = Ok t3" "mo_merge_configured ops system_transaction_methods t3 = Ok t'"
    by (auto simp: install_hl_node_compliance_def res_bind_eq_Ok_iff)
  note conf = replace_configured [OF t(1)] replace_configured [OF t(2)] replace_configured [OF t(3)] merge_configured [OF t(4)]
  show "mo_configured ops t' = mo_configured ops t" using conf by simp
  show "mo_handler ops t' tr m = (case map_of compliance_methods m of Some h \<Rightarrow> Some h | None \<Rightarrow> mo_handler ops t tr m)"
    using assms(2) conf
    by (simp add: replace_handler [OF t(1)] replace_handler [OF t(2)] replace_handler [OF t(3)] merge_handler [OF t(4)]
        compliance_methods_def map_add_def split: option.split)
qed

lemma install_ok_iff:
  "(\<exists>t'. install_hl_node_compliance ops t = Ok t') \<longleftrightarrow>
   (\<forall>tr. mo_configured ops t tr \<longrightarrow> (\<forall>m \<in> set (map fst system_transaction_methods). mo_handler ops t tr m = None))"
proof -
  obtain t1 t2 t3 where
    t: "mo_replace_configured ops filter_http_methods t = Ok t1" "mo_replace_configured ops filter_ws_methods t1 = Ok t2"
    "mo_replace_configured ops block_filter_methods t2 = Ok t3"
    by (meson replace_ok distinct_methods)
  have new: "map_of block_filter_methods m = None" "map_of filter_ws_methods m = None" "map_of filter_http_methods m = None"
    if "m \<in> set (map fst system_transaction_methods)" for m
    using that by (auto simp: method_lists)
  have "mo_handler ops t3 tr m = mo_handler ops t tr m"
    if "mo_configured ops t tr" "m \<in> set (map fst system_transaction_methods)" for tr m
    using that(1) replace_configured [OF t(1)] replace_configured [OF t(2)]
    by (simp add: replace_handler [OF t(1)] replace_handler [OF t(2)] replace_handler [OF t(3)] new [OF that(2)])
  moreover have "mo_configured ops t3 = mo_configured ops t"
    using replace_configured [OF t(1)] replace_configured [OF t(2)] replace_configured [OF t(3)] by simp
  ultimately show ?thesis
    by (simp add: install_hl_node_compliance_def t merge_ok)
qed

lemma extend_handler:
  assumes "extend_rpc_modules ops builds ext def t = Returns (Ok t')" "mo_configured ops t tr"
  shows "mo_handler ops t' tr m =
    served_by ext (case upstream_rpc_url ext of None \<Rightarrow> def | Some u \<Rightarrow> u) (mo_handler ops t tr) m"
proof -
  define url where "url = (case upstream_rpc_url ext of None \<Rightarrow> def | Some u \<Rightarrow> u)"
  have "builds url" using assms(1) by (cases "builds url") (simp_all add: extend_rpc_modules_def url_def [symmetric])
  with assms(1) obtain t1 t2 t3 where
    t1: "mo_replace_configured ops (eth_forwarder_methods url) t = Ok t1" and
    t2: "(if forward_call_arg ext then mo_replace_configured ops (call_forwarder_methods url) t1 else Ok t1) = Ok t2" and
    t3: "(if hl_node_compliant ext then install_hl_node_compliance ops t2 else Ok t2) = Ok t3" and
    t': "t' = (if \<not> experimental_eth_get_proof ext then mo_remove_method ops ''eth_getProof'' t3 else t3)"
    unfolding extend_rpc_modules_def url_def [symmetric] Let_def
    by (simp only: not_True_eq_False if_False run.inject res_bind_eq_Ok_iff sum.inject) blast
  have h1: "mo_handler ops t1 tr m = (case map_of (eth_forwarder_methods url) m of Some h \<Rightarrow> Some h | None \<Rightarrow> mo_handler ops t tr m)"
    and c1: "mo_configured ops t1 tr"
    using replace_handler [OF t1 assms(2)] replace_configured [OF t1] assms(2) by simp_all
  have h2: "mo_handler ops t2 tr m = (case (if forward_call_arg ext then map_of (call_forwarder_methods url) m else None) of
      Some h \<Rightarrow> Some h | None \<Rightarrow> mo_handler ops t1 tr m)" and c2: "mo_configured ops t2 tr"
    using t2 c1 replace_handler [OF _ c1] replace_configured by (auto split: if_splits)
  have h3: "mo_handler ops t3 tr m = (case (if hl_node_compliant ext then map_of compliance_methods m else None) of
      Some h \<Rightarrow> Some h | None \<Rightarrow> mo_handler ops t2 tr m)" and c3: "mo_configured ops t3 tr"
    using t3 c2 install_handler [OF _ c2] by (auto split: if_splits)
  have "mo_handler ops t' tr m = (if m = ''eth_getProof'' \<and> \<not> experimental_eth_get_proof ext then None else mo_handler ops t3 tr m)"
    using c3 by (simp add: t' remove_handler)
  then show ?thesis unfolding url_def [symmetric] served_by_def h3 h2 h1 by (rule trans) (simp split: option.split)
qed

lemma extend_succeeds:
  assumes "builds (case upstream_rpc_url ext of None \<Rightarrow> def | Some u \<Rightarrow> u)"
    and "\<And>tr m. mo_configured ops t tr \<Longrightarrow> m \<in> set (map fst system_transaction_methods) \<Longrightarrow> mo_handler ops t tr m = None"
  shows "\<exists>t'. extend_rpc_modules ops builds ext def t = Returns (Ok t')"
proof -
  define url where "url = (case upstream_rpc_url ext of None \<Rightarrow> def | Some u \<Rightarrow> u)"
  have new: "map_of (eth_forwarder_methods url) m = None" "map_of (call_forwarder_methods url) m = None"
    if "m \<in> set (map fst system_transaction_methods)" for m
    using that by (auto simp: method_lists)
  obtain t1 where t1: "mo_replace_configured ops (eth_forwarder_methods url) t = Ok t1" by (meson replace_ok distinct_methods)
  obtain t2 where t2: "(if forward_call_arg ext then mo_replace_configured ops (call_forwarder_methods url) t1 else Ok t1) = Ok t2"
    using replace_ok [OF distinct_methods(2)] by (cases "forward_call_arg ext") auto
  have "mo_configured ops t tr \<and> mo_handler ops t2 tr m = mo_handler ops t tr m"
    if "mo_configured ops t2 tr" "m \<in> set (map fst system_transaction_methods)" for tr m
  proof -
    have c: "mo_configured ops t1 tr" using that(1) t2 replace_configured by (auto split: if_splits)
    then have c0: "mo_configured ops t tr" using replace_configured [OF t1] by simp
    have "mo_handler ops t2 tr m = mo_handler ops t1 tr m"
      using t2 replace_handler [OF _ c] new [OF that(2)] by (auto split: if_splits)
    with c0 replace_handler [OF t1 c0] new [OF that(2)] show ?thesis by simp
  qed
  then obtain t3 where "(if hl_node_compliant ext then install_hl_node_compliance ops t2 else Ok t2) = Ok t3"
    using install_ok_iff [of t2] assms(2) by (cases "hl_node_compliant ext") auto
  with t1 t2 assms(1) show ?thesis by (simp add: extend_rpc_modules_def url_def [symmetric])
qed

end

section \<open>A table of maps\<close>

text \<open>One map of names to handlers for each transport that is configured.\<close>

type_synonym module_table = "transport \<Rightarrow> (string \<rightharpoonup> rpc_handler) option"

definition taken :: "(string \<times> rpc_handler) list \<Rightarrow> module_table \<Rightarrow> bool" where
  "taken ms t \<longleftrightarrow> list_ex (\<lambda>tr. case t tr of None \<Rightarrow> False | Some f \<Rightarrow> list_ex (\<lambda>(m, _). f m \<noteq> None) ms) [Http, Ws, Ipc]"

definition table_ops :: "(module_table, unit) module_ops" where
  "table_ops = \<lparr>mo_configured = (\<lambda>t tr. t tr \<noteq> None),
     mo_handler = (\<lambda>t tr m. case t tr of None \<Rightarrow> None | Some f \<Rightarrow> f m),
     mo_replace_configured = (\<lambda>ms t. Ok (\<lambda>tr. map_option (\<lambda>f. f ++ map_of ms) (t tr))),
     mo_merge_configured = (\<lambda>ms t. if taken ms t then Err () else Ok (\<lambda>tr. map_option (\<lambda>f. f ++ map_of ms) (t tr))),
     mo_remove_method = (\<lambda>n t tr. map_option (\<lambda>f. f(n := None)) (t tr))\<rparr>"

lemma not_taken_iff:
  "\<not> taken ms t \<longleftrightarrow> (\<forall>tr f. t tr = Some f \<longrightarrow> (\<forall>m \<in> fst ` set ms. f m = None))"
proof -
  have all: "(\<forall>tr. P tr) \<longleftrightarrow> P Http \<and> P Ws \<and> P Ipc" for P :: "transport \<Rightarrow> bool"
    by (metis transport.exhaust)
  have "\<not> taken ms t \<longleftrightarrow> (\<forall>tr \<in> {Http, Ws, Ipc}. \<forall>f. t tr = Some f \<longrightarrow> (\<forall>m \<in> fst ` set ms. f m = None))"
    by (auto simp: taken_def list_ex_iff split: option.splits)
  then show ?thesis unfolding all by simp
qed

interpretation table: rpc_modules table_ops
proof
  show "(\<exists>t'. mo_merge_configured table_ops ms t = Ok t') \<longleftrightarrow>
      (\<forall>tr. mo_configured table_ops t tr \<longrightarrow> (\<forall>m \<in> set (map fst ms). mo_handler table_ops t tr m = None))" for ms t
  proof -
    have "(mo_configured table_ops t tr \<longrightarrow> (\<forall>m \<in> set (map fst ms). mo_handler table_ops t tr m = None)) \<longleftrightarrow>
        (\<forall>f. t tr = Some f \<longrightarrow> (\<forall>m \<in> fst ` set ms. f m = None))" for tr
      by (cases "t tr") (simp_all add: table_ops_def)
    moreover have "(\<exists>t'. mo_merge_configured table_ops ms t = Ok t') \<longleftrightarrow> \<not> taken ms t" by (simp add: table_ops_def)
    ultimately show ?thesis by (simp only: not_taken_iff)
  qed
qed (auto simp: table_ops_def map_add_def split: if_splits option.splits)

section \<open>Properties\<close>

text \<open>
  C13. The handler of every RPC method, for every choice of options. On every configured
  transport a method is served by the handler of the last group that names it: \<open>eth_getProof\<close>
  is gone unless it is asked for, the compliance handlers are there exactly with
  \<open>--hl-node-compliant\<close>, \<open>eth_call\<close> and \<open>eth_estimateGas\<close> are forwarded exactly with
  \<open>--forward-call\<close>, \<open>eth_sendRawTransaction\<close> is always forwarded, and everything else is
  reth's. The installation succeeds whenever the forwarders' client can be built and no
  module already has the methods for system transactions.
\<close>

theorem rpc_table:
  assumes "rpc_modules ops" "builds (case upstream_rpc_url ext of None \<Rightarrow> def | Some u \<Rightarrow> u)"
    and "\<forall>tr. mo_configured ops t tr \<longrightarrow>
      (\<forall>m \<in> set (map fst system_transaction_methods). mo_handler ops t tr m = None)"
  shows "\<exists>t'. extend_rpc_modules ops builds ext def t = Returns (Ok t') \<and>
    (\<forall>tr m. mo_configured ops t tr \<longrightarrow> mo_handler ops t' tr m =
      served_by ext (case upstream_rpc_url ext of None \<Rightarrow> def | Some u \<Rightarrow> u) (mo_handler ops t tr) m) \<and>
    (\<forall>tr. mo_configured ops t tr \<longrightarrow> mo_handler ops t' tr ''eth_sendRawTransaction'' =
      Some (EthForwarder (case upstream_rpc_url ext of None \<Rightarrow> def | Some u \<Rightarrow> u) ''sendRawTransaction''))"
proof -
  obtain t' where t': "extend_rpc_modules ops builds ext def t = Returns (Ok t')"
    using rpc_modules.extend_succeeds [where builds = builds and ext = ext and def = def, OF assms(1,2)] assms(3) by blast
  note handler = rpc_modules.extend_handler [OF assms(1) t']
  have "served_by ext url before ''eth_sendRawTransaction'' = Some (EthForwarder url ''sendRawTransaction'')" for url before
    by (simp add: served_by_def compliance_methods_def method_lists)
  with t' handler show ?thesis by (intro exI [of _ t']) simp
qed

text \<open>
  The forwarder's answers to \<open>eth_sendTransaction\<close> and \<open>eth_sendRawTransactionSync\<close> are
  never used under these names: the names in the trait carry the prefix \<open>eth_\<close> a second
  time, so that the standard methods keep the handler they had, whatever the options.
\<close>

theorem forwarder_misnamed:
  assumes "rpc_modules ops" "mo_configured ops t tr"
    and "extend_rpc_modules ops builds ext def t = Returns (Ok t')"
    and "m \<in> {''eth_sendTransaction'', ''eth_sendRawTransactionSync''}"
  shows "mo_handler ops t' tr m = mo_handler ops t tr m \<and>
    (\<exists>url n. mo_handler ops t' tr (''eth_'' @ m) = Some (EthForwarder url n))"
proof -
  consider "m = ''eth_sendTransaction''" | "m = ''eth_sendRawTransactionSync''" using assms(4) by blast
  then have "served_by ext url before m = before m \<and>
      (\<exists>n. served_by ext url before (''eth_'' @ m) = Some (EthForwarder url n))" for url before
    by cases (simp_all add: served_by_def compliance_methods_def method_lists)
  then show ?thesis using rpc_modules.extend_handler [OF assms(1,3,2)] by metis
qed

section \<open>An example\<close>

definition example_modules :: module_table where
  "example_modules = (\<lambda>tr. if tr = Ipc then None else Some
     [''eth_getProof'' \<mapsto> RethHandler ''getProof'', ''eth_getLogs'' \<mapsto> RethHandler ''getLogs'',
      ''eth_call'' \<mapsto> RethHandler ''call'', ''eth_sendTransaction'' \<mapsto> RethHandler ''sendTransaction''])"

definition example_ext :: rpc_args where
  "example_ext = \<lparr>upstream_rpc_url = None, hl_node_compliant = True, forward_call_arg = False, experimental_eth_get_proof = False\<rparr>"

lemma example_modules_configured [simp]: "mo_configured table_ops example_modules Http"
  by (simp add: table_ops_def example_modules_def)

lemma example_modules_free:
  "\<forall>tr. mo_configured table_ops example_modules tr \<longrightarrow>
     (\<forall>m \<in> set (map fst system_transaction_methods). mo_handler table_ops example_modules tr m = None)"
  by (simp add: table_ops_def example_modules_def method_lists)

theorem rpc_table_witness:
  "\<exists>t'. extend_rpc_modules table_ops (\<lambda>_. True) example_ext ''url'' example_modules = Returns (Ok t') \<and>
     mo_handler table_ops t' Http ''eth_getProof'' = None \<and>
     mo_handler table_ops t' Http ''eth_getLogs'' = Some (FilterHttp ''getLogs'') \<and>
     mo_handler table_ops t' Http ''eth_call'' = Some (RethHandler ''call'') \<and>
     mo_handler table_ops t' Http ''eth_sendRawTransaction'' = Some (EthForwarder ''url'' ''sendRawTransaction'')"
proof -
  from rpc_table [where builds = "\<lambda>_. True" and ext = example_ext and def = "''url''", OF table.rpc_modules_axioms _ example_modules_free]
  obtain t' where t': "extend_rpc_modules table_ops (\<lambda>_. True) example_ext ''url'' example_modules = Returns (Ok t')"
    and handler: "\<And>m. mo_handler table_ops t' Http m = served_by example_ext ''url'' (mo_handler table_ops example_modules Http) m"
    by (auto simp: example_ext_def)
  show ?thesis
    by (intro exI [of _ t'] conjI t'; simp only: handler)
      (simp_all add: served_by_def example_ext_def compliance_methods_def method_lists table_ops_def example_modules_def)
qed

theorem forwarder_misnamed_witness:
  "\<exists>t'. extend_rpc_modules table_ops (\<lambda>_. True) example_ext ''url'' example_modules = Returns (Ok t') \<and>
     mo_handler table_ops t' Http ''eth_sendTransaction'' = Some (RethHandler ''sendTransaction'')"
proof -
  obtain t' where t': "extend_rpc_modules table_ops (\<lambda>_. True) example_ext ''url'' example_modules = Returns (Ok t')"
    using table.extend_succeeds [where builds = "\<lambda>_. True" and ext = example_ext and def = "''url''" and t = example_modules]
      example_modules_free by blast
  have "mo_handler table_ops t' Http ''eth_sendTransaction'' = mo_handler table_ops example_modules Http ''eth_sendTransaction''"
    using forwarder_misnamed [OF table.rpc_modules_axioms example_modules_configured t', of "''eth_sendTransaction''"] by simp
  with t' show ?thesis by (simp add: table_ops_def example_modules_def)
qed

end
