(* ===== verification/Node_Launch.thy ===== *)
theory Node_Launch
  imports Node_Network Rpc_Modules
begin

text \<open>
  The program's entry (\<open>src/src/main.rs\<close>) and its command line (\<open>src/src/node/cli.rs\<close>): which
  command is dispatched to which of reth's commands, what is done before it, and what the
  \<open>node\<close> command does to start the node.

  Reth's commands, its tracing and its databases are parameters; the dispatcher's calls are recorded
  in the order they are made.
\<close>

section \<open>Starting the node\<close>




section \<open>The command line\<close>

datatype hl_command =
    CmdNode | CmdInit | CmdInitState | CmdDumpGenesis | CmdDb | CmdStage | CmdConfig | CmdRecover | CmdPrune | CmdImport
  | CmdP2P | CmdImportEra | CmdDownload | CmdExportEra | CmdReExecute | CmdTestVectors

datatype runner = UntilExit | BlockingUntilCtrlC | UntilCtrlC

datatype cli_call =
    InitTracing string
  | InitDb string
  | InitDbFor string
  | Execute runner hl_command

text \<open>What reth's parts answer, and the data directory and chain of the command.\<close>

record 'e cli_env =
  cl_runtime :: "(unit, 'e) result"
  cl_chain :: "string option"
  cl_log_directory :: string
  cl_db_path :: string
  cl_init_tracing :: "string \<Rightarrow> (unit, 'e) result"
  cl_init_db :: "string \<Rightarrow> (unit, 'e) result"
  cl_init_db_for :: "string \<Rightarrow> (unit, 'e) result"
  cl_execute :: "runner \<Rightarrow> hl_command \<Rightarrow> (unit, 'e) result"

text \<open>A step that is recorded; an error ends the sequence (\<open>?\<close>).\<close>

definition then_call ::
  "cli_call list \<times> (unit, 'e) result \<Rightarrow> cli_call \<Rightarrow> (unit, 'e) result \<Rightarrow> cli_call list \<times> (unit, 'e) result" where
  "then_call st c r = (case st of (cs, Err e) \<Rightarrow> (cs, Err e) | (cs, Ok _) \<Rightarrow> (cs @ [c], r))"

definition init_db_calls ::
  "'e cli_env \<Rightarrow> cli_call list \<times> (unit, 'e) result \<Rightarrow> cli_call list \<times> (unit, 'e) result" where
  "init_db_calls env st =
     then_call (then_call st (InitDb (cl_db_path env)) (cl_init_db env (cl_db_path env)))
       (InitDbFor (cl_db_path env)) (cl_init_db_for env (cl_db_path env))"

definition execute_with ::
  "'e cli_env \<Rightarrow> runner \<Rightarrow> hl_command \<Rightarrow> cli_call list \<times> (unit, 'e) result \<Rightarrow> cli_call list \<times> (unit, 'e) result" where
  "execute_with env r cmd st = then_call st (Execute r cmd) (cl_execute env r cmd)"

definition log_file_directory :: "'e cli_env \<Rightarrow> string" where
  "log_file_directory env =
     (case cl_chain env of None \<Rightarrow> cl_log_directory env | Some chain \<Rightarrow> path_join (cl_log_directory env) chain)"

text \<open>The calls that were made, and what the program returns after them: a result, or a panic.\<close>

definition returned :: "cli_call list \<times> (unit, 'e) result \<Rightarrow> cli_call list \<times> (unit, 'e) result run" where
  "returned st = (fst st, Returns (snd st))"

definition with_runner :: "'e cli_env \<Rightarrow> hl_command \<Rightarrow> cli_call list \<times> (unit, 'e) result run" where
  "with_runner env cmd =
     (let dir = log_file_directory env; st = ([InitTracing dir], cl_init_tracing env dir)
      in case snd st of Err _ \<Rightarrow> returned st
      | Ok _ \<Rightarrow> (case cmd of
          CmdNode \<Rightarrow> returned (execute_with env UntilExit cmd st)
        | CmdInit \<Rightarrow> returned (execute_with env BlockingUntilCtrlC cmd st)
        | CmdInitState \<Rightarrow> returned (execute_with env BlockingUntilCtrlC cmd (init_db_calls env st))
        | CmdDumpGenesis \<Rightarrow> returned (execute_with env BlockingUntilCtrlC cmd st)
        | CmdDb \<Rightarrow> returned (execute_with env BlockingUntilCtrlC cmd st)
        | CmdStage \<Rightarrow> returned (execute_with env UntilExit cmd st)
        | CmdConfig \<Rightarrow> returned (execute_with env UntilCtrlC cmd st)
        | CmdRecover \<Rightarrow> returned (execute_with env UntilExit cmd st)
        | CmdPrune \<Rightarrow> returned (execute_with env UntilCtrlC cmd st)
        | CmdImport \<Rightarrow> returned (execute_with env BlockingUntilCtrlC cmd st)
        | _ \<Rightarrow> (fst st, Panics)))"

definition cli_run :: "'e cli_env \<Rightarrow> hl_command \<Rightarrow> cli_call list \<times> (unit, 'e) result run" where
  "cli_run env cmd = (case cl_runtime env of Err e \<Rightarrow> ([], Returns (Err e)) | Ok _ \<Rightarrow> with_runner env cmd)"

section \<open>Lemmas\<close>

lemma then_call_simps [simp]:
  "then_call (cs, Ok u) c r = (cs @ [c], r)" "then_call (cs, Err e) c r = (cs, Err e)"
  by (simp_all add: then_call_def)

definition not_applicable :: "hl_command \<Rightarrow> bool" where
  "not_applicable cmd \<longleftrightarrow> cmd \<in> {CmdP2P, CmdImportEra, CmdDownload, CmdExportEra, CmdReExecute, CmdTestVectors}"

lemma returned_simps [simp]: "fst (returned st) = fst st" "snd (returned st) = Returns (snd st)"
  by (simp_all add: returned_def)


section \<open>Properties\<close>

text \<open>
  The dispatcher. A command that does not apply to this chain panics after tracing is set up
  and before anything else is called. Every other command is executed at most once, after
  everything else, and its result is the result of the program; the import of a state is
  executed only after the database and the node's own tables were created at the same
  path, and not at all if one of them failed.
\<close>

theorem cli_dispatch:
  assumes "cl_runtime env = Ok ()" "cl_init_tracing env (log_file_directory env) = Ok ()"
  shows "if not_applicable cmd then cli_run env cmd = ([InitTracing (log_file_directory env)], Panics)
    else \<exists>calls r. cli_run env cmd = (calls, Returns r) \<and>
      (\<forall>rn cmd'. Execute rn cmd' \<in> set calls \<longrightarrow> cmd' = cmd \<and> last calls = Execute rn cmd \<and>
        Execute rn cmd \<notin> set (butlast calls) \<and> r = cl_execute env rn cmd \<and>
        (cmd = CmdInitState \<longrightarrow> cl_init_db env (cl_db_path env) = Ok () \<and> cl_init_db_for env (cl_db_path env) = Ok () \<and>
          butlast calls = [InitTracing (log_file_directory env), InitDb (cl_db_path env), InitDbFor (cl_db_path env)])) \<and>
      (cmd \<noteq> CmdInitState \<longrightarrow> (\<exists>rn. Execute rn cmd \<in> set calls))"
proof (cases "cmd = CmdInitState")
  case True
  show ?thesis
  proof (cases "cl_init_db env (cl_db_path env)")
    case (Inl e)
    with assms True show ?thesis
      by (simp add: cli_run_def with_runner_def Let_def execute_with_def init_db_calls_def not_applicable_def returned_def)
  next
    case (Inr u)
    with assms True show ?thesis
      by (cases "cl_init_db_for env (cl_db_path env)")
        (simp_all add: cli_run_def with_runner_def Let_def execute_with_def init_db_calls_def not_applicable_def returned_def)
  qed
next
  case False
  with assms show ?thesis
    by (cases cmd) (simp_all add: cli_run_def with_runner_def Let_def execute_with_def not_applicable_def returned_def)
qed


section \<open>An example\<close>

definition example_cli_env :: "unit cli_env" where
  "example_cli_env = \<lparr>cl_runtime = Ok (), cl_chain = Some ''hyperliquid'', cl_log_directory = ''/logs'', cl_db_path = ''/db'',
     cl_init_tracing = (\<lambda>_. Ok ()), cl_init_db = (\<lambda>_. Ok ()), cl_init_db_for = (\<lambda>_. Err ()), cl_execute = (\<lambda>_ _. Ok ())\<rparr>"

text \<open>The node's tables cannot be created, so that no state is imported.\<close>

theorem cli_dispatch_witness:
  "\<exists>calls r. cli_run example_cli_env CmdInitState = (calls, Returns r) \<and> (\<forall>rn cmd. Execute rn cmd \<notin> set calls)"
proof -
  have "cl_runtime example_cli_env = Ok ()" "cl_init_tracing example_cli_env (log_file_directory example_cli_env) = Ok ()"
    and failed: "cl_init_db_for example_cli_env p \<noteq> Ok ()" for p
    by (simp_all add: example_cli_env_def)
  from cli_dispatch [OF this(1,2), of CmdInitState] failed show ?thesis by (auto simp: not_applicable_def)
qed




end
