(* ===== verification/Wire.thy ===== *)
theory Wire
  imports Block_Import
begin

text \<open>
  Wire formats (\<open>src/src/node/primitives/mod.rs\<close>, modules \<open>rlp\<close> and \<open>serde_bincode_compat\<close>;
  \<open>src/src/node/network/mod.rs\<close>, module \<open>rlp\<close>; \<open>ReadPrecompileCalls\<close> in
  \<open>src/src/node/types/mod.rs\<close>). A block, a block body and a new-block message are encoded
  through helper structs that list their fields in a fixed order. The codecs of the helpers
  are derived by \<open>alloy_rlp\<close> and are arguments, and so are the MessagePack codec and the
  bincode representations of alloy's own types.
\<close>

section \<open>Codecs\<close>

text \<open>A decoder consumes the front of its input; a length is computed without encoding.\<close>

record 'a codec =
  enc :: "'a \<Rightarrow> bytes"
  dec :: "bytes \<Rightarrow> ('a \<times> bytes) option"
  len :: "'a \<Rightarrow> nat"

text \<open>
  The law of a codec on the values it can represent: decoding an encoded value returns it and
  the rest.
\<close>

locale lawful_codec =
  fixes c :: "'a codec" and S :: "'a set"
  assumes dec_enc: "x \<in> S \<Longrightarrow> dec c (enc c x @ rest) = Some (x, rest)"
    and len_enc: "x \<in> S \<Longrightarrow> len c x = length (enc c x)"
begin

lemma enc_inject: "x \<in> S \<Longrightarrow> y \<in> S \<Longrightarrow> enc c x = enc c y \<longleftrightarrow> x = y"
  using dec_enc [of x "[]"] dec_enc [of y "[]"] by (metis fst_conv option.inject)

end

text \<open>A codec of one type carried over to another.\<close>

definition via_codec :: "('b \<Rightarrow> 'a) \<Rightarrow> ('a \<Rightarrow> 'b) \<Rightarrow> 'a codec \<Rightarrow> 'b codec" where
  "via_codec to from c =
     \<lparr>enc = (\<lambda>x. enc c (to x)), dec = (\<lambda>buf. map_option (\<lambda>(h, rest). (from h, rest)) (dec c buf)),
      len = (\<lambda>x. len c (to x))\<rparr>"

lemma via_codec_lawful:
  assumes "lawful_codec c S" "\<And>x. from (to x) = x"
  shows "lawful_codec (via_codec to from c) {x. to x \<in> S}"
  using assms by (simp add: lawful_codec_def via_codec_def)

section \<open>Precompile calls\<close>

text \<open>
  The calls travel as a byte string that holds their MessagePack encoding; \<open>to_vec\<close> may fail
  (the code unwraps), and so may \<open>from_slice\<close>.
\<close>

definition encode_calls ::
  "bytes codec \<Rightarrow> (read_precompile_call list \<Rightarrow> bytes option) \<Rightarrow> read_precompile_calls \<Rightarrow> bytes run" where
  "encode_calls bytes_codec to_vec calls =
     run_bind (unwrap (to_vec (calls_of calls))) (\<lambda>buf. Returns (enc bytes_codec buf))"

definition decode_calls ::
  "bytes codec \<Rightarrow> (bytes \<Rightarrow> read_precompile_call list option) \<Rightarrow> bytes \<Rightarrow> (read_precompile_calls \<times> bytes) option" where
  "decode_calls bytes_codec from_slice buf =
     (case dec bytes_codec buf of None \<Rightarrow> None
      | Some (bytes, rest) \<Rightarrow>
          (case from_slice bytes of None \<Rightarrow> None | Some calls \<Rightarrow> Some (ReadPrecompileCalls calls, rest)))"

section \<open>Bodies and blocks\<close>

record block_body_helper =
  bbh_transactions :: "transaction_signed list"
  bbh_ommers :: "header list"
  bbh_withdrawals :: "withdrawal list option"
  bbh_sidecars :: "sidecar list option"
  bbh_read_precompile_calls :: "read_precompile_calls option"
  bbh_highest_precompile_address :: "address option"

record block_helper =
  bh_header :: header
  bh_transactions :: "transaction_signed list"
  bh_ommers :: "header list"
  bh_withdrawals :: "withdrawal list option"
  bh_sidecars :: "sidecar list option"
  bh_read_precompile_calls :: "read_precompile_calls option"
  bh_highest_precompile_address :: "address option"

definition body_helper_from :: "hl_block_body \<Rightarrow> block_body_helper" where
  "body_helper_from v =
     \<lparr>bbh_transactions = transactions (body_inner v), bbh_ommers = ommers (body_inner v),
      bbh_withdrawals = withdrawals (body_inner v), bbh_sidecars = sidecars v,
      bbh_read_precompile_calls = read_precompile_calls v,
      bbh_highest_precompile_address = highest_precompile_address v\<rparr>"

definition block_helper_from :: "hl_block \<Rightarrow> block_helper" where
  "block_helper_from v =
     \<lparr>bh_header = block_header v, bh_transactions = transactions (body_inner (block_body v)),
      bh_ommers = ommers (body_inner (block_body v)), bh_withdrawals = withdrawals (body_inner (block_body v)),
      bh_sidecars = sidecars (block_body v),
      bh_read_precompile_calls = read_precompile_calls (block_body v),
      bh_highest_precompile_address = highest_precompile_address (block_body v)\<rparr>"

definition body_of_helper :: "block_body_helper \<Rightarrow> hl_block_body" where
  "body_of_helper h =
     \<lparr>body_inner = \<lparr>transactions = bbh_transactions h, ommers = bbh_ommers h, withdrawals = bbh_withdrawals h\<rparr>,
      sidecars = bbh_sidecars h, read_precompile_calls = bbh_read_precompile_calls h,
      highest_precompile_address = bbh_highest_precompile_address h\<rparr>"

definition block_of_helper :: "block_helper \<Rightarrow> hl_block" where
  "block_of_helper h =
     \<lparr>block_header = bh_header h,
      block_body = \<lparr>body_inner = \<lparr>transactions = bh_transactions h, ommers = bh_ommers h, withdrawals = bh_withdrawals h\<rparr>,
        sidecars = bh_sidecars h, read_precompile_calls = bh_read_precompile_calls h,
        highest_precompile_address = bh_highest_precompile_address h\<rparr>\<rparr>"

definition hl_block_body_codec :: "block_body_helper codec \<Rightarrow> hl_block_body codec" where
  "hl_block_body_codec c = via_codec body_helper_from body_of_helper c"

definition hl_block_codec :: "block_helper codec \<Rightarrow> hl_block codec" where
  "hl_block_codec c = via_codec block_helper_from block_of_helper c"

definition rlp_length :: "block_helper codec \<Rightarrow> header \<Rightarrow> hl_block_body \<Rightarrow> nat" where
  "rlp_length c header body =
     len c \<lparr>bh_header = header, bh_transactions = transactions (body_inner body), bh_ommers = ommers (body_inner body),
            bh_withdrawals = withdrawals (body_inner body), bh_sidecars = sidecars body,
            bh_read_precompile_calls = read_precompile_calls body,
            bh_highest_precompile_address = highest_precompile_address body\<rparr>"

text \<open>The transactions root leaves system transactions out.\<close>

definition calculate_tx_root :: "(transaction_signed list \<Rightarrow> b256) \<Rightarrow> hl_block_body \<Rightarrow> b256" where
  "calculate_tx_root calculate_transaction_root body =
     calculate_transaction_root (filter (\<lambda>tx. \<not> is_system_transaction tx) (transactions (body_inner body)))"

section \<open>New-block messages\<close>

text \<open>The message has the plain block inside and the fields of HyperEVM behind the total difficulty.\<close>

record plain_block_helper =
  ph_header :: header
  ph_transactions :: "transaction_signed list"
  ph_ommers :: "header list"
  ph_withdrawals :: "withdrawal list option"

record new_block_helper =
  nbh_block :: plain_block_helper
  nbh_td :: u128
  nbh_sidecars :: "sidecar list option"
  nbh_read_precompile_calls :: "read_precompile_calls option"
  nbh_highest_precompile_address :: "address option"

definition new_block_helper_from :: "hl_new_block \<Rightarrow> new_block_helper" where
  "new_block_helper_from v = (case v of HlNewBlock n \<Rightarrow>
     let b = nb_block n in
     \<lparr>nbh_block = \<lparr>ph_header = block_header b, ph_transactions = transactions (body_inner (block_body b)),
        ph_ommers = ommers (body_inner (block_body b)), ph_withdrawals = withdrawals (body_inner (block_body b))\<rparr>,
      nbh_td = nb_td n, nbh_sidecars = sidecars (block_body b),
      nbh_read_precompile_calls = read_precompile_calls (block_body b),
      nbh_highest_precompile_address = highest_precompile_address (block_body b)\<rparr>)"

definition new_block_of_helper :: "new_block_helper \<Rightarrow> hl_new_block" where
  "new_block_of_helper h = HlNewBlock
     \<lparr>nb_block = \<lparr>block_header = ph_header (nbh_block h),
        block_body = \<lparr>body_inner = \<lparr>transactions = ph_transactions (nbh_block h), ommers = ph_ommers (nbh_block h),
            withdrawals = ph_withdrawals (nbh_block h)\<rparr>,
          sidecars = nbh_sidecars h, read_precompile_calls = nbh_read_precompile_calls h,
          highest_precompile_address = nbh_highest_precompile_address h\<rparr>\<rparr>,
      nb_td = nbh_td h\<rparr>"

definition hl_new_block_codec :: "new_block_helper codec \<Rightarrow> hl_new_block codec" where
  "hl_new_block_codec c = via_codec new_block_helper_from new_block_of_helper c"

section \<open>Bincode\<close>

text \<open>\<open>'ib\<close> and \<open>'ih\<close>: the representations of alloy's body and header.\<close>

record 'ib hl_block_body_bincode =
  bb_inner :: 'ib
  bb_sidecars :: "sidecar list option"
  bb_read_precompile_calls :: "read_precompile_calls option"
  bb_highest_precompile_address :: "address option"

record ('ih, 'ib) hl_block_bincode =
  bc_header :: 'ih
  bc_body :: "'ib hl_block_body_bincode"

definition body_as_repr :: "(transaction_signed block_body \<Rightarrow> 'ib) \<Rightarrow> hl_block_body \<Rightarrow> 'ib hl_block_body_bincode" where
  "body_as_repr inner_as v =
     \<lparr>bb_inner = inner_as (body_inner v), bb_sidecars = sidecars v,
      bb_read_precompile_calls = read_precompile_calls v,
      bb_highest_precompile_address = highest_precompile_address v\<rparr>"

definition body_from_repr :: "('ib \<Rightarrow> transaction_signed block_body) \<Rightarrow> 'ib hl_block_body_bincode \<Rightarrow> hl_block_body" where
  "body_from_repr inner_from r =
     \<lparr>body_inner = inner_from (bb_inner r), sidecars = bb_sidecars r,
      read_precompile_calls = bb_read_precompile_calls r,
      highest_precompile_address = bb_highest_precompile_address r\<rparr>"

definition block_as_repr ::
  "(header \<Rightarrow> 'ih) \<Rightarrow> (transaction_signed block_body \<Rightarrow> 'ib) \<Rightarrow> hl_block \<Rightarrow> ('ih, 'ib) hl_block_bincode" where
  "block_as_repr header_as inner_as v =
     \<lparr>bc_header = header_as (block_header v), bc_body = body_as_repr inner_as (block_body v)\<rparr>"

definition block_from_repr ::
  "('ih \<Rightarrow> header) \<Rightarrow> ('ib \<Rightarrow> transaction_signed block_body) \<Rightarrow> ('ih, 'ib) hl_block_bincode \<Rightarrow> hl_block" where
  "block_from_repr header_from inner_from r =
     \<lparr>block_header = header_from (bc_header r), block_body = body_from_repr inner_from (bc_body r)\<rparr>"

section \<open>Lemmas\<close>

lemma body_of_helper_from: "body_of_helper (body_helper_from b) = b"
  by (simp add: body_of_helper_def body_helper_from_def)

lemma block_of_helper_from: "block_of_helper (block_helper_from b) = b"
  by (simp add: block_of_helper_def block_helper_from_def)

lemma new_block_of_helper_from: "new_block_of_helper (new_block_helper_from b) = b"
  by (cases b) (simp add: new_block_of_helper_def new_block_helper_from_def Let_def)

lemma hl_block_body_lawful:
  "lawful_codec c S \<Longrightarrow> lawful_codec (hl_block_body_codec c) {b. body_helper_from b \<in> S}"
  unfolding hl_block_body_codec_def by (rule via_codec_lawful) (simp_all add: body_of_helper_from)

lemma hl_block_lawful:
  "lawful_codec c S \<Longrightarrow> lawful_codec (hl_block_codec c) {b. block_helper_from b \<in> S}"
  unfolding hl_block_codec_def by (rule via_codec_lawful) (simp_all add: block_of_helper_from)

lemma hl_new_block_lawful:
  "lawful_codec c S \<Longrightarrow> lawful_codec (hl_new_block_codec c) {b. new_block_helper_from b \<in> S}"
  unfolding hl_new_block_codec_def by (rule via_codec_lawful) (simp_all add: new_block_of_helper_from)

section \<open>Properties\<close>

text \<open>
  The wire formats keep everything. If the derived codecs of the helper structs are lawful,
  then a body, a block and a new-block message decode to what was encoded, whatever follows in
  the buffer, no two messages have the same encoding, and the length computed for a header and
  a body is the length of the encoded block.
\<close>

theorem wire_roundtrip:
  assumes "lawful_codec body_codec S1" "body_helper_from body \<in> S1"
    and "lawful_codec block_codec S2" "block_helper_from block \<in> S2"
    and "lawful_codec message_codec S3" "new_block_helper_from msg \<in> S3" "new_block_helper_from msg' \<in> S3"
  shows "dec (hl_block_body_codec body_codec) (enc (hl_block_body_codec body_codec) body @ rest) = Some (body, rest) \<and>
    dec (hl_block_codec block_codec) (enc (hl_block_codec block_codec) block @ rest) = Some (block, rest) \<and>
    dec (hl_new_block_codec message_codec) (enc (hl_new_block_codec message_codec) msg @ rest) = Some (msg, rest) \<and>
    (enc (hl_new_block_codec message_codec) msg = enc (hl_new_block_codec message_codec) msg' \<longleftrightarrow> msg = msg') \<and>
    rlp_length block_codec (block_header block) (block_body block) =
      length (enc (hl_block_codec block_codec) block)"
proof -
  have "rlp_length block_codec (block_header block) (block_body block) = len (hl_block_codec block_codec) block"
    by (simp add: rlp_length_def hl_block_codec_def via_codec_def block_helper_from_def)
  then show ?thesis
    using assms(2,4,6,7) lawful_codec.dec_enc [OF hl_block_body_lawful [OF assms(1)]]
      lawful_codec.dec_enc [OF hl_block_lawful [OF assms(3)]] lawful_codec.len_enc [OF hl_block_lawful [OF assms(3)]]
      lawful_codec.dec_enc [OF hl_new_block_lawful [OF assms(5)]]
      lawful_codec.enc_inject [OF hl_new_block_lawful [OF assms(5)]]
    by simp
qed

text \<open>The precompile calls of a block survive their byte string.\<close>

lemma calls_roundtrip:
  assumes "lawful_codec bytes_codec UNIV" "\<And>cs v. to_vec cs = Some v \<Longrightarrow> from_slice v = Some cs"
    and "encode_calls bytes_codec to_vec calls = Returns buf"
  shows "decode_calls bytes_codec from_slice (buf @ rest) = Some (calls, rest)"
proof -
  from assms(3) obtain v where "to_vec (calls_of calls) = Some v" "buf = enc bytes_codec v"
    by (auto simp: encode_calls_def unwrap_def split: option.splits)
  with assms(2) lawful_codec.dec_enc [OF assms(1)] show ?thesis
    by (cases calls) (auto simp: decode_calls_def)
qed

lemma bincode_roundtrip:
  assumes "\<And>h. header_from (header_as h) = h" "\<And>b. inner_from (inner_as b) = b"
  shows "block_from_repr header_from inner_from (block_as_repr header_as inner_as b) = b"
  by (simp add: block_from_repr_def block_as_repr_def body_from_repr_def body_as_repr_def assms)

section \<open>An example\<close>

text \<open>A codec that represents one value, by the empty list.\<close>

definition point_codec :: "'a \<Rightarrow> 'a codec" where
  "point_codec x = \<lparr>enc = (\<lambda>_. [0xC0]),
     dec = (\<lambda>buf. case buf of [] \<Rightarrow> None | b # rest \<Rightarrow> if b = 0xC0 then Some (x, rest) else None), len = (\<lambda>_. 1)\<rparr>"

interpretation point: lawful_codec "point_codec x" "{x}" for x
  by unfold_locales (simp_all add: point_codec_def)

definition announced_block :: hl_block where
  "announced_block = msg_hl_block example_msg"

interpretation example_block_codec:
  lawful_codec "hl_block_codec (point_codec (block_helper_from announced_block))"
    "{b. block_helper_from b \<in> {block_helper_from announced_block}}"
  by (rule hl_block_lawful) (rule point.lawful_codec_axioms)

theorem wire_roundtrip_witness:
  "let block_codec = point_codec (block_helper_from announced_block);
       message_codec = point_codec (new_block_helper_from (msg_block example_msg))
   in dec (hl_block_codec block_codec) (enc (hl_block_codec block_codec) announced_block @ [1]) = Some (announced_block, [1]) \<and>
      dec (hl_new_block_codec message_codec) (enc (hl_new_block_codec message_codec) (msg_block example_msg) @ [1]) =
        Some (msg_block example_msg, [1]) \<and>
      rlp_length block_codec (block_header announced_block) (block_body announced_block) =
        length (enc (hl_block_codec block_codec) announced_block)"
  using wire_roundtrip [OF point.lawful_codec_axioms insertI1 point.lawful_codec_axioms insertI1
      point.lawful_codec_axioms insertI1 singletonI, where body = "block_body announced_block" and block = announced_block
      and msg = "msg_block example_msg" and rest = "[1]"]
  by (simp add: Let_def)

end
