(* ===== verification/Tx_Wrapper.thy ===== *)
theory Tx_Wrapper
  imports Wire Evm_Api
begin

text \<open>
  The transaction type of the node as a wrapper (\<open>src/src/node/primitives/tx_wrapper.rs\<close>
  from line 72) and the transaction environment of its EVM
  (\<open>src/src/evm/transaction.rs\<close>). Almost everything is passed on to the wrapped type of
  alloy or revm; the wrapped type's own functions are parameters. What is the node's own
  is the signer of a system transaction, and that is also where the wrapper
  differs from what it wraps.
\<close>

section \<open>Wrapping and unwrapping\<close>

definition tx_hash :: "(inner_tx \<Rightarrow> b256) \<Rightarrow> transaction_signed \<Rightarrow> b256" where
  "tx_hash inner_tx_hash tx = inner_tx_hash (into_inner tx)"

definition tx_size :: "(inner_tx \<Rightarrow> nat) \<Rightarrow> transaction_signed \<Rightarrow> nat" where
  "tx_size inner_size tx = inner_size (into_inner tx)"

definition envelope_signature :: "transaction_signed \<Rightarrow> signature" where
  "envelope_signature tx = inner_signature (into_inner tx)"

definition envelope_tx_type :: "transaction_signed \<Rightarrow> tx_type" where
  "envelope_tx_type tx = inner_tx_type (into_inner tx)"

text \<open>\<open>Signed<TypedTransaction>\<close> into the envelope (alloy's \<open>into\<close>), and \<open>impl_from_signed!\<close>.\<close>

definition envelope_of :: "transaction \<Rightarrow> signature \<Rightarrow> inner_tx" where
  "envelope_of t g = (case t of Legacy b \<Rightarrow> InnerLegacy (Signed b g) | Eip2930 b \<Rightarrow> InnerEip2930 (Signed b g)
     | Eip1559 b \<Rightarrow> InnerEip1559 (Signed b g) | Eip4844 b \<Rightarrow> InnerEip4844 (Signed b g)
     | Eip7702 b \<Rightarrow> InnerEip7702 (Signed b g))"

fun into_typed_transaction :: "inner_tx \<Rightarrow> transaction" where
  "into_typed_transaction (InnerLegacy (Signed b _)) = Legacy b"
| "into_typed_transaction (InnerEip2930 (Signed b _)) = Eip2930 b"
| "into_typed_transaction (InnerEip1559 (Signed b _)) = Eip1559 b"
| "into_typed_transaction (InnerEip4844 (Signed b _)) = Eip4844 b"
| "into_typed_transaction (InnerEip7702 (Signed b _)) = Eip7702 b"

definition from_signed :: "transaction \<Rightarrow> signature \<Rightarrow> transaction_signed" where
  "from_signed t g = Default (envelope_of t g)"

definition try_from_pooled :: "(inner_tx \<Rightarrow> ('p, 'e) result) \<Rightarrow> transaction_signed \<Rightarrow> ('p, 'e) result" where
  "try_from_pooled inner_try_into tx = inner_try_into (into_inner tx)"

definition from_pooled :: "('p \<Rightarrow> inner_tx) \<Rightarrow> 'p \<Rightarrow> transaction_signed" where
  "from_pooled pooled_into p = Default (pooled_into p)"

section \<open>Encodings\<close>

definition tx_compact_codec :: "inner_tx codec \<Rightarrow> transaction_signed codec" where
  "tx_compact_codec c = via_codec into_inner Default c"

definition from_tx_compact ::
  "(bytes \<Rightarrow> tx_type \<Rightarrow> signature \<Rightarrow> inner_tx \<times> bytes) \<Rightarrow> bytes \<Rightarrow> tx_type \<Rightarrow> signature \<Rightarrow> transaction_signed \<times> bytes" where
  "from_tx_compact inner_from_tx_compact buf ty g =
     (let (tx, buf) = inner_from_tx_compact buf ty g in (Default tx, buf))"

datatype bincode_tx = BincodeCompatTxCustom transaction_signed

definition tx_as_repr :: "transaction_signed \<Rightarrow> bincode_tx" where
  "tx_as_repr tx = BincodeCompatTxCustom tx"

definition tx_from_repr :: "bincode_tx \<Rightarrow> transaction_signed" where
  "tx_from_repr repr = (case repr of BincodeCompatTxCustom tx \<Rightarrow> tx)"

definition tx_compress_to_buf :: "(inner_tx \<Rightarrow> bytes) \<Rightarrow> transaction_signed \<Rightarrow> bytes \<Rightarrow> bytes" where
  "tx_compress_to_buf inner_compress tx buf = buf @ inner_compress (into_inner tx)"

definition tx_decompress :: "(bytes \<Rightarrow> (inner_tx, 'e) result) \<Rightarrow> bytes \<Rightarrow> (transaction_signed, 'e) result" where
  "tx_decompress inner_decompress value = res_bind (inner_decompress value) (\<lambda>tx. Ok (Default tx))"

section \<open>RPC requests\<close>

text \<open>A transaction to simulate: the request's own transaction with an empty signature.\<close>

datatype 'req value_error = RequiredFieldsMissing 'req

definition try_into_sim_tx ::
  "('req \<Rightarrow> (transaction, 'req) result) \<Rightarrow> 'req \<Rightarrow> (transaction_signed, 'req value_error) result" where
  "try_into_sim_tx build_typed_tx request =
     res_bind (res_map_err RequiredFieldsMissing (build_typed_tx request)) (\<lambda>tx.
       Ok (from_signed tx \<lparr>sig_r = 0, sig_s = 0, sig_y_parity = False\<rparr>))"

definition from_consensus_tx ::
  "(inner_tx \<times> address \<Rightarrow> 'info \<Rightarrow> 'rpc) \<Rightarrow> transaction_signed \<Rightarrow> address \<Rightarrow> 'info \<Rightarrow> 'rpc" where
  "from_consensus_tx from_transaction tx signer tx_info = from_transaction (into_inner tx, signer) tx_info"

definition try_build_and_sign ::
  "('req \<Rightarrow> 'k \<Rightarrow> (inner_tx, 'e) result) \<Rightarrow> 'req \<Rightarrow> 'k \<Rightarrow> (transaction_signed, 'e) result" where
  "try_build_and_sign inner_build_and_sign request signer =
     res_bind (inner_build_and_sign request signer) (\<lambda>signed. Ok (Default signed))"

section \<open>The transaction environment\<close>

text \<open>What revm reads of a transaction environment and what reth writes to it.\<close>

record ('t, 'acc, 'auth) transaction_ops =
  op_tx_type :: "'t \<Rightarrow> u8"
  op_caller :: "'t \<Rightarrow> address"
  op_gas_limit :: "'t \<Rightarrow> u64"
  op_value :: "'t \<Rightarrow> u256"
  op_input :: "'t \<Rightarrow> bytes"
  op_nonce :: "'t \<Rightarrow> u64"
  op_kind :: "'t \<Rightarrow> tx_kind"
  op_chain_id :: "'t \<Rightarrow> u64 option"
  op_gas_price :: "'t \<Rightarrow> u128"
  op_access_list :: "'t \<Rightarrow> 'acc list option"
  op_blob_versioned_hashes :: "'t \<Rightarrow> b256 list"
  op_max_fee_per_blob_gas :: "'t \<Rightarrow> u128"
  op_authorization_list_len :: "'t \<Rightarrow> nat"
  op_authorization_list :: "'t \<Rightarrow> 'auth list"
  op_max_fee_per_gas :: "'t \<Rightarrow> u128"
  op_max_priority_fee_per_gas :: "'t \<Rightarrow> u128 option"
  op_effective_gas_price :: "'t \<Rightarrow> u128 \<Rightarrow> u128"

record 't hl_tx_env =
  base :: 't

definition hl_tx_env_new :: "'t \<Rightarrow> 't hl_tx_env" where
  "hl_tx_env_new b = \<lparr>base = b\<rparr>"

definition hl_transaction_ops :: "('t, 'acc, 'auth) transaction_ops \<Rightarrow> ('t hl_tx_env, 'acc, 'auth) transaction_ops" where
  "hl_transaction_ops ops =
     \<lparr>op_tx_type = (\<lambda>tx. op_tx_type ops (base tx)),
      op_caller = (\<lambda>tx. op_caller ops (base tx)),
      op_gas_limit = (\<lambda>tx. op_gas_limit ops (base tx)),
      op_value = (\<lambda>tx. op_value ops (base tx)),
      op_input = (\<lambda>tx. op_input ops (base tx)),
      op_nonce = (\<lambda>tx. op_nonce ops (base tx)),
      op_kind = (\<lambda>tx. op_kind ops (base tx)),
      op_chain_id = (\<lambda>tx. op_chain_id ops (base tx)),
      op_gas_price = (\<lambda>tx. op_gas_price ops (base tx)),
      op_access_list = (\<lambda>tx. op_access_list ops (base tx)),
      op_blob_versioned_hashes = (\<lambda>tx. op_blob_versioned_hashes ops (base tx)),
      op_max_fee_per_blob_gas = (\<lambda>tx. op_max_fee_per_blob_gas ops (base tx)),
      op_authorization_list_len = (\<lambda>tx. op_authorization_list_len ops (base tx)),
      op_authorization_list = (\<lambda>tx. op_authorization_list ops (base tx)),
      op_max_fee_per_gas = (\<lambda>tx. op_max_fee_per_gas ops (base tx)),
      op_max_priority_fee_per_gas = (\<lambda>tx. op_max_priority_fee_per_gas ops (base tx)),
      op_effective_gas_price = (\<lambda>tx base_fee. op_effective_gas_price ops (base tx) base_fee)\<rparr>"

record 't tx_env_ops =
  tx_set_gas_limit :: "u64 \<Rightarrow> 't \<Rightarrow> 't"
  tx_env_nonce :: "'t \<Rightarrow> u64"
  tx_set_nonce :: "u64 \<Rightarrow> 't \<Rightarrow> 't"
  tx_set_access_list :: "access_list \<Rightarrow> 't \<Rightarrow> 't"

definition hl_tx_env_ops :: "'t tx_env_ops \<Rightarrow> 't hl_tx_env tx_env_ops" where
  "hl_tx_env_ops ops =
     \<lparr>tx_set_gas_limit = (\<lambda>gas_limit tx. tx\<lparr>base := tx_set_gas_limit ops gas_limit (base tx)\<rparr>),
      tx_env_nonce = (\<lambda>tx. tx_env_nonce ops (base tx)),
      tx_set_nonce = (\<lambda>nonce tx. tx\<lparr>base := tx_set_nonce ops nonce (base tx)\<rparr>),
      tx_set_access_list = (\<lambda>access_list tx. tx\<lparr>base := tx_set_access_list ops access_list (base tx)\<rparr>)\<rparr>"

text \<open>\<open>FromRecoveredTx<TransactionSigned> for TxEnv\<close>, and the wrapper's \<open>into_tx_env\<close>.\<close>

definition from_recovered_tx :: "(inner_tx \<Rightarrow> address \<Rightarrow> 't) \<Rightarrow> transaction_signed \<Rightarrow> address \<Rightarrow> 't" where
  "from_recovered_tx inner_from_recovered tx sender = inner_from_recovered (into_inner tx) sender"

definition into_tx_env :: "'t hl_tx_env \<Rightarrow> 't hl_tx_env" where
  "into_tx_env tx = tx"

definition try_into_tx_env :: "('req \<Rightarrow> 'cfg \<Rightarrow> 'blk \<Rightarrow> ('t, 'e) result) \<Rightarrow> 'req \<Rightarrow> 'cfg \<Rightarrow> 'blk \<Rightarrow> ('t hl_tx_env, 'e) result" where
  "try_into_tx_env request_into_tx_env request cfg_env block_env =
     res_bind (request_into_tx_env request cfg_env block_env) (\<lambda>tx. Ok (hl_tx_env_new tx))"

section \<open>Lemmas\<close>

fun typed_tx_type :: "transaction \<Rightarrow> tx_type" where
  "typed_tx_type (Legacy _) = TyLegacy"
| "typed_tx_type (Eip2930 _) = TyEip2930"
| "typed_tx_type (Eip1559 _) = TyEip1559"
| "typed_tx_type (Eip4844 _) = TyEip4844"
| "typed_tx_type (Eip7702 _) = TyEip7702"

lemma wrap_unwrap [simp]: "Default (into_inner tx) = tx"
  by (simp_all add: into_inner_def split: transaction_signed.split)

lemma envelope_of_simps [simp]:
  "into_typed_transaction (envelope_of t g) = t" "inner_signature (envelope_of t g) = g"
  "inner_tx_type (envelope_of t g) = typed_tx_type t"
  by (cases t; simp add: envelope_of_def)+

lemma envelope_of_typed [simp]: "envelope_of (into_typed_transaction tx) (inner_signature tx) = tx"
  by (cases tx rule: into_typed_transaction.cases) (simp_all add: envelope_of_def)

lemma s_to_address_0 [simp]: "s_to_address 0 = 0"
proof -
  have zeros: "nat_to_be n 0 = replicate n 0" for n by (induction n) (simp_all add: replicate_append_same)
  have "be_to_nat (replicate n 0) = 0" for n by (induction n) simp_all
  then show ?thesis by (simp add: s_to_address_def zeros)
qed

lemma system_gas_price: "is_system_transaction tx \<longleftrightarrow> tx_gas_price tx \<noteq> None \<and> the (tx_gas_price tx) = 0"
  by (auto simp: is_system_transaction_def split: option.split)

section \<open>Properties\<close>

text \<open>
  The type of a transaction survives every way into and out of the node's type. The
  wrapper has the EIP-2718 type, the signature and the body of the signed transaction it
  was made from; taking it apart and signing the parts again gives it back; the
  transaction of a source block, a transaction to simulate and one read back from the
  database have the type of what they were made from.
\<close>

theorem tx_type_preserved:
  assumes "inner_decompress (inner_compress (into_inner tx)) = Ok (into_inner tx)"
  shows "envelope_tx_type (from_signed t g) = typed_tx_type t \<and>
    into_typed_transaction (into_inner (from_signed t g)) = t \<and> envelope_signature (from_signed t g) = g \<and>
    from_signed (into_typed_transaction (into_inner tx)) (envelope_signature tx) = tx \<and>
    envelope_tx_type (to_reth_transaction c) = typed_tx_type (compat_transaction c) \<and>
    (case try_into_sim_tx build_typed_tx request of Ok sim \<Rightarrow> \<exists>t'. build_typed_tx request = Ok t' \<and>
         envelope_tx_type sim = typed_tx_type t' \<and> into_typed_transaction (into_inner sim) = t'
     | Err (RequiredFieldsMissing r) \<Rightarrow> build_typed_tx request = Err r) \<and>
    tx_decompress inner_decompress (tx_compress_to_buf inner_compress tx []) = Ok tx \<and> tx_from_repr (tx_as_repr tx) = tx"
proof -
  have "envelope_tx_type (to_reth_transaction c) = typed_tx_type (compat_transaction c)"
    by (cases c; cases "compat_transaction c") (simp_all add: envelope_tx_type_def)
  moreover have "case try_into_sim_tx build_typed_tx request of Ok sim \<Rightarrow> \<exists>t'. build_typed_tx request = Ok t' \<and>
         envelope_tx_type sim = typed_tx_type t' \<and> into_typed_transaction (into_inner sim) = t'
     | Err (RequiredFieldsMissing r) \<Rightarrow> build_typed_tx request = Err r"
    by (cases "build_typed_tx request") (simp_all add: try_into_sim_tx_def envelope_tx_type_def from_signed_def)
  ultimately show ?thesis
    using assms
    by (simp add: envelope_tx_type_def from_signed_def envelope_signature_def tx_decompress_def tx_compress_to_buf_def
        tx_from_repr_def tx_as_repr_def)
qed

text \<open>
  Both ways to the transaction environment agree. For a transaction with the sender that
  was recovered from it, the environment built from the recovered transaction and the
  one built from the encoded transaction are the same, for system transactions
  (which ignore the sender they come with in the first way only) as for all others.
\<close>

theorem tx_env_agrees:
  assumes "recover_signer inner_recover tx = Ok sender"
  shows "hl_from_recovered_tx (\<lambda>tx a. hl_tx_env_new (from_recovered_tx inner_env tx a)) inner_recover tx sender =
    Returns (hl_tx_env_new (hl_from_encoded_tx inner_env tx sender encoded))"
  using assms by (simp add: hl_from_recovered_tx_def hl_from_encoded_tx_def from_recovered_tx_def)

text \<open>
  C40. A simulated transaction whose request sets a gas price of zero (legacy or EIP-2930)
  counts as a system transaction: it runs as the zero address, not as the sender the
  request names. Every other simulated transaction runs as that sender.
\<close>

theorem simulated_caller:
  assumes "try_into_sim_tx build_typed_tx request = Ok tx"
  shows "hl_from_recovered_tx env inner_recover tx sender =
    Returns (env tx (if tx_gas_price tx = Some 0 then 0 else sender))"
proof -
  from assms obtain t where "tx = from_signed t \<lparr>sig_r = 0, sig_s = 0, sig_y_parity = False\<rparr>"
    by (auto simp: try_into_sim_tx_def res_bind_eq_Ok_iff)
  then have sys: "recover_signer inner_recover tx = Ok 0" if "is_system_transaction tx"
    using that by (simp add: recover_signer_def from_signed_def)
  show ?thesis
  proof (cases "tx_gas_price tx = Some 0")
    case True
    then have "is_system_transaction tx" by (simp add: is_system_transaction_def)
    with sys True show ?thesis by (simp add: hl_from_recovered_tx_def)
  next
    case False
    then show ?thesis by (auto simp: hl_from_recovered_tx_def)
  qed
qed

section \<open>An example\<close>

definition example_sig :: signature where
  "example_sig = \<lparr>sig_r = 1, sig_s = 0x2000000000000000000000000000000000000005, sig_y_parity = True\<rparr>"

theorem tx_type_preserved_witness:
  "envelope_tx_type (from_signed (Legacy (example_legacy 3)) example_sig) = TyLegacy \<and>
   tx_decompress (\<lambda>_. Ok (into_inner example_spot_tx) :: (inner_tx, unit) result)
     (tx_compress_to_buf (\<lambda>_. []) example_spot_tx []) = Ok example_spot_tx"
  using tx_type_preserved [where tx = example_spot_tx and inner_compress = "\<lambda>_. []" and t = "Legacy (example_legacy 3)"
      and inner_decompress = "\<lambda>_. Ok (into_inner example_spot_tx) :: (inner_tx, unit) result" and g = example_sig
      and c = "\<lparr>compat_signature = example_sig, compat_transaction = Legacy (example_legacy 3)\<rparr>"
      and build_typed_tx = Ok and request = "Legacy (example_legacy 3)"]
  by simp

theorem tx_env_agrees_witness:
  "hl_from_recovered_tx (\<lambda>tx a. hl_tx_env_new (from_recovered_tx (\<lambda>_ a. a) tx a)) (\<lambda>_. Ok 7 :: (address, unit) result)
     (from_signed (Legacy (example_legacy 3)) example_sig) 7 = Returns \<lparr>base = 7\<rparr>"
proof -
  have "recover_signer (\<lambda>_. Ok 7 :: (address, unit) result) (from_signed (Legacy (example_legacy 3)) example_sig) = Ok 7"
    by (simp add: recover_signer_def is_system_transaction_def from_signed_def envelope_of_def example_legacy_def)
  from tx_env_agrees [OF this, of "\<lambda>_ a. a" "[]"] show ?thesis
    by (simp add: hl_tx_env_new_def hl_from_encoded_tx_def)
qed

theorem simulated_caller_witness:
  "\<exists>tx. try_into_sim_tx (\<lambda>price. Ok (Legacy (example_legacy price))) 0 = Ok tx \<and>
     hl_from_recovered_tx (\<lambda>_ a. a) (\<lambda>_. Err ()) tx 7 = Returns 0"
proof -
  let ?tx = "from_signed (Legacy (example_legacy 0)) \<lparr>sig_r = 0, sig_s = 0, sig_y_parity = False\<rparr>"
  have sim: "try_into_sim_tx (\<lambda>price. Ok (Legacy (example_legacy price))) 0 = Ok ?tx"
    by (simp add: try_into_sim_tx_def)
  have "tx_gas_price ?tx = Some 0" by (simp add: from_signed_def envelope_of_def example_legacy_def)
  with simulated_caller [OF sim, of "\<lambda>_ a. a" "\<lambda>_. Err ()" 7] sim show ?thesis by auto
qed

end
