(* ===== verification/Forwarders.thy ===== *)
theory Forwarders
  imports Compliance
begin

text \<open>
  The RPC methods that are forwarded to an upstream node
  (\<open>src/src/addons/call_forwarder.rs\<close>, \<open>src/src/addons/tx_forwarder.rs\<close>). The upstream
  node and the local eth API are parameters. Waiting for a receipt is a loop over the
  upstream's answers, each with the time it took, in milliseconds.
\<close>

section \<open>Errors\<close>

definition INTERNAL_ERROR_CODE :: int where
  "INTERNAL_ERROR_CODE = -32603"

record error_object =
  err_code :: int
  err_message :: string
  err_data :: "string option"

datatype 'c client_error = CallError error_object | OtherClientError 'c

text \<open>\<open>Some(())\<close> is the JSON value \<open>null\<close>.\<close>

definition internal_error :: "string \<Rightarrow> string \<Rightarrow> error_object" where
  "internal_error prefix shown =
     \<lparr>err_code = INTERNAL_ERROR_CODE, err_message = prefix @ '': '' @ shown, err_data = Some ''null''\<rparr>"

definition from_client_error :: "('c client_error \<Rightarrow> string) \<Rightarrow> 'c client_error \<Rightarrow> string \<Rightarrow> error_object" where
  "from_client_error debug e prefix =
     (case e of CallError err \<Rightarrow> err | _ \<Rightarrow> internal_error prefix (debug e))"

section \<open>Calls and gas estimates\<close>

record ('req, 'so, 'bo, 'c, 'e) call_forwarder =
  up_call :: "'req \<Rightarrow> block_id option \<Rightarrow> 'so option \<Rightarrow> 'bo option \<Rightarrow> (bytes, 'c client_error) result"
  up_estimate_gas :: "'req \<Rightarrow> block_id option \<Rightarrow> 'so option \<Rightarrow> (u256, 'c client_error) result"
  api_call :: "'req \<Rightarrow> block_id option \<Rightarrow> 'so option \<times> 'bo option \<Rightarrow> (bytes, 'e) result"
  api_estimate_gas_at :: "'req \<Rightarrow> block_id \<Rightarrow> 'so option \<Rightarrow> (u256, 'e) result"
  show_client_error :: "'c client_error \<Rightarrow> string"
  show_api_error :: "'e \<Rightarrow> string"

definition is_latest :: "block_id option \<Rightarrow> bool" where
  "is_latest bid = (case bid of None \<Rightarrow> True | Some b \<Rightarrow> b = IdTag ''latest'')"

definition forward_call ::
  "('req, 'so, 'bo, 'c, 'e) call_forwarder \<Rightarrow> 'req \<Rightarrow> block_id option \<Rightarrow> 'so option \<Rightarrow> 'bo option \<Rightarrow>
   (bytes, error_object) result" where
  "forward_call fw request bid state_overrides block_overrides =
     (if is_latest bid
      then case up_call fw request bid state_overrides block_overrides of
             Ok r \<Rightarrow> Ok r
           | Err e \<Rightarrow> Err (case e of CallError err \<Rightarrow> err
                                   | _ \<Rightarrow> internal_error ''Failed to call'' (show_client_error fw e))
      else case api_call fw request bid (state_overrides, block_overrides) of
             Ok r \<Rightarrow> Ok r
           | Err e \<Rightarrow> Err (internal_error ''Failed to call'' (show_api_error fw e)))"

definition forward_estimate_gas ::
  "('req, 'so, 'bo, 'c, 'e) call_forwarder \<Rightarrow> 'req \<Rightarrow> block_id option \<Rightarrow> 'so option \<Rightarrow>
   (u256, error_object) result" where
  "forward_estimate_gas fw request bid state_override =
     (if is_latest bid
      then case up_estimate_gas fw request bid state_override of
             Ok r \<Rightarrow> Ok r
           | Err e \<Rightarrow> Err (case e of CallError err \<Rightarrow> err
                                   | _ \<Rightarrow> internal_error ''Failed to estimate gas'' (show_client_error fw e))
      else case api_estimate_gas_at fw request (case bid of None \<Rightarrow> default_block_id | Some b \<Rightarrow> b) state_override of
             Ok r \<Rightarrow> Ok r
           | Err e \<Rightarrow> Err (internal_error ''Failed to estimate gas'' (show_api_error fw e)))"

section \<open>Sending transactions\<close>

text \<open>
  \<open>up_receipt h k\<close> is the upstream's answer to the \<open>k\<close>-th request for the receipt of \<open>h\<close>:
  how long it takes, and what it is.
\<close>

record ('r, 'c) upstream =
  up_send :: "bytes \<Rightarrow> (b256, 'c client_error) result"
  up_receipt :: "b256 \<Rightarrow> nat \<Rightarrow> nat \<times> ('r option, 'c client_error) result"
  up_show :: "'c client_error \<Rightarrow> string"

datatype send_error = RpcError error_object | TransactionConfirmationTimeout b256 nat

definition send_raw_transaction :: "('r, 'c) upstream \<Rightarrow> bytes \<Rightarrow> (b256, send_error) result" where
  "send_raw_transaction up tx =
     (case up_send up tx of
        Ok h \<Rightarrow> Ok h
      | Err e \<Rightarrow> Err (RpcError (from_client_error (up_show up) e ''Failed to send transaction'')))"

definition send_transaction :: "'tx \<Rightarrow> (b256, send_error) result" where
  "send_transaction tx =
     Err (RpcError \<lparr>err_code = INTERNAL_ERROR_CODE, err_message = ''Unimplemented'', err_data = None\<rparr>)"

definition TIMEOUT_DURATION :: nat where
  "TIMEOUT_DURATION = 30000"

definition INTERVAL :: nat where
  "INTERVAL = 1000"

text \<open>
  The loop under the timeout, at time \<open>t\<close> and before request \<open>k\<close>. The timeout polls the
  loop before its own timer, so that an answer that arrives together with the timer
  still counts. The result has the number of requests that were sent.
\<close>

function poll_receipt :: "('r, 'c) upstream \<Rightarrow> b256 \<Rightarrow> nat \<Rightarrow> nat \<Rightarrow> nat \<times> ('r, send_error) result" where
  "poll_receipt up h k t =
     (let (latency, answer) = up_receipt up h k; t1 = t + latency
      in if t1 > TIMEOUT_DURATION then (Suc k, Err (TransactionConfirmationTimeout h TIMEOUT_DURATION))
         else case answer of
             Err e \<Rightarrow> (Suc k, Err (RpcError (from_client_error (up_show up) e ''Failed to get transaction receipt'')))
           | Ok (Some receipt) \<Rightarrow> (Suc k, Ok receipt)
           | Ok None \<Rightarrow>
               let t2 = t1 + INTERVAL
               in if t2 > TIMEOUT_DURATION then (Suc k, Err (TransactionConfirmationTimeout h TIMEOUT_DURATION))
                  else poll_receipt up h (Suc k) t2)"
  by pat_completeness auto

termination
  by (relation "measure (\<lambda>(up, h, k, t). TIMEOUT_DURATION + 1 - t)") (auto simp: INTERVAL_def)

declare poll_receipt.simps [simp del]

definition send_raw_transaction_sync :: "('r, 'c) upstream \<Rightarrow> bytes \<Rightarrow> nat \<times> ('r, send_error) result" where
  "send_raw_transaction_sync up tx =
     (case send_raw_transaction up tx of Err e \<Rightarrow> (0, Err e) | Ok h \<Rightarrow> poll_receipt up h 0 0)"

section \<open>Specification\<close>

text \<open>When request \<open>k\<close> is sent, if none of the earlier answers ends the wait; when it is answered.\<close>

fun sent_at :: "('r, 'c) upstream \<Rightarrow> b256 \<Rightarrow> nat \<Rightarrow> nat" where
  "sent_at up h 0 = 0"
| "sent_at up h (Suc k) = sent_at up h k + fst (up_receipt up h k) + INTERVAL"

definition answered_at :: "('r, 'c) upstream \<Rightarrow> b256 \<Rightarrow> nat \<Rightarrow> nat" where
  "answered_at up h k = sent_at up h k + fst (up_receipt up h k)"

text \<open>The answer in time that decides: the first that is not ``not yet''.\<close>

definition decisive :: "('r, 'c) upstream \<Rightarrow> b256 \<Rightarrow> nat \<Rightarrow> bool" where
  "decisive up h k \<longleftrightarrow> answered_at up h k \<le> TIMEOUT_DURATION \<and> snd (up_receipt up h k) \<noteq> Ok None \<and>
     (\<forall>j < k. snd (up_receipt up h j) = Ok None)"

section \<open>Lemmas\<close>

lemma sent_at_ge: "1000 * k \<le> sent_at up h k"
  by (induction k) (auto simp: INTERVAL_def)

lemma answered_at_mono: "j \<le> k \<Longrightarrow> answered_at up h j \<le> answered_at up h k"
  by (induction k) (auto simp: answered_at_def le_Suc_eq)

lemma decisive_unique:
  assumes "decisive up h k" "decisive up h k'"
  shows "k = k'"
  using assms by (metis decisive_def linorder_neqE_nat)

lemma none_decisive:
  assumes "\<forall>j < k. snd (up_receipt up h j) = Ok None"
    and "answered_at up h k > TIMEOUT_DURATION \<or>
      snd (up_receipt up h k) = Ok None \<and> sent_at up h (Suc k) > TIMEOUT_DURATION"
  shows "\<not> decisive up h j"
proof (cases "j \<le> k")
  case True
  with assms show ?thesis by (cases "j = k") (auto simp: decisive_def)
next
  case False
  then have "sent_at up h (Suc k) \<le> answered_at up h j"
    using answered_at_mono [of "Suc k" j up h] by (simp add: answered_at_def)
  moreover have "answered_at up h k \<le> sent_at up h (Suc k)" by (simp add: answered_at_def)
  ultimately show ?thesis using assms(2) by (auto simp: decisive_def)
qed

text \<open>What the loop returns for the answer of a request.\<close>

definition receipt_result :: "('r, 'c) upstream \<Rightarrow> b256 \<Rightarrow> nat \<Rightarrow> ('r, send_error) result" where
  "receipt_result up h k =
     (case snd (up_receipt up h k) of
        Err e \<Rightarrow> Err (RpcError (from_client_error (up_show up) e ''Failed to get transaction receipt''))
      | Ok None \<Rightarrow> Err (TransactionConfirmationTimeout h TIMEOUT_DURATION)
      | Ok (Some receipt) \<Rightarrow> Ok receipt)"

text \<open>One round of the loop, by the times of the specification.\<close>

lemma poll_receipt_unfold:
  "poll_receipt up h k (sent_at up h k) =
     (if answered_at up h k > TIMEOUT_DURATION \<or> snd (up_receipt up h k) = Ok None \<and> sent_at up h (Suc k) > TIMEOUT_DURATION
      then (Suc k, Err (TransactionConfirmationTimeout h TIMEOUT_DURATION))
      else if snd (up_receipt up h k) = Ok None then poll_receipt up h (Suc k) (sent_at up h (Suc k))
      else (Suc k, receipt_result up h k))"
  by (subst poll_receipt.simps)
    (auto simp: answered_at_def receipt_result_def Let_def split: prod.splits sum.splits option.splits)

text \<open>The loop ends at the decisive answer, or else times out.\<close>

lemma poll_receipt_spec:
  assumes "poll_receipt up h k (sent_at up h k) = (n, r)" "sent_at up h k \<le> TIMEOUT_DURATION"
    and "\<forall>j < k. snd (up_receipt up h j) = Ok None"
  shows "n > 0 \<and> sent_at up h (n - 1) \<le> TIMEOUT_DURATION \<and>
    (if \<exists>k. decisive up h k then decisive up h (n - 1) \<and> r = receipt_result up h (n - 1)
     else r = Err (TransactionConfirmationTimeout h TIMEOUT_DURATION))"
  using assms
proof (induction "TIMEOUT_DURATION + 1 - sent_at up h k" arbitrary: k rule: less_induct)
  case less
  let ?late = "answered_at up h k > TIMEOUT_DURATION \<or>
    snd (up_receipt up h k) = Ok None \<and> sent_at up h (Suc k) > TIMEOUT_DURATION"
  consider (late) ?late | (again) "\<not> ?late" "snd (up_receipt up h k) = Ok None"
    | (decided) "\<not> ?late" "snd (up_receipt up h k) \<noteq> Ok None" by blast
  then show ?case
  proof cases
    case late
    then have "n = Suc k" "r = Err (TransactionConfirmationTimeout h TIMEOUT_DURATION)"
      using less.prems(1) poll_receipt_unfold [of up h k] by (simp_all only: if_True prod.inject)
    with less.prems(2) none_decisive [OF less.prems(3) late] show ?thesis by simp
  next
    case again
    have "TIMEOUT_DURATION + 1 - sent_at up h (Suc k) < TIMEOUT_DURATION + 1 - sent_at up h k"
      using less.prems(2) by (simp add: INTERVAL_def)
    moreover have "poll_receipt up h (Suc k) (sent_at up h (Suc k)) = (n, r)"
      using less.prems(1) again by (simp add: poll_receipt_unfold [of up h k])
    moreover have "sent_at up h (Suc k) \<le> TIMEOUT_DURATION" using again by auto
    moreover have "\<forall>j < Suc k. snd (up_receipt up h j) = Ok None"
      using less.prems(3) again(2) by (auto simp: less_Suc_eq)
    ultimately show ?thesis by (rule less.hyps)
  next
    case decided
    with less.prems(3) have "decisive up h k" by (auto simp: decisive_def)
    moreover have "n = Suc k" "r = receipt_result up h k"
      using decided less.prems(1) by (auto simp: poll_receipt_unfold)
    ultimately show ?thesis using less.prems(2) by auto
  qed
qed

section \<open>Properties\<close>

text \<open>
  C37. Sending a transaction and waiting for its receipt always returns, after at most 31
  requests for the receipt. It returns the first answer within the time limit that is a
  receipt or an error, and reports a timeout exactly when there is none. When the
  transaction cannot be sent, no request is made.
\<close>

theorem send_sync_bounded:
  "case up_send up tx of
     Err e \<Rightarrow> send_raw_transaction_sync up tx =
       (0, Err (RpcError (from_client_error (up_show up) e ''Failed to send transaction'')))
   | Ok h \<Rightarrow> (\<exists>k r. send_raw_transaction_sync up tx = (Suc k, r) \<and> Suc k \<le> 31 \<and>
       (if \<exists>j. decisive up h j then decisive up h k \<and> r = receipt_result up h k
        else r = Err (TransactionConfirmationTimeout h TIMEOUT_DURATION)))"
proof (cases "up_send up tx")
  case (Inl e)
  then show ?thesis by (simp add: send_raw_transaction_sync_def send_raw_transaction_def)
next
  case (Inr h)
  obtain n r where run: "poll_receipt up h 0 (sent_at up h 0) = (n, r)" by fastforce
  then have spec: "n > 0 \<and> sent_at up h (n - 1) \<le> TIMEOUT_DURATION \<and>
    (if \<exists>k. decisive up h k then decisive up h (n - 1) \<and> r = receipt_result up h (n - 1)
     else r = Err (TransactionConfirmationTimeout h TIMEOUT_DURATION))"
    by (rule poll_receipt_spec) simp_all
  then obtain k where n: "n = Suc k" using gr0_implies_Suc by blast
  with spec sent_at_ge [of k up h] have "Suc k \<le> 31" by (simp add: TIMEOUT_DURATION_def)
  moreover have "if \<exists>j. decisive up h j then decisive up h k \<and> r = receipt_result up h k
     else r = Err (TransactionConfirmationTimeout h TIMEOUT_DURATION)"
    using conjunct2 [OF conjunct2 [OF spec]] by (simp only: n diff_Suc_1)
  ultimately show ?thesis using run n Inr
    by (simp add: send_raw_transaction_sync_def send_raw_transaction_def split del: if_split)
qed

text \<open>An error of the upstream node itself reaches the caller unchanged; only latest-block requests are forwarded.\<close>

lemma forward_call_upstream_error:
  assumes "is_latest bid" "up_call fw req bid so bo = Err (CallError e)"
  shows "forward_call fw req bid so bo = Err e"
  using assms by (simp add: forward_call_def)

lemma forward_local_only:
  assumes "\<not> is_latest bid"
  shows "forward_call (fw\<lparr>up_call := f\<rparr>) req bid so bo = forward_call fw req bid so bo"
    and "forward_estimate_gas (fw\<lparr>up_estimate_gas := g\<rparr>) req bid so = forward_estimate_gas fw req bid so"
  using assms by (simp_all add: forward_call_def forward_estimate_gas_def cong: sum.case_cong)

end
