(* ===== verification/Build_Version.thy ===== *)
theory Build_Version
  imports Prelude
begin

text \<open>
  The version strings of the program: what the build script (\<open>src/build.rs\<close>) makes of the
  commit, the state of the working tree and the output directory, and what
  \<open>init_reth_hl_version\<close> (\<open>src/src/version.rs\<close>) puts together of it.

  The environment of the build and what the \<open>vergen\<close> library writes to it are parameters. A string
  slice out of range panics.
\<close>

section \<open>Strings\<close>

definition slice_to :: "nat \<Rightarrow> string \<Rightarrow> string run" where
  "slice_to n s = (if n \<le> length s then Returns (take n s) else Panics)"

definition ends_with :: "string \<Rightarrow> string \<Rightarrow> bool" where
  "ends_with s t \<longleftrightarrow> length t \<le> length s \<and> drop (length s - length t) s = t"

text \<open>The parts of a string between separators, the last one first (\<open>rsplit\<close>).\<close>

fun split_at :: "char \<Rightarrow> string \<Rightarrow> string list" where
  "split_at c [] = [[]]"
| "split_at c (x # xs) = (if x = c then [] # split_at c xs
     else case split_at c xs of [] \<Rightarrow> [[x]] | p # ps \<Rightarrow> (x # p) # ps)"

definition rsplit :: "char \<Rightarrow> string \<Rightarrow> string list" where
  "rsplit c s = rev (split_at c s)"

definition nth_opt :: "nat \<Rightarrow> 'a list \<Rightarrow> 'a option" where
  "nth_opt n xs = (if n < length xs then Some (xs ! n) else None)"

section \<open>The build script\<close>

datatype 'e build_error = Vergen 'e | VarMissing string

record 'e build_env =
  be_vergen :: "(unit, 'e) result"
  be_var :: "string \<rightharpoonup> string"
  be_pkg_version :: string

definition env_var :: "'e build_env \<Rightarrow> string \<Rightarrow> (string, 'e build_error) result" where
  "env_var env name = ok_or (be_var env name) (VarMissing name)"

definition version_suffix :: "bool \<Rightarrow> string \<Rightarrow> string \<Rightarrow> string" where
  "version_suffix is_dirty describe sha_short =
     (let not_on_tag = ends_with describe (''-g'' @ sha_short)
      in if is_dirty \<or> not_on_tag then ''-dev'' else '''')"

definition build_profile :: "string \<Rightarrow> string run" where
  "build_profile out_dir = unwrap (nth_opt 3 (rsplit CHR ''/'' out_dir))"

text \<open>A variable that is read in the middle of the script: its absence ends the script with an error.\<close>

definition with_var ::
  "'e build_env \<Rightarrow> string \<Rightarrow> (string \<Rightarrow> ('a, 'e build_error) result run) \<Rightarrow> ('a, 'e build_error) result run" where
  "with_var env name k = (case env_var env name of Err e \<Rightarrow> Returns (Err e) | Ok v \<Rightarrow> k v)"

text \<open>The lines \<open>cargo:rustc-env=NAME=VALUE\<close> of a script that succeeds.\<close>

definition build_main :: "'e build_env \<Rightarrow> ((string \<times> string) list, 'e build_error) result run" where
  "build_main env =
     (case be_vergen env of Err e \<Rightarrow> Returns (Err (Vergen e))
      | Ok _ \<Rightarrow>
          with_var env ''VERGEN_GIT_SHA'' (\<lambda>sha.
          run_bind (slice_to 7 sha) (\<lambda>sha_short.
          with_var env ''VERGEN_GIT_DIRTY'' (\<lambda>dirty.
          with_var env ''VERGEN_GIT_DESCRIBE'' (\<lambda>describe.
          let suffix = version_suffix (dirty = ''true'') describe sha_short
          in run_bind (slice_to 8 sha) (\<lambda>sha8.
             run_bind (unwrap (be_var env ''OUT_DIR'')) (\<lambda>out_dir.
             run_bind (build_profile out_dir) (\<lambda>profile.
             with_var env ''VERGEN_BUILD_TIMESTAMP'' (\<lambda>built.
             with_var env ''VERGEN_CARGO_FEATURES'' (\<lambda>features.
             with_var env ''VERGEN_CARGO_TARGET_TRIPLE'' (\<lambda>triple.
               Returns (Ok
                 [(''RETH_HL_VERSION_SUFFIX'', suffix),
                  (''VERGEN_GIT_SHA_SHORT'', sha8),
                  (''RETH_HL_BUILD_PROFILE'', profile),
                  (''RETH_HL_SHORT_VERSION'', be_pkg_version env @ suffix @ '' ('' @ sha_short @ '')''),
                  (''RETH_HL_LONG_VERSION_0'', ''Version: '' @ be_pkg_version env @ suffix),
                  (''RETH_HL_LONG_VERSION_1'', ''Commit SHA: '' @ sha),
                  (''RETH_HL_LONG_VERSION_2'', ''Build Timestamp: '' @ built),
                  (''RETH_HL_LONG_VERSION_3'', ''Build Features: '' @ features),
                  (''RETH_HL_LONG_VERSION_4'', ''Build Profile: '' @ profile),
                  (''RETH_HL_P2P_CLIENT_VERSION'',
                     ''reth/v'' @ be_pkg_version env @ ''-'' @ sha_short @ ''/'' @ triple)]))))))))))))"

section \<open>The version metadata\<close>

record version_consts =
  name_client :: string
  cargo_pkg_version :: string
  vergen_git_sha_long :: string
  vergen_git_sha :: string
  vergen_build_timestamp :: string
  vergen_cargo_target_triple :: string
  vergen_cargo_features :: string
  short_version :: string
  long_version :: string
  build_profile_name :: string
  p2p_client_version :: string
  version_extra_data :: string

definition newline :: string where
  "newline = [CHR 0x0A]"

text \<open>\<open>env!\<close> reads the variable when the program is compiled; the metadata is set once.\<close>

definition reth_hl_version :: "(string \<Rightarrow> string) \<Rightarrow> string \<Rightarrow> version_consts" where
  "reth_hl_version env os =
     (let cargo = env ''CARGO_PKG_VERSION'';
          long = env ''RETH_HL_LONG_VERSION_0'' @ newline @ env ''RETH_HL_LONG_VERSION_1'' @ newline @
            env ''RETH_HL_LONG_VERSION_2'' @ newline @ env ''RETH_HL_LONG_VERSION_3'' @ newline @ env ''RETH_HL_LONG_VERSION_4''
      in \<lparr>name_client = ''reth_hl'', cargo_pkg_version = cargo, vergen_git_sha_long = env ''VERGEN_GIT_SHA'',
          vergen_git_sha = env ''VERGEN_GIT_SHA_SHORT'', vergen_build_timestamp = env ''VERGEN_BUILD_TIMESTAMP'',
          vergen_cargo_target_triple = env ''VERGEN_CARGO_TARGET_TRIPLE'', vergen_cargo_features = env ''VERGEN_CARGO_FEATURES'',
          short_version = env ''RETH_HL_SHORT_VERSION'', long_version = long,
          build_profile_name = env ''RETH_HL_BUILD_PROFILE'', p2p_client_version = env ''RETH_HL_P2P_CLIENT_VERSION'',
          version_extra_data = ''reth_hl/v'' @ cargo @ ''/'' @ os\<rparr>)"

definition init_reth_hl_version :: "(string \<Rightarrow> string) \<Rightarrow> string \<Rightarrow> version_consts option \<Rightarrow> version_consts option" where
  "init_reth_hl_version env os current =
     (case current of None \<Rightarrow> Some (reth_hl_version env os) | Some m \<Rightarrow> Some m)"

section \<open>Lemmas\<close>

lemma ends_with_nth:
  assumes "ends_with s t" "i < length t"
  shows "s ! (length s - length t + i) = t ! i"
proof -
  have "(drop (length s - length t) s) ! i = t ! i" using assms by (simp add: ends_with_def)
  then show ?thesis using assms by (simp add: ends_with_def)
qed

definition hex :: "string \<Rightarrow> bool" where
  "hex s \<longleftrightarrow> list_all (\<lambda>c. c \<noteq> CHR ''g'' \<and> c \<noteq> CHR ''-'') s"

text \<open>A description that ends in an abbreviated commit matches only if the abbreviation is as long as the short hash.\<close>

lemma ends_with_abbrev:
  assumes "hex sha" "7 \<le> length sha" "k \<le> length sha"
  shows "ends_with (tag @ ''-g'' @ take k sha) (''-g'' @ take 7 sha) \<longleftrightarrow> k = 7"
proof
  let ?s = "tag @ ''-g'' @ take k sha" and ?t = "''-g'' @ take 7 sha"
  have h: "sha ! i \<noteq> CHR ''g''" "sha ! i \<noteq> CHR ''-''" if "i < length sha" for i
    using assms(1) that by (auto simp: hex_def list_all_length)
  have len: "length ?s = length tag + 2 + k" "length ?t = 9" using assms(2,3) by simp_all
  assume e: "ends_with ?s ?t"
  show "k = 7"
  proof (rule ccontr)
    assume "k \<noteq> 7"
    then consider "k = 8" | "8 < k" | "k < 7" by linarith
    then show False
    proof cases
      assume "k = 8"
      with ends_with_nth [OF e, of 0] len show False by (simp add: nth_append)
    next
      assume k: "8 < k"
      then have i: "length ?s - length ?t + 0 = length tag + (2 + (k - 9))" using len by simp
      have "?s ! (length tag + (2 + (k - 9))) = (''-g'' @ take k sha) ! (2 + (k - 9))" by (rule nth_append_length_plus)
      also have "\<dots> = sha ! (k - 9)" using k by simp
      finally have "?s ! (length tag + (2 + (k - 9))) = sha ! (k - 9)" .
      with ends_with_nth [OF e, of 0] len i h(2) [of "k - 9"] k assms(3) show False by simp
    next
      assume k: "k < 7"
      have le: "9 \<le> length tag + 2 + k" using e len by (simp add: ends_with_def)
      then have i: "length ?s - length ?t + (8 - k) = length tag + 1" using len k by simp
      have "?s ! (length tag + 1) = CHR ''g''" by (simp add: nth_append)
      moreover have "?t ! (8 - k) = sha ! (6 - k)" using k by (simp add: nth_append nth_Cons')
      moreover have "6 - k < length sha" using assms(2) by linarith
      moreover have nth: "?s ! (length ?s - length ?t + (8 - k)) = ?t ! (8 - k)"
        using len(2) by (intro ends_with_nth [OF e]) simp
      have "?s ! (length tag + 1) = ?t ! (8 - k)" using nth unfolding i .
      ultimately show False using h(1) [of "6 - k"] by metis
    qed
  qed
next
  assume "k = 7"
  then show "ends_with (tag @ ''-g'' @ take k sha) (''-g'' @ take 7 sha)" using assms(2) by (simp add: ends_with_def)
qed

lemma split_at_append:
  assumes "c \<notin> set q"
  shows "split_at c (p @ c # q) = split_at c p @ [q]"
proof -
  have q: "split_at c q = [q]" using assms by (induction q) auto
  have ne: "split_at c xs \<noteq> []" for xs by (induction xs) (auto split: list.splits)
  show ?thesis
    using ne by (induction p) (auto simp: q split: list.splits)
qed

lemma rsplit_append: "c \<notin> set q \<Longrightarrow> rsplit c (p @ c # q) = q # rsplit c p"
  by (simp add: rsplit_def split_at_append)

section \<open>Properties\<close>

text \<open>
  When a build is marked \<open>-dev\<close>. The suffix is there if the working tree is dirty, or if the
  description of the commit ends in its abbreviated hash and the abbreviation has exactly
  seven digits; with any other length (git abbreviates to more digits in a large
  repository) a commit that is not on a tag is taken for a release.
\<close>

theorem dev_suffix:
  assumes "hex sha" "7 \<le> length sha" "k \<le> length sha"
  shows "slice_to 7 sha = Returns (take 7 sha) \<and>
    (version_suffix dirty (tag @ ''-g'' @ take k sha) (take 7 sha) = ''-dev'' \<longleftrightarrow> dirty \<or> k = 7)"
  using ends_with_abbrev [OF assms] assms(2) by (simp add: version_suffix_def slice_to_def)

text \<open>
  The version the program shows. If the build variables are there and the output
  directory is Cargo's (\<open>.../<profile>/build/<package>/out\<close>), the script succeeds, and
  the program compiled with what it wrote shows the package version with its suffix and seven
  digits of the commit, the full commit and the profile in the long version, and eight digits as
  the commit.
\<close>

theorem version_strings:
  assumes "be_vergen env = Ok ()" "be_var env ''VERGEN_GIT_SHA'' = Some sha" "8 \<le> length sha"
    and "be_var env ''VERGEN_GIT_DIRTY'' = Some dirty" "be_var env ''VERGEN_GIT_DESCRIBE'' = Some describe"
    and "be_var env ''OUT_DIR'' = Some (target @ ''/'' @ profile @ ''/build/'' @ package @ ''/out'')"
    and "CHR ''/'' \<notin> set profile" "CHR ''/'' \<notin> set package"
    and "be_var env ''VERGEN_BUILD_TIMESTAMP'' = Some built" "be_var env ''VERGEN_CARGO_FEATURES'' = Some features"
    and "be_var env ''VERGEN_CARGO_TARGET_TRIPLE'' = Some triple"
  shows "\<exists>script. build_main env = Returns (Ok script) \<and>
    (let v = reth_hl_version (\<lambda>name. case map_of script name of Some x \<Rightarrow> x | None \<Rightarrow> the (be_var env name)) os;
         suffix = version_suffix (dirty = ''true'') describe (take 7 sha)
     in short_version v = be_pkg_version env @ suffix @ '' ('' @ take 7 sha @ '')'' \<and>
        vergen_git_sha v = take 8 sha \<and> vergen_git_sha_long v = sha \<and> build_profile_name v = profile \<and>
        long_version v = ''Version: '' @ be_pkg_version env @ suffix @ newline @ ''Commit SHA: '' @ sha @ newline @
          ''Build Timestamp: '' @ built @ newline @ ''Build Features: '' @ features @ newline @ ''Build Profile: '' @ profile)"
proof -
  let ?out = "target @ ''/'' @ profile @ ''/build/'' @ package @ ''/out''"
  have "?out = (((target @ CHR ''/'' # profile) @ CHR ''/'' # ''build'') @ CHR ''/'' # package) @ CHR ''/'' # ''out''" by simp
  moreover have "rsplit CHR ''/'' \<dots> = ''out'' # package # ''build'' # profile # rsplit CHR ''/'' target"
    using assms(7,8) by (subst rsplit_append | simp)+
  ultimately have profile: "build_profile ?out = Returns profile"
    by (simp only: build_profile_def nth_opt_def) simp
  have slices: "slice_to 7 sha = Returns (take 7 sha)" "slice_to 8 sha = Returns (take 8 sha)"
    using assms(3) by (simp_all add: slice_to_def)
  note vars = assms(1,2,4,5,6,9-11)
  show ?thesis
    unfolding build_main_def with_var_def env_var_def vars sum.case ok_or_simps Let_def slices profile run_bind_simps unwrap_simps
    by (intro exI conjI, rule refl) (simp_all add: reth_hl_version_def Let_def assms(2))
qed

section \<open>An example\<close>

theorem dev_suffix_witness:
  "version_suffix False ''v0.2.0-beta.3-82-g1939939'' ''1939939'' = ''-dev'' \<and>
   version_suffix False ''v0.2.0-beta.3-82-g1939939b'' ''1939939'' = []"
proof -
  have "hex ''1939939bcd''" by (simp add: hex_def)
  from dev_suffix [OF this, of 7 False "''v0.2.0-beta.3-82''"] dev_suffix [OF this, of 8 False "''v0.2.0-beta.3-82''"]
  show ?thesis by (simp add: version_suffix_def Let_def split: if_splits)
qed

definition example_build_env :: "unit build_env" where
  "example_build_env = \<lparr>be_vergen = Ok (), be_var =
     [''VERGEN_GIT_SHA'' \<mapsto> ''1939939bcd'', ''VERGEN_GIT_DIRTY'' \<mapsto> ''false'', ''VERGEN_GIT_DESCRIBE'' \<mapsto> ''v1'',
      ''OUT_DIR'' \<mapsto> ''/t/release/build/p-1/out'', ''VERGEN_BUILD_TIMESTAMP'' \<mapsto> ''now'',
      ''VERGEN_CARGO_FEATURES'' \<mapsto> ''jemalloc'', ''VERGEN_CARGO_TARGET_TRIPLE'' \<mapsto> ''x''], be_pkg_version = ''0.1.0''\<rparr>"

theorem version_strings_witness:
  "\<exists>script. build_main example_build_env = Returns (Ok script) \<and>
     short_version (reth_hl_version (\<lambda>name. case map_of script name of Some x \<Rightarrow> x
       | None \<Rightarrow> the (be_var example_build_env name)) ''linux'') = ''0.1.0 (1939939)''"
proof -
  have suffix: "version_suffix (''false'' = ''true'') ''v1'' (take 7 ''1939939bcd'') = []"
    by (simp add: version_suffix_def ends_with_def)
  have vars: "be_vergen example_build_env = Ok ()" "be_var example_build_env ''VERGEN_GIT_SHA'' = Some ''1939939bcd''"
    "be_var example_build_env ''VERGEN_GIT_DIRTY'' = Some ''false''" "be_var example_build_env ''VERGEN_GIT_DESCRIBE'' = Some ''v1''"
    "be_var example_build_env ''OUT_DIR'' = Some (''/t'' @ ''/'' @ ''release'' @ ''/build/'' @ ''p-1'' @ ''/out'')"
    "be_var example_build_env ''VERGEN_BUILD_TIMESTAMP'' = Some ''now''"
    "be_var example_build_env ''VERGEN_CARGO_FEATURES'' = Some ''jemalloc''"
    "be_var example_build_env ''VERGEN_CARGO_TARGET_TRIPLE'' = Some ''x''" "be_pkg_version example_build_env = ''0.1.0''"
    by (simp_all add: example_build_env_def)
  from version_strings [OF vars(1,2) _ vars(3,4,5) _ _ vars(6,7,8), of "''linux''"]
  obtain script where "build_main example_build_env = Returns (Ok script)"
    "short_version (reth_hl_version (\<lambda>name. case map_of script name of Some x \<Rightarrow> x
       | None \<Rightarrow> the (be_var example_build_env name)) ''linux'') =
      be_pkg_version example_build_env @ version_suffix (''false'' = ''true'') ''v1'' (take 7 ''1939939bcd'') @
        '' ('' @ take 7 ''1939939bcd'' @ '')''"
    unfolding Let_def by (simp del: be_pkg_version_def) blast
  then show ?thesis unfolding suffix vars(9) by auto
qed

end
