(* ===== verification/Import_Engine.thy ===== *)
theory Import_Engine
  imports Block_Import
begin

text \<open>
  The futures of the import service and the engine, running concurrently
  (\<open>src/src/node/network/block_import/service.rs\<close> with \<open>src/src/consensus.rs\<close>). A future of
  \<open>new_payload\<close> or \<open>update_fork_choice\<close> is polled at first until it waits for the engine: it
  has then read the head it needs and put a message in the engine's queue. The engine
  handles one message after the other and answers; polled again, the future completes with
  its outcome. Announcements, polls and the turns of the engine interleave arbitrarily.

  \<open>Block_Import\<close> takes a future that runs as one step. Here that is a theorem, for schedules
  in which a fork choice is polled only when no other fork choice waits in the engine's
  queue; and then the head the engine ends on is the best of the blocks it accepted, in
  whatever order. A lemma shows that two fork choices polled together can undo each other.

  The queue and the answers are those of reth's engine handle, whose \<open>new_payload\<close> and
  \<open>fork_choice_updated\<close> send a message and wait for the reply to it.
\<close>

section \<open>Heads in their order\<close>

datatype chain_head = Head (head_number: u64) (head_hash: b256)

text \<open>A head is better if its number is higher or, at the same height, its hash is lower.\<close>

instantiation chain_head :: linorder
begin

definition less_eq_chain_head :: "chain_head \<Rightarrow> chain_head \<Rightarrow> bool" where
  "x \<le> y \<longleftrightarrow> head_le (head_number x, head_hash x) (head_number y, head_hash y)"

definition less_chain_head :: "chain_head \<Rightarrow> chain_head \<Rightarrow> bool" where
  "x < y \<longleftrightarrow> x \<le> y \<and> \<not> y \<le> (x :: chain_head)"

instance
proof
  fix x y z :: chain_head
  show "x < y \<longleftrightarrow> x \<le> y \<and> \<not> y \<le> x" by (rule less_chain_head_def)
  show "x \<le> x" by (simp add: less_eq_chain_head_def)
  show "x \<le> y \<Longrightarrow> y \<le> z \<Longrightarrow> x \<le> z" by (auto simp: less_eq_chain_head_def)
  show "x \<le> y \<Longrightarrow> y \<le> x \<Longrightarrow> x = y" by (cases x; cases y) (auto simp: less_eq_chain_head_def)
  show "x \<le> y \<or> y \<le> x" by (cases x; cases y) (auto simp: less_eq_chain_head_def)
qed

end

lemma Head_le_iff [simp]: "Head m g \<le> Head n h \<longleftrightarrow> m < n \<or> m = n \<and> h \<le> g"
  by (simp add: less_eq_chain_head_def)

section \<open>Futures and the engine's queue\<close>

datatype engine_msg = EngineNewPayload hl_execution_data | EngineForkchoice forkchoice_state

definition engine_handle ::
  "('g, 'p, 'e) engine \<Rightarrow> engine_msg \<Rightarrow> 'g \<Rightarrow> 'g \<times> (payload_status, 'e) result" where
  "engine_handle env msg g =
     (case msg of EngineNewPayload p \<Rightarrow> en_new_payload env p g | EngineForkchoice s \<Rightarrow> en_fork_choice_updated env s g)"

datatype 'e future_state = Unpolled | AwaitsEngine | Answered "(payload_status, 'e) result" | Completed "outcome option"

text \<open>The futures keep their place, so that a message can name the one that waits for its answer.\<close>

record ('g, 'e) async_import =
  ai_futures :: "(import_task \<times> 'e future_state) list"
  ai_inbox :: "(nat \<times> engine_msg) list"
  ai_engine :: 'g

definition async_new :: "'g \<Rightarrow> ('g, 'e) async_import" where
  "async_new g = \<lparr>ai_futures = [], ai_inbox = [], ai_engine = g\<rparr>"

definition async_on_new_block ::
  "('g, 'p, 'e) engine \<Rightarrow> block_msg \<Rightarrow> peer_id \<Rightarrow> ('g, 'e) async_import \<Rightarrow> ('g, 'e) async_import" where
  "async_on_new_block env block peer_id st =
     st\<lparr>ai_futures := ai_futures st @ map (\<lambda>t. (t, Unpolled)) (tasks_of env block peer_id)\<rparr>"

text \<open>The first poll of a future: the message it sends, or its early return.\<close>

fun first_poll :: "('g, 'p, 'e) engine \<Rightarrow> import_task \<Rightarrow> 'g \<Rightarrow> engine_msg option" where
  "first_poll env (NewPayload block peer_id) g =
     Some (EngineNewPayload (block_to_payload (seal_slow (en_hash_slow env) (msg_hl_block block))))"
| "first_poll env (UpdateForkChoice block peer_id hash number) g =
     (case canonical_head (en_provider env g) hash number of
        Err _ \<Rightarrow> None
      | Ok (head, _) \<Rightarrow> Some (EngineForkchoice
          \<lparr>head_block_hash = head, safe_block_hash = head, finalized_block_hash = head\<rparr>))"

text \<open>A poll after the answer: the \<open>match\<close> on the status, the same in both futures.\<close>

fun answer_outcome :: "import_task \<Rightarrow> (payload_status, 'e) result \<Rightarrow> outcome option" where
  "answer_outcome (NewPayload block peer_id) r = status_outcome block peer_id r"
| "answer_outcome (UpdateForkChoice block peer_id hash number) r = status_outcome block peer_id r"

definition poll_future ::
  "('g, 'p, 'e) engine \<Rightarrow> nat \<Rightarrow> ('g, 'e) async_import \<Rightarrow> ('g, 'e) async_import" where
  "poll_future env i st =
     (if i < length (ai_futures st)
      then case ai_futures st ! i of
        (t, Unpolled) \<Rightarrow>
          (case first_poll env t (ai_engine st) of
             None \<Rightarrow> st\<lparr>ai_futures := (ai_futures st)[i := (t, Completed None)]\<rparr>
           | Some msg \<Rightarrow> st\<lparr>ai_futures := (ai_futures st)[i := (t, AwaitsEngine)],
                            ai_inbox := ai_inbox st @ [(i, msg)]\<rparr>)
      | (t, Answered r) \<Rightarrow> st\<lparr>ai_futures := (ai_futures st)[i := (t, Completed (answer_outcome t r))]\<rparr>
      | _ \<Rightarrow> st
      else st)"

definition engine_turn :: "('g, 'p, 'e) engine \<Rightarrow> ('g, 'e) async_import \<Rightarrow> ('g, 'e) async_import" where
  "engine_turn env st =
     (case ai_inbox st of
        [] \<Rightarrow> st
      | (i, msg) # rest \<Rightarrow>
          let (g, r) = engine_handle env msg (ai_engine st)
          in st\<lparr>ai_futures := (ai_futures st)[i := (fst (ai_futures st ! i), Answered r)],
                ai_inbox := rest, ai_engine := g\<rparr>)"

datatype async_act = Arrives block_msg peer_id | PollFuture nat | EngineTurn

fun async_step :: "('g, 'p, 'e) engine \<Rightarrow> async_act \<Rightarrow> ('g, 'e) async_import \<Rightarrow> ('g, 'e) async_import" where
  "async_step env (Arrives block peer_id) st = async_on_new_block env block peer_id st"
| "async_step env (PollFuture i) st = poll_future env i st"
| "async_step env EngineTurn st = engine_turn env st"

abbreviation async_run :: "('g, 'p, 'e) engine \<Rightarrow> async_act list \<Rightarrow> ('g, 'e) async_import \<Rightarrow> ('g, 'e) async_import" where
  "async_run env \<equiv> fold (async_step env)"

section \<open>Specification\<close>

text \<open>The engine has handled everything that waits.\<close>

definition settle :: "('g, 'p, 'e) engine \<Rightarrow> ('g, 'e) async_import \<Rightarrow> ('g, 'e) async_import" where
  "settle env st = (engine_turn env ^^ length (ai_inbox st)) st"

definition future_outcome :: "import_task \<times> 'e future_state \<Rightarrow> outcome option option" where
  "future_outcome f = (case snd f of Answered r \<Rightarrow> Some (answer_outcome (fst f) r) | Completed x \<Rightarrow> Some x | _ \<Rightarrow> None)"

text \<open>
  A schedule in which a fork choice is polled for the first time only when the engine has
  no other fork choice to handle.
\<close>

definition is_fork_choice :: "import_task \<Rightarrow> bool" where
  "is_fork_choice t = (case t of UpdateForkChoice _ _ _ _ \<Rightarrow> True | _ \<Rightarrow> False)"

definition quiet :: "('g, 'e) async_import \<Rightarrow> bool" where
  "quiet st \<longleftrightarrow> (\<forall>(i, msg) \<in> set (ai_inbox st). case msg of EngineNewPayload _ \<Rightarrow> True | EngineForkchoice _ \<Rightarrow> False)"

definition prompt_act :: "async_act \<Rightarrow> ('g, 'e) async_import \<Rightarrow> bool" where
  "prompt_act a st =
     (case a of PollFuture i \<Rightarrow>
        i < length (ai_futures st) \<longrightarrow>
          (case ai_futures st ! i of (t, Unpolled) \<Rightarrow> is_fork_choice t \<longrightarrow> quiet st | _ \<Rightarrow> True)
      | _ \<Rightarrow> True)"

fun prompt :: "('g, 'p, 'e) engine \<Rightarrow> async_act list \<Rightarrow> ('g, 'e) async_import \<Rightarrow> bool" where
  "prompt env [] st \<longleftrightarrow> True"
| "prompt env (a # acts) st \<longleftrightarrow>
     prompt_act a st \<and> prompt env acts (async_step env a st)"

text \<open>
  The futures of a run in the order in which they are polled for the first time. Polling a
  future again, or one that does not exist, adds nothing.
\<close>

definition polls_first :: "async_act \<Rightarrow> ('g, 'e) async_import \<Rightarrow> nat list" where
  "polls_first a st =
     (case a of PollFuture i \<Rightarrow> if i < length (ai_futures st) \<and> snd (ai_futures st ! i) = Unpolled then [i] else []
      | _ \<Rightarrow> [])"

fun first_polls :: "('g, 'p, 'e) engine \<Rightarrow> async_act list \<Rightarrow> ('g, 'e) async_import \<Rightarrow> nat list" where
  "first_polls env [] st = []"
| "first_polls env (a # acts) st = polls_first a st @ first_polls env acts (async_step env a st)"

text \<open>The tasks run one after the other, each as one step.\<close>

fun run_tasks :: "('g, 'p, 'e) engine \<Rightarrow> import_task list \<Rightarrow> 'g \<Rightarrow> 'g \<times> outcome option list" where
  "run_tasks env [] g = (g, [])"
| "run_tasks env (t # ts) g =
     (let (g', r) = run_task env t g; (g'', rs) = run_tasks env ts g' in (g'', r # rs))"

text \<open>
  What the service relies on. The provider reports the head of the engine. Handling a
  payload does not move the head; a fork choice that is answered as valid moves it to the
  block it names, any other answer leaves it.
\<close>

locale head_engine =
  fixes env :: "('g, 'p, 'e) engine"
    and head :: "'g \<Rightarrow> chain_head"
    and number_of :: "b256 \<Rightarrow> u64"
  assumes provider_best: "best_block_number (en_provider env g) = Ok (head_number (head g))"
    and provider_hash: "block_hash (en_provider env g) (head_number (head g)) = Ok (Some (head_hash (head g)))"
    and head_numbered: "number_of (head_hash (head g)) = head_number (head g)"
    and payload_keeps: "head (fst (en_new_payload env p g)) = head g"
    and fork_choice_valid: "en_fork_choice_updated env s g = (g', Ok Valid) \<Longrightarrow>
      head g' = Head (number_of (head_block_hash s)) (head_block_hash s)"
    and fork_choice_other: "en_fork_choice_updated env s g = (g', r) \<Longrightarrow> r \<noteq> Ok Valid \<Longrightarrow> head g' = head g"


section \<open>Settling\<close>

definition deliver :: "('g, 'p, 'e) engine \<Rightarrow> nat \<times> engine_msg \<Rightarrow> ('g, 'e) async_import \<Rightarrow> ('g, 'e) async_import" where
  "deliver env m st =
     (let (g, r) = engine_handle env (snd m) (ai_engine st)
      in st\<lparr>ai_futures := (ai_futures st)[fst m := (fst (ai_futures st ! fst m), Answered r)], ai_engine := g\<rparr>)"

lemma engine_turn_deliver:
  "ai_inbox st = m # rest \<Longrightarrow> engine_turn env st = deliver env m (st\<lparr>ai_inbox := rest\<rparr>)"
  by (cases m) (simp add: engine_turn_def deliver_def Let_def split: prod.split)

lemma deliver_inbox: "deliver env m (st\<lparr>ai_inbox := q\<rparr>) = (deliver env m st)\<lparr>ai_inbox := q\<rparr>"
  by (simp add: deliver_def Let_def split: prod.split)

lemma map_fst_update: "map fst (xs[i := (fst (xs ! i), y)]) = map fst xs"
  by (cases "i < length xs") (auto simp: nth_list_update intro!: nth_equalityI)

lemma inbox_futures_commute:
  "st\<lparr>ai_futures := fs, ai_inbox := q\<rparr> = st\<lparr>ai_inbox := q, ai_futures := fs\<rparr>"
  by (cases st) simp

lemma deliver_kept [simp]:
  "ai_inbox (deliver env m st) = ai_inbox st" "length (ai_futures (deliver env m st)) = length (ai_futures st)"
  "map fst (ai_futures (deliver env m st)) = map fst (ai_futures st)"
  by (simp_all add: deliver_def Let_def map_fst_update split: prod.split)

lemma settle_eq: "settle env st = fold (deliver env) (ai_inbox st) (st\<lparr>ai_inbox := []\<rparr>)"
proof -
  have "(engine_turn env ^^ length q) (st\<lparr>ai_inbox := q\<rparr>) = fold (deliver env) q (st\<lparr>ai_inbox := []\<rparr>)" for q
  proof (induction q arbitrary: st)
    case (Cons m q)
    have "engine_turn env (st\<lparr>ai_inbox := m # q\<rparr>) = (deliver env m st)\<lparr>ai_inbox := q\<rparr>"
      using engine_turn_deliver [of "st\<lparr>ai_inbox := m # q\<rparr>" m q env] by (simp add: deliver_inbox)
    with Cons.IH [of "deliver env m st"] show ?case
      by (simp add: funpow_swap1 deliver_inbox)
  qed simp
  from this [of "ai_inbox st"] show ?thesis by (simp add: settle_def)
qed

lemma settle_engine_turn: "settle env (engine_turn env st) = settle env st"
proof (cases "ai_inbox st")
  case Nil
  then show ?thesis by (simp add: engine_turn_def)
next
  case (Cons m rest)
  then show ?thesis by (simp add: settle_eq engine_turn_deliver deliver_inbox)
qed

lemma fold_deliver_kept [simp]:
  "ai_inbox (fold (deliver env) ms st) = ai_inbox st"
  "length (ai_futures (fold (deliver env) ms st)) = length (ai_futures st)"
  "map fst (ai_futures (fold (deliver env) ms st)) = map fst (ai_futures st)"
  by (induction ms arbitrary: st) simp_all

lemma settle_kept [simp]:
  "ai_inbox (settle env st) = []" "length (ai_futures (settle env st)) = length (ai_futures st)"
  "map fst (ai_futures (settle env st)) = map fst (ai_futures st)"
  by (simp_all add: settle_eq)

lemma settle_tasks: "fst ` set (ai_futures (settle env st)) = fst ` set (ai_futures st)"
  by (metis settle_kept(3) set_map)

text \<open>A future that does not wait for the engine is not touched, and changing it changes nothing else.\<close>

lemma fold_deliver_other:
  assumes "i \<notin> fst ` set ms"
  shows "ai_futures (fold (deliver env) ms st) ! i = ai_futures st ! i"
    and "fold (deliver env) ms (st\<lparr>ai_futures := (ai_futures st)[i := x]\<rparr>) =
      (fold (deliver env) ms st)\<lparr>ai_futures := (ai_futures (fold (deliver env) ms st))[i := x]\<rparr>"
  using assms
proof (induction ms arbitrary: st)
  case (Cons m ms)
  { case 1
    then have m: "fst m \<noteq> i" "i \<notin> fst ` set ms" by auto
    then show ?case using Cons.IH(1) [of "deliver env m st"] by (simp add: deliver_def Let_def split: prod.split) }
  { case 2
    then have m: "fst m \<noteq> i" "i \<notin> fst ` set ms" by auto
    have "deliver env m (st\<lparr>ai_futures := (ai_futures st)[i := x]\<rparr>) =
        (deliver env m st)\<lparr>ai_futures := (ai_futures (deliver env m st))[i := x]\<rparr>"
      using m(1) by (simp add: deliver_def Let_def list_update_swap split: prod.split)
    then show ?case using Cons.IH(2) [OF m(2), of "deliver env m st"] by simp }
qed simp_all

lemma settle_other:
  assumes "i \<notin> fst ` set (ai_inbox st)"
  shows "ai_futures (settle env st) ! i = ai_futures st ! i"
    and "settle env (st\<lparr>ai_futures := (ai_futures st)[i := x]\<rparr>) =
      (settle env st)\<lparr>ai_futures := (ai_futures (settle env st))[i := x]\<rparr>"
  using fold_deliver_other [OF assms, of env "st\<lparr>ai_inbox := []\<rparr>"] by (simp_all add: settle_eq inbox_futures_commute)

lemma settle_send:
  assumes "i \<notin> fst ` set (ai_inbox st)" "i < length (ai_futures st)"
  shows "settle env (st\<lparr>ai_futures := (ai_futures st)[i := (t, AwaitsEngine)], ai_inbox := ai_inbox st @ [(i, msg)]\<rparr>) =
    (let (g, r) = engine_handle env msg (ai_engine (settle env st))
     in (settle env st)\<lparr>ai_futures := (ai_futures (settle env st))[i := (t, Answered r)], ai_engine := g\<rparr>)"
proof -
  have "settle env (st\<lparr>ai_futures := (ai_futures st)[i := (t, AwaitsEngine)], ai_inbox := ai_inbox st @ [(i, msg)]\<rparr>) =
      deliver env (i, msg) (settle env (st\<lparr>ai_futures := (ai_futures st)[i := (t, AwaitsEngine)]\<rparr>))"
    by (simp add: settle_eq)
  also have "\<dots> = (let (g, r) = engine_handle env msg (ai_engine (settle env st))
     in (settle env st)\<lparr>ai_futures := (ai_futures (settle env st))[i := (t, Answered r)], ai_engine := g\<rparr>)"
    unfolding settle_other(2) [OF assms(1)] using assms(2) by (simp add: deliver_def Let_def split: prod.split)
  finally show ?thesis .
qed

lemma fold_deliver_append:
  assumes "\<forall>m \<in> set ms. fst m < length (ai_futures st)"
  shows "fold (deliver env) ms (st\<lparr>ai_futures := ai_futures st @ fs\<rparr>) =
    (fold (deliver env) ms st)\<lparr>ai_futures := ai_futures (fold (deliver env) ms st) @ fs\<rparr>"
  using assms
proof (induction ms arbitrary: st)
  case (Cons m ms)
  then have "deliver env m (st\<lparr>ai_futures := ai_futures st @ fs\<rparr>) =
      (deliver env m st)\<lparr>ai_futures := ai_futures (deliver env m st) @ fs\<rparr>"
    by (simp add: deliver_def Let_def list_update_append nth_append split: prod.split)
  with Cons show ?case by simp
qed simp

lemma settle_append:
  assumes "\<forall>m \<in> set (ai_inbox st). fst m < length (ai_futures st)"
  shows "settle env (st\<lparr>ai_futures := ai_futures st @ fs\<rparr>) =
    (settle env st)\<lparr>ai_futures := ai_futures (settle env st) @ fs\<rparr>"
  using fold_deliver_append [of "ai_inbox st" "st\<lparr>ai_inbox := []\<rparr>" env fs] assms by (simp add: settle_eq inbox_futures_commute)


section \<open>The asynchronous run is a sequence of tasks\<close>

lemma run_tasks_snoc:
  "run_tasks env (ts @ [t]) g =
     (let (g', rs) = run_tasks env ts g; (g'', r) = run_task env t g' in (g'', rs @ [r]))"
  by (induction ts arbitrary: g) (simp_all add: Let_def split: prod.split)

text \<open>The messages that wait belong to the futures that wait, one each.\<close>

definition inbox_ok :: "('g, 'e) async_import \<Rightarrow> bool" where
  "inbox_ok st \<longleftrightarrow> distinct (map fst (ai_inbox st)) \<and>
     fst ` set (ai_inbox st) = {i. i < length (ai_futures st) \<and> snd (ai_futures st ! i) = AwaitsEngine}"

definition polled :: "('g, 'e) async_import \<Rightarrow> nat set" where
  "polled st = {i. i < length (ai_futures st) \<and> snd (ai_futures st ! i) \<noteq> Unpolled}"

text \<open>
  The invariant: in the order \<open>order\<close> of their first polls, the tasks run one after the
  other take the engine to where it will be when it has handled what waits, with the
  outcomes the futures will have.
\<close>

definition sequential ::
  "('g, 'p, 'e) engine \<Rightarrow> 'g \<Rightarrow> nat list \<Rightarrow> ('g, 'e) async_import \<Rightarrow> bool" where
  "sequential env g0 order st \<longleftrightarrow> distinct order \<and> set order = polled st \<and>
     run_tasks env (map (\<lambda>i. fst (ai_futures st ! i)) order) g0 =
       (ai_engine (settle env st), map (\<lambda>i. the (future_outcome (ai_futures (settle env st) ! i))) order)"

lemma inbox_ok_not_waiting:
  assumes "inbox_ok st" "snd (ai_futures st ! i) \<noteq> AwaitsEngine"
  shows "i \<notin> fst ` set (ai_inbox st)"
  using assms by (simp add: inbox_ok_def)

lemma inbox_ok_bound: "inbox_ok st \<Longrightarrow> \<forall>m \<in> set (ai_inbox st). fst m < length (ai_futures st)"
  by (auto simp: inbox_ok_def)

lemma async_step_inbox_ok:
  assumes "inbox_ok st"
  shows "inbox_ok (async_step env act st)"
proof (cases act)
  case (Arrives b p)
  with assms show ?thesis by (auto simp: inbox_ok_def async_on_new_block_def nth_append)
next
  case (PollFuture i)
  show ?thesis
  proof (cases "i < length (ai_futures st)")
    case True
    obtain t s where f: "ai_futures st ! i = (t, s)" by force
    show ?thesis
    proof (cases s)
      case Unpolled
      then have "i \<notin> fst ` set (ai_inbox st)" using inbox_ok_not_waiting [OF assms] f by simp
      with assms PollFuture True f Unpolled show ?thesis
        by (cases "first_poll env t (ai_engine st)") (auto simp: poll_future_def inbox_ok_def nth_list_update)
    qed (use assms PollFuture True f in \<open>auto simp: poll_future_def inbox_ok_def nth_list_update\<close>)
  qed (use assms PollFuture in \<open>simp add: poll_future_def\<close>)
next
  case EngineTurn
  show ?thesis
  proof (cases "ai_inbox st")
    case (Cons m rest)
    have "fst ` set rest = {i. i < length (ai_futures st) \<and> snd (ai_futures st ! i) = AwaitsEngine} - {fst m}"
    proof -
      have "fst m \<notin> fst ` set rest" "insert (fst m) (fst ` set rest) =
          {i. i < length (ai_futures st) \<and> snd (ai_futures st ! i) = AwaitsEngine}"
        using assms Cons by (simp_all add: inbox_ok_def)
      then show ?thesis by blast
    qed
    moreover obtain g r where "engine_handle env (snd m) (ai_engine st) = (g, r)" by force
    moreover have "{i. i < length fs \<and> snd (fs[k := (x, Answered r)] ! i) = AwaitsEngine} =
        {i. i < length fs \<and> snd (fs ! i) = AwaitsEngine} - {k}" for fs and k :: nat and x :: import_task
      by (cases "k < length fs") (auto simp: nth_list_update split: if_splits)
    ultimately show ?thesis
      using assms Cons EngineTurn by (simp add: engine_turn_deliver deliver_def inbox_ok_def)
  qed (use assms EngineTurn in \<open>simp add: engine_turn_def\<close>)
qed


context head_engine
begin

lemma canonical_head_eq:
  "canonical_head (en_provider env g) h n =
     Ok (if n > head_number (head g) then h else if n = head_number (head g) then min h (head_hash (head g))
         else head_hash (head g), head_hash (head g))"
  by (simp add: canonical_head_def provider_best provider_hash)

lemma quiet_settle_head:
  assumes "quiet st"
  shows "head (ai_engine (settle env st)) = head (ai_engine st)"
proof -
  have "head (ai_engine (fold (deliver env) ms s)) = head (ai_engine s)"
    if "\<forall>(i, msg) \<in> set ms. case msg of EngineNewPayload _ \<Rightarrow> True | EngineForkchoice _ \<Rightarrow> False" for ms and s :: "('g, 'e) async_import"
    using that
  proof (induction ms arbitrary: s)
    case (Cons m ms)
    then obtain i p where m: "m = (i, EngineNewPayload p)" by (cases m) (auto split: engine_msg.splits)
    have "head (ai_engine (deliver env m s)) = head (ai_engine s)"
      using payload_keeps [of p "ai_engine s"]
      by (cases "en_new_payload env p (ai_engine s)") (simp add: m deliver_def engine_handle_def)
    with Cons show ?case by simp
  qed simp
  from this [of "ai_inbox st" "st\<lparr>ai_inbox := []\<rparr>"] assms show ?thesis by (simp add: settle_eq quiet_def)
qed

text \<open>A task is its first poll, the engine, and its second poll.\<close>

lemma run_task_polls:
  assumes "is_fork_choice t \<longrightarrow> head g = head g'"
  shows "run_task env t g = (case first_poll env t g' of None \<Rightarrow> (g, None)
    | Some msg \<Rightarrow> map_prod id (answer_outcome t) (engine_handle env msg g))"
proof (cases t)
  case (NewPayload b p)
  then show ?thesis by (simp add: run_new_payload_def engine_handle_def map_prod_def split: prod.split)
next
  case (UpdateForkChoice b p h n)
  with assms show ?thesis
    by (simp add: run_update_fork_choice_def canonical_head_eq engine_handle_def is_fork_choice_def map_prod_def
        split: prod.split)
qed

lemma poll_first_sequential:
  assumes "sequential env g0 order st" "inbox_ok st" "i < length (ai_futures st)" "ai_futures st ! i = (t, Unpolled)"
    and "is_fork_choice t \<longrightarrow> quiet st"
  shows "sequential env g0 (order @ [i]) (poll_future env i st)"
proof -
  let ?new = "poll_future env i st" and ?s = "settle env st"
  have fresh: "i \<notin> set order" and idle: "i \<notin> fst ` set (ai_inbox st)"
    using assms(1) inbox_ok_not_waiting [OF assms(2), of i] assms(4) by (auto simp: sequential_def polled_def)
  have task: "run_task env t (ai_engine ?s) = (case first_poll env t (ai_engine st) of None \<Rightarrow> (ai_engine ?s, None)
      | Some msg \<Rightarrow> map_prod id (answer_outcome t) (engine_handle env msg (ai_engine ?s)))"
    using assms(5) quiet_settle_head by (intro run_task_polls) blast
  have new: "ai_engine (settle env ?new) = fst (run_task env t (ai_engine ?s)) \<and>
      (\<exists>x. ai_futures (settle env ?new) = (ai_futures ?s)[i := (t, x)] \<and>
         future_outcome (t, x) = Some (snd (run_task env t (ai_engine ?s))))"
  proof (cases "first_poll env t (ai_engine st)")
    case None
    then have "settle env ?new = ?s\<lparr>ai_futures := (ai_futures ?s)[i := (t, Completed None)]\<rparr>"
      using assms(3,4) settle_other(2) [OF idle] by (simp add: poll_future_def)
    with None task show ?thesis by (auto simp: future_outcome_def)
  next
    case (Some msg)
    obtain g r where gr: "engine_handle env msg (ai_engine ?s) = (g, r)" by force
    from Some have "settle env ?new = ?s\<lparr>ai_futures := (ai_futures ?s)[i := (t, Answered r)], ai_engine := g\<rparr>"
      using assms(3,4) settle_send [OF idle assms(3), where t = t and msg = msg and env = env] gr by (simp add: poll_future_def)
    with Some task gr show ?thesis by (auto simp: future_outcome_def)
  qed
  have futures: "map fst (ai_futures ?new) = map fst (ai_futures st)" "polled ?new = insert i (polled st)"
    using assms(3,4) map_fst_update [of "ai_futures st" i]
    by (auto simp: poll_future_def polled_def nth_list_update split: option.split)
  have order: "\<forall>j \<in> set order. j < length (ai_futures st) \<and> j \<noteq> i" using assms(1) fresh by (auto simp: sequential_def polled_def)
  have "map (\<lambda>j. fst (ai_futures ?new ! j)) order = map (\<lambda>j. fst (ai_futures st ! j)) order"
    using order futures(1) by (intro map_cong) (auto, metis length_map nth_map)
  moreover have "fst (ai_futures ?new ! i) = t" using futures(1) assms(3,4) by (metis fst_conv length_map nth_map)
  ultimately have tasks: "map (\<lambda>j. fst (ai_futures ?new ! j)) (order @ [i]) = map (\<lambda>j. fst (ai_futures st ! j)) order @ [t]"
    by simp
  have "run_tasks env (map (\<lambda>j. fst (ai_futures ?new ! j)) (order @ [i])) g0 =
      (let (g, r) = run_task env t (ai_engine ?s) in
       (g, map (\<lambda>j. the (future_outcome (ai_futures ?s ! j))) order @ [r]))"
    unfolding tasks run_tasks_snoc using assms(1) by (simp add: sequential_def)
  moreover from new order have "map (\<lambda>j. the (future_outcome (ai_futures (settle env ?new) ! j))) (order @ [i]) =
      map (\<lambda>j. the (future_outcome (ai_futures ?s ! j))) order @ [snd (run_task env t (ai_engine ?s))]"
    using assms(3) by auto
  ultimately show ?thesis
    using assms(1) fresh futures(2) new by (auto simp: sequential_def split: prod.split)
qed

text \<open>The other steps change neither the order nor what the engine will do.\<close>

lemma arrives_sequential:
  assumes "sequential env g0 order st" "inbox_ok st"
  shows "sequential env g0 order (async_on_new_block env b p st)"
proof -
  let ?fs = "map (\<lambda>t. (t, Unpolled)) (tasks_of env b p)"
  have settled: "settle env (async_on_new_block env b p st) =
      (settle env st)\<lparr>ai_futures := ai_futures (settle env st) @ ?fs\<rparr>"
    unfolding async_on_new_block_def by (rule settle_append [OF inbox_ok_bound [OF assms(2)]])
  have "x \<in> polled (async_on_new_block env b p st) \<longleftrightarrow> x \<in> polled st" for x
    by (cases "x < length (ai_futures st)") (auto simp: polled_def async_on_new_block_def nth_append)
  then have polled: "polled (async_on_new_block env b p st) = polled st" by blast
  have "\<forall>i \<in> set order. i < length (ai_futures st)" using assms(1) by (auto simp: sequential_def polled_def)
  then have maps: "map (\<lambda>i. fst (ai_futures (async_on_new_block env b p st) ! i)) order = map (\<lambda>i. fst (ai_futures st ! i)) order"
    "map (\<lambda>i. the (future_outcome (ai_futures (settle env (async_on_new_block env b p st)) ! i))) order =
     map (\<lambda>i. the (future_outcome (ai_futures (settle env st) ! i))) order"
    unfolding settled by (simp_all add: async_on_new_block_def nth_append)
  show ?thesis unfolding sequential_def maps polled using assms(1) by (simp add: sequential_def settled)
qed

lemma poll_again_sequential:
  assumes "sequential env g0 order st" "inbox_ok st" "i < length (ai_futures st)" "ai_futures st ! i = (t, Answered r)"
  shows "sequential env g0 order (poll_future env i st)"
proof -
  have idle: "i \<notin> fst ` set (ai_inbox st)" using inbox_ok_not_waiting [OF assms(2), of i] assms(4) by simp
  have settled: "settle env (poll_future env i st) =
      (settle env st)\<lparr>ai_futures := (ai_futures (settle env st))[i := (t, Completed (answer_outcome t r))]\<rparr>"
    using assms(3,4) settle_other(2) [OF idle] by (simp add: poll_future_def)
  have same: "ai_futures (settle env st) ! i = (t, Answered r)" using settle_other(1) [OF idle] assms(4) by simp
  have "fst (ai_futures (poll_future env i st) ! j) = fst (ai_futures st ! j)" for j
    using assms(3,4) by (cases "i = j") (simp_all add: poll_future_def)
  moreover have "future_outcome (ai_futures (settle env (poll_future env i st)) ! j) =
      future_outcome (ai_futures (settle env st) ! j)" for j
    unfolding settled using same assms(3) by (cases "i = j") (auto simp: future_outcome_def)
  moreover have "polled (poll_future env i st) = polled st"
    using assms(3,4) by (auto simp: polled_def poll_future_def nth_list_update)
  ultimately show ?thesis using assms(1) by (simp add: sequential_def settled)
qed

lemma engine_turn_sequential:
  assumes "sequential env g0 order st" "inbox_ok st"
  shows "sequential env g0 order (engine_turn env st)"
proof (cases "ai_inbox st")
  case (Cons m rest)
  have "fst m \<in> fst ` set (ai_inbox st)" using Cons by simp
  then have waits: "fst m < length (ai_futures st)" "snd (ai_futures st ! fst m) = AwaitsEngine"
    using assms(2) unfolding inbox_ok_def by blast+
  obtain g r where gr: "engine_handle env (snd m) (ai_engine st) = (g, r)" by force
  have futures: "ai_futures (engine_turn env st) = (ai_futures st)[fst m := (fst (ai_futures st ! fst m), Answered r)]"
    using Cons gr by (simp add: engine_turn_deliver deliver_def)
  then have "polled (engine_turn env st) = polled st"
    using waits by (auto simp: polled_def nth_list_update)
  moreover have "fst (ai_futures (engine_turn env st) ! j) = fst (ai_futures st ! j)" for j
    using waits(1) by (cases "fst m = j") (simp_all add: futures)
  ultimately show ?thesis using assms(1) by (simp add: sequential_def settle_engine_turn)
qed (use assms in \<open>simp add: engine_turn_def\<close>)

lemma async_step_sequential:
  assumes "sequential env g0 order st" "inbox_ok st" "prompt_act act st"
  shows "sequential env g0 (order @ polls_first act st) (async_step env act st)"
proof (cases act)
  case (Arrives b p)
  with arrives_sequential [OF assms(1,2)] show ?thesis by (simp add: polls_first_def)
next
  case EngineTurn
  with engine_turn_sequential [OF assms(1,2)] show ?thesis by (simp add: polls_first_def)
next
  case (PollFuture i)
  consider (new) t where "i < length (ai_futures st)" "ai_futures st ! i = (t, Unpolled)"
    | (again) t r where "i < length (ai_futures st)" "ai_futures st ! i = (t, Answered r)"
    | (idle) "poll_future env i st = st" "\<not> (i < length (ai_futures st) \<and> snd (ai_futures st ! i) = Unpolled)"
    by (cases "ai_futures st ! i"; cases "snd (ai_futures st ! i)") (force simp: poll_future_def)+
  then show ?thesis
  proof cases
    case new
    with poll_first_sequential [OF assms(1,2) new] assms(3) PollFuture show ?thesis
      by (simp add: prompt_act_def polls_first_def)
  next
    case again
    from poll_again_sequential [OF assms(1,2) this] again PollFuture show ?thesis by (simp add: polls_first_def)
  next
    case idle
    with assms(1) PollFuture show ?thesis by (auto simp: polls_first_def)
  qed
qed

lemma async_run_sequential:
  assumes "prompt env acts st" "sequential env g0 order st" "inbox_ok st"
  shows "sequential env g0 (order @ first_polls env acts st) (async_run env acts st)"
  using assms
proof (induction acts arbitrary: st order)
  case (Cons a acts)
  from Cons.prems(1) have "prompt_act a st" by simp
  from async_step_sequential [OF Cons.prems(2,3) this]
  have "sequential env g0 (order @ polls_first a st) (async_step env a st)" .
  from Cons.IH [OF _ this async_step_inbox_ok [OF Cons.prems(3)]] Cons.prems(1) show ?case by simp
qed simp

end

lemma async_new_ok: "inbox_ok (async_new g)" "sequential env g [] (async_new g)"
  by (simp_all add: inbox_ok_def sequential_def polled_def async_new_def settle_eq)

section \<open>The head\<close>

text \<open>The blocks whose fork choice the engine accepted.\<close>

definition accepted_head :: "import_task \<times> outcome option \<Rightarrow> chain_head list" where
  "accepted_head x =
     (case x of (UpdateForkChoice b p h n, Some oc) \<Rightarrow> (case oc_result oc of Ok _ \<Rightarrow> [Head n h] | Err _ \<Rightarrow> []) | _ \<Rightarrow> [])"

definition accepted_heads :: "('g, 'e) async_import \<Rightarrow> chain_head set" where
  "accepted_heads st = (\<Union>f \<in> set (ai_futures st). case future_outcome f of None \<Rightarrow> {} | Some r \<Rightarrow> set (accepted_head (fst f, r)))"

context head_engine
begin

text \<open>A task moves the head to the better of the old one and the block it is for.\<close>

lemma run_task_head:
  assumes "run_task env t g = (g', r)" "case t of UpdateForkChoice b p h n \<Rightarrow> number_of h = n | _ \<Rightarrow> True"
  shows "head g' = fold max (accepted_head (t, r)) (head g)"
proof (cases t)
  case (NewPayload b p)
  with assms payload_keeps [of "block_to_payload (seal_slow (en_hash_slow env) (msg_hl_block b))" g] show ?thesis
    by (auto simp: run_new_payload_def accepted_head_def split: prod.splits)
next
  case (UpdateForkChoice b p h n)
  let ?old = "head g"
  let ?h = "if n > head_number ?old then h else if n = head_number ?old then min h (head_hash ?old) else head_hash ?old"
  obtain s where s: "en_fork_choice_updated env
      \<lparr>head_block_hash = ?h, safe_block_hash = ?h, finalized_block_hash = ?h\<rparr> g = (g', s)" "r = status_outcome b p s"
    using assms(1) UpdateForkChoice
    by (auto simp: run_update_fork_choice_def canonical_head_eq Let_def simp del: if_split split: prod.splits)
  show ?thesis
  proof (cases "s = Ok Valid")
    case True
    with fork_choice_valid s have "head g' = Head (number_of ?h) ?h" by fastforce
    also have "\<dots> = max (Head n h) ?old"
      using assms(2) UpdateForkChoice head_numbered [of g] by (cases ?old) (auto simp: max_def min_def)
    finally show ?thesis using True s(2) UpdateForkChoice by (simp add: accepted_head_def status_outcome_def)
  next
    case False
    with fork_choice_other [OF s(1)] s(2) UpdateForkChoice show ?thesis
      by (auto simp: accepted_head_def status_outcome_def split: sum.splits payload_status.splits)
  qed
qed

lemma run_tasks_head:
  assumes "run_tasks env ts g = (g', rs)" "\<forall>t \<in> set ts. case t of UpdateForkChoice b p h n \<Rightarrow> number_of h = n | _ \<Rightarrow> True"
  shows "head g' = fold max (concat (map accepted_head (zip ts rs))) (head g)"
  using assms
proof (induction ts arbitrary: g rs)
  case (Cons t ts)
  obtain g1 r1 where one: "run_task env t g = (g1, r1)" by force
  with Cons.prems(1) obtain rs' where rest: "run_tasks env ts g1 = (g', rs')" "rs = r1 # rs'"
    by (auto simp: Let_def split: prod.splits)
  have "head g1 = fold max (accepted_head (t, r1)) (head g)" using run_task_head [OF one] Cons.prems(2) by simp
  with Cons.IH [OF rest(1)] Cons.prems(2) show ?case by (simp add: rest(2))
qed simp

end


lemma async_run_inbox_ok: "inbox_ok st \<Longrightarrow> inbox_ok (async_run env acts st)"
  by (induction acts arbitrary: st) (simp_all add: async_step_inbox_ok)

text \<open>A settled state: nothing waits, so that every future that was polled has its outcome.\<close>

lemma settle_invariant:
  assumes "inbox_ok st" "P st" and step: "\<And>s. inbox_ok s \<Longrightarrow> P s \<Longrightarrow> P (engine_turn env s)"
  shows "inbox_ok (settle env st) \<and> P (settle env st)"
proof -
  have "inbox_ok ((engine_turn env ^^ k) st) \<and> P ((engine_turn env ^^ k) st)" for k
  proof (induction k)
    case (Suc k)
    then show ?case using async_step_inbox_ok [where act = EngineTurn and env = env] step by simp
  qed (use assms in simp)
  then show ?thesis by (simp add: settle_def)
qed

lemma settle_settle [simp]: "settle env (settle env st) = settle env st"
  by (simp add: settle_def [of env "settle env st"])

lemma settled_outcome:
  assumes "inbox_ok st" "ai_inbox st = []" "i \<in> polled st"
  shows "future_outcome (ai_futures st ! i) \<noteq> None"
  using assms by (auto simp: inbox_ok_def polled_def future_outcome_def split: future_state.splits)

lemma UN_set_nth: "(\<Union>x \<in> set xs. F x) = (\<Union>i \<in> {..< length xs}. F (xs ! i))"
  by (auto simp: set_conv_nth)

lemma accepted_heads_order:
  assumes "inbox_ok st" "ai_inbox st = []" "set order = polled st"
  shows "accepted_heads st = set (concat (map accepted_head (zip (map (\<lambda>i. fst (ai_futures st ! i)) order)
    (map (\<lambda>i. the (future_outcome (ai_futures st ! i))) order))))"
proof -
  let ?acc = "\<lambda>i. case future_outcome (ai_futures st ! i) of None \<Rightarrow> {} | Some r \<Rightarrow> set (accepted_head (fst (ai_futures st ! i), r))"
  have "accepted_heads st = (\<Union>i \<in> {..< length (ai_futures st)}. ?acc i)"
    unfolding accepted_heads_def by (rule UN_set_nth)
  also have "\<dots> = (\<Union>i \<in> polled st. ?acc i)"
    by (auto simp: polled_def future_outcome_def)
  also have "\<dots> = (\<Union>i \<in> polled st. set (accepted_head (fst (ai_futures st ! i), the (future_outcome (ai_futures st ! i)))))"
    by (intro SUP_cong) (use settled_outcome [OF assms(1,2)] in fastforce)+
  finally show ?thesis by (simp add: zip_map_map zip_same_conv_map o_def assms(3))
qed

text \<open>The futures are those of the blocks that arrived.\<close>

lemma async_step_tasks:
  "fst ` set (ai_futures (async_step env act st)) =
     fst ` set (ai_futures st) \<union> (case act of Arrives b p \<Rightarrow> set (tasks_of env b p) | _ \<Rightarrow> {})"
proof (cases act)
  case (Arrives b p)
  then show ?thesis by (force simp: async_on_new_block_def)
next
  case (PollFuture i)
  have "map fst (ai_futures (poll_future env i st)) = map fst (ai_futures st)"
  proof (cases "ai_futures st ! i")
    case (Pair t s)
    then have "map fst ((ai_futures st)[i := (t, x)]) = map fst (ai_futures st)" for x
      using map_fst_update [of "ai_futures st" i x] by simp
    with Pair show ?thesis
      by (cases s; cases "first_poll env t (ai_engine st)") (simp_all add: poll_future_def)
  qed
  from arg_cong [OF this, of set] PollFuture show ?thesis by simp
next
  case EngineTurn
  have "map fst (ai_futures (engine_turn env st)) = map fst (ai_futures st)"
    by (cases "ai_inbox st") (simp_all add: engine_turn_deliver deliver_inbox, simp add: engine_turn_def)
  from arg_cong [OF this, of set] EngineTurn show ?thesis by simp
qed

lemma async_run_tasks:
  "fst ` set (ai_futures (async_run env acts st)) =
     fst ` set (ai_futures st) \<union> (\<Union>act \<in> set acts. case act of Arrives b p \<Rightarrow> set (tasks_of env b p) | _ \<Rightarrow> {})"
  by (induction acts arbitrary: st) (auto simp: async_step_tasks)

section \<open>Properties\<close>

text \<open>
  C14. The futures of the import service, interleaved with the engine and with each other, do
  what the tasks do when each runs as one step. For every schedule in which a fork choice is
  polled only when no other one waits in the engine's queue, take the futures in the order
  of their first polls, each once: their tasks, run one after the other in this order,
  take the engine to the state it reaches when it has handled what waits, and return the
  outcomes the futures have then.
\<close>

theorem async_refines_tasks:
  assumes "head_engine env head number_of" "prompt env acts (async_new g)"
  shows "distinct (first_polls env acts (async_new g)) \<and>
    set (first_polls env acts (async_new g)) = polled (async_run env acts (async_new g)) \<and>
    run_tasks env (map (\<lambda>i. fst (ai_futures (async_run env acts (async_new g)) ! i)) (first_polls env acts (async_new g))) g =
      (ai_engine (settle env (async_run env acts (async_new g))),
       map (\<lambda>i. the (future_outcome (ai_futures (settle env (async_run env acts (async_new g))) ! i)))
         (first_polls env acts (async_new g)))"
  using head_engine.async_run_sequential [OF assms async_new_ok(2,1)] by (simp add: sequential_def)

text \<open>
  C6. The head is elected correctly by the concurrent service. Under every schedule of
  announcements, polls and turns of the engine in which a fork choice is polled only when no
  other one waits in the engine's queue, the head of the engine, once it has
  handled what waits, is the best of the head it started from and the announced blocks whose
  fork choice it accepted: the highest number, and at one height the lowest hash. So the
  head does not depend on the order of the announcements or of the imports.
\<close>

theorem import_elects_best_head:
  assumes "head_engine env head number_of" "prompt env acts (async_new g)"
    and "\<And>b p. Arrives b p \<in> set acts \<Longrightarrow>
      number_of (en_hash_slow env (block_header (msg_hl_block b))) = hdr_number (block_header (msg_hl_block b))"
  shows "head (ai_engine (settle env (async_run env acts (async_new g)))) =
      Max (insert (head g) (accepted_heads (settle env (async_run env acts (async_new g))))) \<and>
    accepted_heads (settle env (async_run env acts (async_new g))) \<subseteq>
      {Head (hdr_number hdr) (en_hash_slow env hdr) | hdr. \<exists>b p. Arrives b p \<in> set acts \<and> hdr = block_header (msg_hl_block b)}"
proof -
  let ?st = "async_run env acts (async_new g)" and ?s = "settle env (async_run env acts (async_new g))"
  have ok: "inbox_ok ?st" by (rule async_run_inbox_ok [OF async_new_ok(1)])
  obtain order where "sequential env g order ?st"
    using head_engine.async_run_sequential [OF assms(1,2) async_new_ok(2,1)] by blast
  with settle_invariant [OF ok, of "sequential env g order" env] head_engine.engine_turn_sequential [OF assms(1)]
  have s: "inbox_ok ?s" "sequential env g order ?s" by blast+
  have tasks: "fst ` set (ai_futures ?s) = (\<Union>act \<in> set acts. case act of Arrives b p \<Rightarrow> set (tasks_of env b p) | _ \<Rightarrow> {})"
    using async_run_tasks [of env acts "async_new g"] by (simp only: settle_tasks) (simp add: async_new_def)
  have arrived: "\<exists>b p. Arrives b p \<in> set acts \<and> t \<in> set (tasks_of env b p)" if "t \<in> fst ` set (ai_futures ?s)" for t
  proof -
    from that obtain act where act: "act \<in> set acts" "t \<in> (case act of Arrives b p \<Rightarrow> set (tasks_of env b p) | _ \<Rightarrow> {})"
      unfolding tasks by blast
    show ?thesis by (cases act) (use act in auto)
  qed
  let ?ts = "map (\<lambda>i. fst (ai_futures ?s ! i)) order"
  let ?rs = "map (\<lambda>i. the (future_outcome (ai_futures ?s ! i))) order"
  have run: "run_tasks env ?ts g = (ai_engine ?s, ?rs)" and order: "set order = polled ?s"
    using s(2) by (simp_all add: sequential_def)
  have "set ?ts \<subseteq> fst ` set (ai_futures ?s)" using order by (auto simp: polled_def)
  then have "\<forall>t \<in> set ?ts. case t of UpdateForkChoice b p h n \<Rightarrow> number_of h = n | _ \<Rightarrow> True"
    using arrived assms(3) by (fastforce simp: tasks_of_def Let_def seal_slow_def split: import_task.splits)
  from head_engine.run_tasks_head [OF assms(1) run this]
  have "head (ai_engine ?s) = Max (insert (head g) (set (concat (map accepted_head (zip ?ts ?rs)))))"
    using Max.set_eq_fold [of "head g" "concat (map accepted_head (zip ?ts ?rs))"] by simp
  then have "head (ai_engine ?s) = Max (insert (head g) (accepted_heads ?s))"
    using accepted_heads_order [OF s(1) _ order] by simp
  moreover have "\<exists>b p. Arrives b p \<in> set acts \<and>
      x = Head (hdr_number (block_header (msg_hl_block b))) (en_hash_slow env (block_header (msg_hl_block b)))"
    if "x \<in> accepted_heads ?s" for x
  proof -
    from that obtain f b p h n where f: "f \<in> set (ai_futures ?s)" "fst f = UpdateForkChoice b p h n" "x = Head n h"
      by (auto simp: accepted_heads_def accepted_head_def split: option.splits import_task.splits sum.splits)
    have "fst f \<in> fst ` set (ai_futures ?s)" using f(1) by (rule imageI)
    from arrived [OF this] f show ?thesis by (auto simp: tasks_of_def Let_def seal_slow_def)
  qed
  ultimately show ?thesis by blast
qed

section \<open>An example\<close>

text \<open>
  An engine that knows the blocks it was given and follows a fork choice to a block it knows.
  Hashes tell the height: below 100 they are of height 0, above of height 1.
\<close>

definition example_number :: "b256 \<Rightarrow> u64" where
  "example_number h = (if h < 100 then 0 else 1)"

definition example_head_engine :: "(b256 \<times> b256 list, unit, unit) engine" where
  "example_head_engine = \<lparr>en_hash_slow = (\<lambda>hdr. 100 + ucast (timestamp hdr)),
     en_new_payload = (\<lambda>p (h, known). ((h, payload_block_hash (\<lambda>hdr. 100 + ucast (timestamp hdr)) p # known), Ok Valid)),
     en_fork_choice_updated = (\<lambda>s (h, known). if head_block_hash s \<in> set (h # known)
        then ((head_block_hash s, known), Ok Valid) else ((h, known), Ok Syncing)),
     en_provider = (\<lambda>(h, known). provider_at (example_number h, h))\<rparr>"

interpretation example_heads: head_engine example_head_engine "\<lambda>(h, _). Head (example_number h) h" example_number
  by unfold_locales
    (auto simp: example_head_engine_def provider_at_def split: prod.splits if_splits)

definition sibling :: "u64 \<Rightarrow> block_msg" where
  "sibling t = \<lparr>msg_hash = 100 + ucast t, msg_block = HlNewBlock \<lparr>nb_block = \<lparr>block_header = announced_header\<lparr>timestamp := t\<rparr>,
     block_body = \<lparr>body_inner = \<lparr>transactions = [], ommers = [], withdrawals = None\<rparr>, sidecars = None,
       read_precompile_calls = None, highest_precompile_address = None\<rparr>\<rparr>, nb_td = 0\<rparr>\<rparr>"

definition patient_schedule :: "async_act list" where
  "patient_schedule = [Arrives (sibling 1) 9, Arrives (sibling 2) 9, PollFuture 0, PollFuture 2, PollFuture 3,
     EngineTurn, EngineTurn, EngineTurn, PollFuture 1]"

definition hasty_schedule :: "async_act list" where
  "hasty_schedule = [Arrives (sibling 1) 9, Arrives (sibling 2) 9, PollFuture 0, PollFuture 2, PollFuture 1, PollFuture 3]"

lemma patient_prompt: "prompt example_head_engine patient_schedule (async_new (5, []))"
  by code_simp

lemma patient_result:
  "accepted_heads (settle example_head_engine (async_run example_head_engine patient_schedule (async_new (5, [])))) =
     {Head 1 101, Head 1 102}"
  by code_simp

lemma patient_numbers:
  "Arrives b p \<in> set patient_schedule \<Longrightarrow>
     example_number (en_hash_slow example_head_engine (block_header (msg_hl_block b))) = hdr_number (block_header (msg_hl_block b))"
  by (auto simp: patient_schedule_def example_number_def example_head_engine_def sibling_def msg_hl_block_def announced_header_def)

theorem import_elects_best_head_witness:
  "(case ai_engine (settle example_head_engine (async_run example_head_engine patient_schedule (async_new (5, [])))) of
      (h, _) \<Rightarrow> Head (example_number h) h) = Head 1 101"
proof -
  let ?s = "settle example_head_engine (async_run example_head_engine patient_schedule (async_new (5, [])))"
  have "(\<lambda>(h, _). Head (example_number h) h) (ai_engine ?s) =
      Max (insert ((\<lambda>(h, _). Head (example_number h) h) (5, [] :: b256 list)) (accepted_heads ?s))"
    by (rule conjunct1 [OF import_elects_best_head [OF example_heads.head_engine_axioms patient_prompt]])
      (rule patient_numbers)
  also have "\<dots> = Max {Head 0 5, Head 1 101, Head 1 102}"
    unfolding patient_result by (simp add: example_number_def)
  also have "\<dots> = Head 1 101" by (simp add: max_def)
  finally show ?thesis .
qed

theorem async_refines_tasks_witness:
  "first_polls example_head_engine patient_schedule (async_new (5, [])) = [0, 2, 3, 1] \<and>
   fst (run_tasks example_head_engine (map (\<lambda>i. fst (ai_futures (async_run example_head_engine patient_schedule
       (async_new (5, []))) ! i)) [0, 2, 3, 1]) (5, [])) =
     ai_engine (settle example_head_engine (async_run example_head_engine patient_schedule (async_new (5, []))))"
proof -
  have order: "first_polls example_head_engine patient_schedule (async_new (5, [])) = [0, 2, 3, 1]" by code_simp
  from async_refines_tasks [OF example_heads.head_engine_axioms patient_prompt, unfolded order] order show ?thesis
    by (simp only: fst_conv simp_thms)
qed

text \<open>
  Without that condition the rule is not kept: two blocks of one height whose fork choices are
  polled before the engine has handled either are both compared with the old head, and the
  engine ends on the one that was polled last, although it has accepted the better one.
\<close>

lemma fork_choice_race:
  "ai_engine (settle example_head_engine (async_run example_head_engine hasty_schedule (async_new (5, [])))) = (102, [102, 101])"
  "accepted_heads (settle example_head_engine (async_run example_head_engine hasty_schedule (async_new (5, [])))) =
     {Head 1 101, Head 1 102}"
  "Head 1 102 < Head 1 101"
  by code_simp+

end
