(* ===== verification/Sync.thy ===== *)
theory Sync
  imports Peer_Loop Storage Eth_Rpc
begin

text \<open>
  Downloading the chain from the pseudo peer. Reth's pipeline asks a peer for headers and
  then, by the hashes of these headers, for bodies; it writes the bodies to the storage and
  later reads them to execute, trace and serve the blocks. Here the requests
  (\<open>src/src/pseudo_peer/service.rs\<close>), the conversion of the blocks
  (\<open>src/src/node/types/reth_compat.rs\<close>), the storage (\<open>src/src/node/storage/mod.rs\<close>) and the
  lookup of the recorded precompile calls (\<open>src/src/node/rpc/call.rs\<close>) are put together: over
  a source that has the chain both requests are answered, the answers belong together, and
  what is read back is the source's block with its recorded calls.
\<close>

section \<open>What the download relies on\<close>

text \<open>
  The source has the chain up to \<open>latest\<close>, its blocks are sealed with the hash of their
  header, no two of them have the same hash, and each can be converted: its system
  transactions are calls whose token is known.
\<close>

locale downloading_peer = complete_peer env good chain latest + announcing_peer env good chain
  for env :: "('s, 'l, 'e, 'g) peer_env" and good :: "'s \<Rightarrow> bool" and chain and latest :: u64 +
  assumes converts: "chain n = Some b \<Longrightarrow>
      \<exists>blk st'. to_reth_block (pe_post env) (chain_id (pe_chain_spec env)) b st = Returns (blk, st')"
    and no_collision: "chain n = Some b \<Longrightarrow> chain m = Some b' \<Longrightarrow> bar_hash b = bar_hash b' \<Longrightarrow> n = m"

section \<open>Every request is answered\<close>

definition ready_peer :: "('s \<Rightarrow> bool) \<Rightarrow> (u64 \<rightharpoonup> block_and_receipts) \<Rightarrow> u64 \<Rightarrow> ('s, 'l) pseudo_peer \<Rightarrow> bool" where
  "ready_peer good chain latest self \<longleftrightarrow> peer_ok good chain self \<and> pp_known_latest self \<le> latest"

context downloading_peer
begin

lemma backfill_retries_frame:
  assumes "peer_ok good chain self" "backfill_retries env h l k self = Returns (n, self')"
  shows "same_frame self self'"
  using assms
proof (induction k arbitrary: self)
  case (Suc k)
  from Suc.prems(2) obtain r p where step: "backfill_cache_for_hash env h l self = Returns (r, p)"
    "(case r of Ok (Some number) \<Rightarrow> Returns (number, p) | _ \<Rightarrow> backfill_retries env h l k p) = Returns (n, self')"
    by (auto simp: run_bind_eq_Returns_iff)
  from step(1) obtain r0 where r0: "r = Ok r0"
    "backfill_loop env h (src_chunk (pe_src env)) 0 (step_by (unat (src_chunk (pe_src env))) (rev (range_incl_u64 1 l))) self
      = Returns (r0, p)"
    by (auto simp: backfill_cache_for_hash_def Let_def run_bind_eq_Returns_iff split: if_splits)
  note p = backfill_loop_ok [OF Suc.prems(1) r0(2)]
  show ?case
  proof (cases r0)
    case None
    with step(2) r0(1) p Suc.IH [of p] show ?thesis by (auto intro: same_frame_trans)
  qed (use step(2) r0(1) p in auto)
qed simp

lemma hash_to_block_number_ready:
  assumes "ready_peer good chain latest self" "hash_to_block_number env h self = Returns (m, self')"
  shows "ready_peer good chain latest self'"
proof -
  have ok: "peer_ok good chain self" using assms(1) by (simp add: ready_peer_def)
  from assms(2) obtain c p where c: "try_get_cached_block_number env h self = Returns (c, p)"
    by (auto simp: hash_to_block_number_def run_bind_eq_Returns_iff)
  note p = try_get_cached_ok [OF ok c]
  have "pp_known_latest self' \<le> latest"
  proof (cases c)
    case (Some k)
    with assms c p show ?thesis by (auto simp: hash_to_block_number_def ready_peer_def same_frame_def)
  next
    case None
    obtain s where s: "src_latest (pe_src env) (pp_source p) = Returns (s, Some latest)"
      using latest_known p by (auto simp: peer_ok_def)
    with assms(2) c None have "backfill_retries env h latest BACKFILL_RETRY_LIMIT
        (p\<lparr>pp_source := s, pp_known_latest := latest\<rparr>) = Returns (m, self')"
      by (simp add: hash_to_block_number_def)
    moreover have "peer_ok good chain (p\<lparr>pp_source := s, pp_known_latest := latest\<rparr>)"
      using p latest_good [OF _ s] by (simp add: peer_ok_def)
    ultimately show ?thesis using backfill_retries_frame by (fastforce simp: same_frame_def)
  qed
  with hash_to_block_number_ok [OF ok assms(2)] show ?thesis by (simp add: ready_peer_def)
qed

text \<open>The hashes of blocks the source has are all found, at their own heights.\<close>

lemma find_hashes:
  assumes "ready_peer good chain latest self" "\<forall>n \<in> set ns. 1 \<le> n \<and> n \<le> latest" "map chain ns = map Some bs"
  shows "\<exists>self'. run_map_state (hash_to_block_number env) (map bar_hash bs) self = Returns (ns, self') \<and>
    ready_peer good chain latest self'"
  using assms
proof (induction ns arbitrary: bs self)
  case (Cons n ns)
  then obtain b bs' where b: "bs = b # bs'" "chain n = Some b" "map chain ns = map Some bs'" by (cases bs) auto
  have at: "hash_at chain n (bar_hash b)" using b(2) by (auto simp: hash_at_def)
  have ok: "peer_ok good chain self" "pp_known_latest self \<le> latest" using Cons.prems(1) by (simp_all add: ready_peer_def)
  obtain m p where m: "hash_to_block_number env (bar_hash b) self = Returns (m, p)"
    using hash_to_block_number_total [OF ok at] Cons.prems(2) by auto
  have "m = n" using hash_to_block_number_ok [OF ok(1) m] no_collision b(2) by (auto simp: hash_at_def)
  with Cons.IH [OF hash_to_block_number_ready [OF Cons.prems(1) m] _ b(3)] Cons.prems(2) m show ?case
    by (auto simp: b(1))
qed simp

lemma convert_total:
  assumes "set bs \<subseteq> ran chain"
  shows "\<exists>blks self'. convert_blocks env bs self = Returns (blks, self')"
proof -
  have "\<exists>blks st'. run_map_state (to_reth_block (pe_post env) (chain_id (pe_chain_spec env))) bs st = Returns (blks, st') \<and>
      True \<and> list_all2 (\<lambda>_ _. True) bs blks" for st
    by (rule run_map_state_Returns [where I = "\<lambda>_. True"]) (use assms converts in \<open>auto simp: ran_def subset_iff\<close>)
  from this [of "pp_spot self"] show ?thesis by (auto simp: convert_blocks_def)
qed

lemma collect_ready:
  assumes "ready_peer good chain latest self" "\<forall>n \<in> set ns. 1 \<le> n \<and> n \<le> latest"
  obtains bs p where "collect_blocks env ns self = Returns (Ok bs, p)" "map chain ns = map Some bs"
    "ready_peer good chain latest p" "set bs \<subseteq> ran chain"
proof -
  have ok: "peer_ok good chain self" using assms(1) by (simp add: ready_peer_def)
  obtain bs p where col: "collect_blocks env ns self = Returns (Ok bs, p)" using collect_total [OF ok assms(2)] by blast
  note p = collect_blocks_ok [OF ok col]
  have "Some ` set bs = chain ` set ns" using p by (metis list.set_map)
  then have "set bs \<subseteq> ran chain" by (auto simp: ran_def image_iff set_eq_iff) metis
  with that [OF col] p assms(1) show ?thesis by (simp add: ready_peer_def same_frame_def)
qed

lemma headers_answered:
  assumes "ready_peer good chain latest self" "\<forall>k \<in> set (range_u64 n (n + limit)). 1 \<le> k \<and> k \<le> latest"
  obtains bs p where "map chain (range_u64 n (n + limit)) = map Some bs" "ready_peer good chain latest p"
    "process_eth_request env (GetBlockHeaders (AtNumber n) limit skip Rising) self = Returns (Ok (BlockHeaders (map bar_header bs)), p)"
proof -
  obtain bs q where q: "collect_blocks env (range_u64 n (n + limit)) self = Returns (Ok bs, q)"
    "map chain (range_u64 n (n + limit)) = map Some bs" "ready_peer good chain latest q" "set bs \<subseteq> ran chain"
    by (rule collect_ready [OF assms])
  obtain blks p where p: "convert_blocks env bs q = Returns (blks, p)" using convert_total [OF q(4)] by blast
  have "ready_peer good chain latest p"
    using p q(3) by (auto simp: convert_blocks_def run_bind_eq_Returns_iff ready_peer_def peer_ok_def)
  moreover have "process_eth_request env (GetBlockHeaders (AtNumber n) limit skip Rising) self =
      Returns (Ok (BlockHeaders (map bar_header bs)), p)"
    using convert_blocks_headers [OF p] by (simp add: process_eth_request_def q(1) p)
  ultimately show ?thesis using that q(2) by blast
qed

lemma bodies_answered:
  assumes "ready_peer good chain latest self" "\<forall>k \<in> set ns. 1 \<le> k \<and> k \<le> latest" "map chain ns = map Some bs"
  obtains blks p where "process_eth_request env (GetBlockBodies (map bar_hash bs)) self = Returns (Ok (BlockBodies (map block_body blks)), p)"
    "list_all2 (\<lambda>b blk. \<exists>st st'. to_reth_block (pe_post env) (chain_id (pe_chain_spec env)) b st = Returns (blk, st')) bs blks"
    "ready_peer good chain latest p"
proof -
  obtain q where q: "run_map_state (hash_to_block_number env) (map bar_hash bs) self = Returns (ns, q)"
    "ready_peer good chain latest q"
    using find_hashes [OF assms] by blast
  obtain bs' q' where q': "collect_blocks env ns q = Returns (Ok bs', q')" "map chain ns = map Some bs'"
    "ready_peer good chain latest q'" "set bs' \<subseteq> ran chain"
    by (rule collect_ready [OF q(2) assms(2)])
  have "map Some bs' = map Some bs" using q'(2) assms(3) by simp
  then have "bs' = bs" by (metis inj_Some inj_map_eq_map)
  obtain blks p where p: "convert_blocks env bs q' = Returns (blks, p)" using convert_total q'(4) \<open>bs' = bs\<close> by blast
  have "ready_peer good chain latest p"
    using p q'(3) by (auto simp: convert_blocks_def run_bind_eq_Returns_iff ready_peer_def peer_ok_def)
  moreover have "process_eth_request env (GetBlockBodies (map bar_hash bs)) self = Returns (Ok (BlockBodies (map block_body blks)), p)"
    by (simp add: process_eth_request_def q(1) q'(1) p \<open>bs' = bs\<close>)
  ultimately show ?thesis using that convert_blocks_bodies [OF p] by blast
qed

end

text \<open>The block of the source at a height, converted, with this header and this body.\<close>

definition converted_at ::
  "('s, 'l, 'e, 'g) peer_env \<Rightarrow> (u64 \<rightharpoonup> block_and_receipts) \<Rightarrow> u64 \<Rightarrow> header \<Rightarrow> hl_block_body \<Rightarrow> bool" where
  "converted_at env chain n h body \<longleftrightarrow> (\<exists>b st st'. chain n = Some b \<and>
     to_reth_block (pe_post env) (chain_id (pe_chain_spec env)) b st = Returns (\<lparr>block_header = h, block_body = body\<rparr>, st') \<and>
     extras_of body = \<lparr>ex_read_precompile_calls = Some (bar_read_precompile_calls b),
                       ex_highest_precompile_address = bar_highest_precompile_address b\<rparr> \<and> sidecars body = None)"

lemma converted_atI:
  assumes "chain n = Some b" "to_reth_block (pe_post env) (chain_id (pe_chain_spec env)) b st = Returns (blk, st')"
  shows "converted_at env chain n (bar_header b) (block_body blk)"
proof -
  obtain sb where "bar_block b = Reth115 sb" by (cases "bar_block b")
  with assms(2) have "sidecars (block_body blk) = None \<and>
      extras_of (block_body blk) = \<lparr>ex_read_precompile_calls = Some (bar_read_precompile_calls b),
        ex_highest_precompile_address = bar_highest_precompile_address b\<rparr>"
    by (rule to_reth_block_shape) (simp add: extras_of_def)
  moreover have "\<lparr>block_header = bar_header b, block_body = block_body blk\<rparr> = blk"
    using to_reth_block_bar_header [OF assms(2)] by (cases blk) simp
  ultimately show ?thesis
    unfolding converted_at_def using assms by (intro exI [of _ b] exI [of _ st] exI [of _ st']) simp
qed

lemma download_answers:
  assumes "downloading_peer env good chain latest" "ready_peer good chain latest self"
    and "1 \<le> n" "unat n + unat limit \<le> unat latest + 1" "unat n + unat limit < 2 ^ 64"
  shows "\<exists>hs p1 bodies p2.
    process_eth_request env (GetBlockHeaders (AtNumber n) limit skip Rising) self = Returns (Ok (BlockHeaders hs), p1) \<and>
    process_eth_request env (GetBlockBodies (map (pe_hash_slow env) hs)) p1 = Returns (Ok (BlockBodies bodies), p2) \<and>
    length hs = unat limit \<and> length bodies = unat limit \<and>
    (\<forall>i < unat limit. converted_at env chain (n + of_nat i) (hs ! i) (bodies ! i)) \<and> ready_peer good chain latest p2"
proof -
  let ?ns = "range_u64 n (n + limit)"
  have add: "unat (n + limit) = unat n + unat limit" using assms(5) by (rule unat_add_no_wrap)
  have range: "\<forall>k \<in> set ?ns. 1 \<le> k \<and> k \<le> latest"
    using assms(3,4) by (auto simp: set_range_u64 word_le_nat_alt word_less_nat_alt add)
  obtain bs p1 where p1: "map chain ?ns = map Some bs" "ready_peer good chain latest p1"
    "process_eth_request env (GetBlockHeaders (AtNumber n) limit skip Rising) self = Returns (Ok (BlockHeaders (map bar_header bs)), p1)"
    by (rule downloading_peer.headers_answered [OF assms(1,2) range])
  obtain blks p2 where p2:
    "process_eth_request env (GetBlockBodies (map bar_hash bs)) p1 = Returns (Ok (BlockBodies (map block_body blks)), p2)"
    "list_all2 (\<lambda>b blk. \<exists>st st'. to_reth_block (pe_post env) (chain_id (pe_chain_spec env)) b st = Returns (blk, st')) bs blks"
    "ready_peer good chain latest p2"
    by (rule downloading_peer.bodies_answered [OF assms(1) p1(2) range p1(1)])
  have len: "length bs = unat limit" "length blks = unat limit"
    using map_eq_imp_length_eq [OF p1(1)] list_all2_lengthD [OF p2(2)] by (simp_all add: add)
  have at: "chain (n + of_nat i) = Some (bs ! i)" if "i < unat limit" for i
    using arg_cong [OF p1(1), of "\<lambda>xs. xs ! i"] that len by (simp add: range_u64_def add)
  have "pe_hash_slow env (bar_header (bs ! i)) = bar_hash (bs ! i)" if "i < unat limit" for i
    using announcing_peer.sealed [OF downloading_peer.axioms(2) [OF assms(1)] at [OF that]] .
  then have hashes: "map (pe_hash_slow env) (map bar_header bs) = map bar_hash bs"
    by (intro nth_equalityI) (simp_all add: len)
  have at': "converted_at env chain (n + of_nat i) (map bar_header bs ! i) (map block_body blks ! i)" if i: "i < unat limit" for i
  proof -
    obtain st st' where "to_reth_block (pe_post env) (chain_id (pe_chain_spec env)) (bs ! i) st = Returns (blks ! i, st')"
      using list_all2_nthD [OF p2(2), of i] len(1) [symmetric] i by auto
    with at [OF i] have "converted_at env chain (n + of_nat i) (bar_header (bs ! i)) (block_body (blks ! i))"
      by (rule converted_atI)
    with i len show ?thesis by simp
  qed
  have "process_eth_request env (GetBlockBodies (map (pe_hash_slow env) (map bar_header bs))) p1 =
      Returns (Ok (BlockBodies (map block_body blks)), p2)"
    unfolding hashes by (rule p2(1))
  moreover have "length (map bar_header bs) = unat limit" "length (map block_body blks) = unat limit"
    using len by simp_all
  ultimately show ?thesis using p1(3) p2(3) at' by blast
qed

lemma converted_at_number:
  assumes "peer_setting env good chain" "converted_at env chain n h body"
  shows "hdr_number h = n"
proof -
  from assms(2) obtain b st st' where b: "chain n = Some b"
    "to_reth_block (pe_post env) (chain_id (pe_chain_spec env)) b st = Returns (\<lparr>block_header = h, block_body = body\<rparr>, st')"
    unfolding converted_at_def by blast
  from to_reth_block_number [OF b(2)] peer_setting.numbered [OF assms(1) b(1)] show ?thesis by simp
qed

section \<open>Properties\<close>

text \<open>
  C3. The chain can be downloaded from the pseudo peer. Over a source that has the chain, and
  whatever the peer has cached, a request for the headers of a range of heights and the
  request for the bodies with the hashes of these headers are both answered, with one
  header and one body for each height, and each header and body together are the
  conversion of the source's block at that height, with its recorded precompile calls.
  After it the peer is ready to answer again.
\<close>

theorem peer_serves_chain:
  assumes "downloading_peer env good chain latest" "ready_peer good chain latest self"
    and "1 \<le> n" "unat n + unat limit \<le> unat latest + 1" "unat n + unat limit < 2 ^ 64"
  shows "\<exists>hs p1 bodies p2.
    process_eth_request env (GetBlockHeaders (AtNumber n) limit skip Rising) self = Returns (Ok (BlockHeaders hs), p1) \<and>
    process_eth_request env (GetBlockBodies (map (pe_hash_slow env) hs)) p1 = Returns (Ok (BlockBodies bodies), p2) \<and>
    length hs = unat limit \<and> length bodies = unat limit \<and>
    (\<forall>i < unat limit. converted_at env chain (n + of_nat i) (hs ! i) (bodies ! i)) \<and> ready_peer good chain latest p2"
  using assms by (rule download_answers)

text \<open>
  C9. What was downloaded is what is read later. Store the bodies that the pseudo peer
  answered under the numbers of their headers, over a storage that keeps its promises: reading them
  with these headers gives them back unchanged, and the precompile calls that tracing and
  replay look up for a block read this way are those the source recorded for its height.
\<close>

theorem synced_chain_read_back:
  assumes "downloading_peer env good chain latest" "ready_peer good chain latest self"
    and "1 \<le> n" "unat n + unat limit \<le> unat latest + 1" "unat n + unat limit < 2 ^ 64"
    and "process_eth_request env (GetBlockHeaders (AtNumber n) limit skip Rising) self = Returns (Ok (BlockHeaders hs), p1)"
    and "process_eth_request env (GetBlockBodies (map (pe_hash_slow env) hs)) p1 = Returns (Ok (BlockBodies bodies), p2)"
    and "working_store ops tbl rows paris shanghai" "store_ok tbl rows db"
    and "write_block_bodies ops (zip (map hdr_number hs) (map Some bodies)) loc db = Returns (db', Ok ())"
    and "\<forall>(h, b) \<in> set (zip hs bodies). storable paris shanghai h (convert_to_eth_block_body (body_inner b))"
  shows "read_block_bodies ops (zip hs (map (\<lambda>b. transactions (body_inner b)) bodies)) db' = Returns (Ok bodies) \<and>
    (\<forall>i < unat limit. \<forall>block_by_number. \<exists>b. chain (n + of_nat i) = Some b \<and>
      (block_by_number (n + of_nat i) = Ok (Some \<lparr>block_header = hs ! i, block_body = bodies ! i\<rparr>) \<longrightarrow>
        get_hl_extras block_by_number (n + of_nat i) =
          Ok \<lparr>ex_read_precompile_calls = Some (bar_read_precompile_calls b),
              ex_highest_precompile_address = bar_highest_precompile_address b\<rparr>))"
proof -
  have len: "length hs = unat limit" "length bodies = unat limit"
    and at: "\<And>i. i < unat limit \<Longrightarrow> converted_at env chain (n + of_nat i) (hs ! i) (bodies ! i)"
    using download_answers [OF assms(1-5), of skip] assms(6,7) by auto
  have peer: "peer_setting env good chain"
    by (rule complete_peer.axioms(1) [OF downloading_peer.axioms(1) [OF assms(1)]])
  have pairs: "(hdr_number h, Some b) \<in> set (zip (map hdr_number hs) (map Some bodies)) \<and>
      storable paris shanghai h (convert_to_eth_block_body (body_inner b))" if "(h, b) \<in> set (zip hs bodies)" for h b
    using that assms(11) by (fastforce simp: zip_map_map)
  have "(bodies ! i)\<lparr>sidecars := None\<rparr> = bodies ! i" if "i < unat limit" for i
    using at [OF that] unfolding converted_at_def by (cases "bodies ! i") auto
  then have none: "map (\<lambda>hb. (snd hb)\<lparr>sidecars := None\<rparr>) (zip hs bodies) = bodies"
    by (intro nth_equalityI) (simp_all add: len)
  have inputs: "map (\<lambda>hb. (fst hb, transactions (body_inner (snd hb)))) (zip hs bodies) =
      zip hs (map (\<lambda>b. transactions (body_inner b)) bodies)"
    by (intro nth_equalityI) (simp_all add: len)
  have "read_block_bodies ops (map (\<lambda>hb. (fst hb, transactions (body_inner (snd hb)))) (zip hs bodies)) db' =
      Returns (Ok (map (\<lambda>hb. (snd hb)\<lparr>sidecars := None\<rparr>) (zip hs bodies)))"
    by (rule storage_roundtrip [OF assms(8-10)]) (rule pairs)
  then have "read_block_bodies ops (zip hs (map (\<lambda>b. transactions (body_inner b)) bodies)) db' = Returns (Ok bodies)"
    unfolding none inputs .
  moreover have "\<exists>b. chain (n + of_nat i) = Some b \<and>
      (block_by_number (n + of_nat i) = Ok (Some \<lparr>block_header = hs ! i, block_body = bodies ! i\<rparr>) \<longrightarrow>
        get_hl_extras block_by_number (n + of_nat i) =
          Ok \<lparr>ex_read_precompile_calls = Some (bar_read_precompile_calls b),
              ex_highest_precompile_address = bar_highest_precompile_address b\<rparr>)" if "i < unat limit" for i block_by_number
    using at [OF that] unfolding converted_at_def by (auto simp: get_hl_extras_def extras_of_def)
  ultimately show ?thesis by blast
qed

section \<open>An example\<close>

lemma example_to_reth: "to_reth_block post cid example_height_one st = Returns (example_converted, st)"
  by (simp add: to_reth_block_def sealed_to_reth_block_def example_height_one_def example_converted_def bar_header_def Let_def)

interpretation example_download: downloading_peer example_announcer "\<lambda>_. True" example_chain 1
proof
  show "\<exists>url. official_rpc_url (pe_chain_spec example_announcer) = Returns url"
    using example_peer.known_chain by simp
  show "\<exists>blk st'. to_reth_block (pe_post example_announcer) (chain_id (pe_chain_spec example_announcer)) b st = Returns (blk, st')"
    if "example_chain n = Some b" for n b st
    using that by (auto simp: example_chain_def example_to_reth split: if_splits)
  show "n = m" if "example_chain n = Some b" "example_chain m = Some b'" for n m b b'
    using that by (auto simp: example_chain_def split: if_splits)
qed (use blocks_dir_complete.collect_complete blocks_dir_complete.latest_known blocks_dir_complete.chunk_positive in auto)

lemma example_ready: "ready_peer (\<lambda>_. True) example_chain 1 example_peer"
  using example_peer_ok by (simp add: ready_peer_def example_peer_def pseudo_peer_new_def)

theorem peer_serves_chain_witness:
  "\<exists>hs p1 bodies p2.
    process_eth_request example_announcer (GetBlockHeaders (AtNumber 1) 1 0 Rising) example_peer = Returns (Ok (BlockHeaders hs), p1) \<and>
    process_eth_request example_announcer (GetBlockBodies (map (pe_hash_slow example_announcer) hs)) p1 =
      Returns (Ok (BlockBodies bodies), p2) \<and>
    converted_at example_announcer example_chain 1 (hs ! 0) (bodies ! 0)"
proof -
  from peer_serves_chain [OF example_download.downloading_peer_axioms example_ready, of 1 1 0]
  obtain hs p1 bodies p2 where
    "process_eth_request example_announcer (GetBlockHeaders (AtNumber 1) 1 0 Rising) example_peer = Returns (Ok (BlockHeaders hs), p1)"
    "process_eth_request example_announcer (GetBlockBodies (map (pe_hash_slow example_announcer) hs)) p1 =
      Returns (Ok (BlockBodies bodies), p2)"
    "\<forall>i < unat (1 :: u64). converted_at example_announcer example_chain (1 + of_nat i) (hs ! i) (bodies ! i)"
    by (auto simp del: example_announcer_simps unat_1)
  moreover from this(3) have "converted_at example_announcer example_chain 1 (hs ! 0) (bodies ! 0)" by simp
  ultimately show ?thesis by blast
qed

text \<open>A store that can encode the precompile calls of the example.\<close>

definition example_calls :: hl_extras where
  "example_calls = \<lparr>ex_read_precompile_calls = Some (ReadPrecompileCalls []), ex_highest_precompile_address = None\<rparr>"

definition example_calls_store :: "(example_db, unit) store_ops" where
  "example_calls_store = example_store\<lparr>
     st_to_vec := (\<lambda>x. if x = example_calls then Some [0xC1] else None),
     st_from_slice := (\<lambda>v. if v = [0xC1] then Some example_calls else None)\<rparr>"

interpretation calls_store: working_store example_calls_store "\<lambda>(t, m). map_of t" snd "\<lambda>_. False" "\<lambda>_. False"
  using example_chain_store.working_store_axioms
  by (simp add: working_store_def chain_store_def working_store_axioms_def example_calls_store_def)

lemma example_download_run:
  "process_eth_request example_announcer (GetBlockHeaders (AtNumber 1) 1 0 Rising) example_peer =
     Returns (Ok (BlockHeaders [block_header example_converted]), example_peer)"
  "process_eth_request example_announcer (GetBlockBodies (map (pe_hash_slow example_announcer) [block_header example_converted]))
     example_peer = Returns (Ok (BlockBodies [block_body example_converted]), example_peer)"
proof -
  have "range_u64 1 2 = [1]" by (simp add: range_u64_def upt_rec)
  moreover have collect: "src_collect (local_source example_fs ''/blocks'') 1 () = Returns ((), Ok example_height_one)"
    by (simp add: local_source_def local_collect_block_def example_read)
  ultimately show "process_eth_request example_announcer (GetBlockHeaders (AtNumber 1) 1 0 Rising) example_peer =
     Returns (Ok (BlockHeaders [block_header example_converted]), example_peer)"
    by (simp add: process_eth_request_def collect_blocks_def peer_collect_block_def convert_blocks_def example_to_reth)
  have "bar_hash example_height_one = 101" by (simp add: bar_hash_def example_height_one_def)
  moreover have "hash_to_block_number example_announcer 101 example_peer = Returns (1, example_peer)"
    using example_peer_cache(1)
    by (simp add: hash_to_block_number_def try_get_cached_block_number_def example_peer_def pseudo_peer_new_def)
  ultimately show "process_eth_request example_announcer (GetBlockBodies (map (pe_hash_slow example_announcer)
      [block_header example_converted])) example_peer = Returns (Ok (BlockBodies [block_body example_converted]), example_peer)"
    by (simp add: process_eth_request_def collect_blocks_def peer_collect_block_def collect convert_blocks_def example_to_reth)
qed

theorem synced_chain_read_back_witness:
  "\<exists>db'. write_block_bodies example_calls_store (zip (map hdr_number [block_header example_converted])
       (map Some [block_body example_converted])) Both ([], \<lambda>_. ([], [])) = Returns (db', Ok ()) \<and>
     read_block_bodies example_calls_store (zip [block_header example_converted]
       (map (\<lambda>b. transactions (body_inner b)) [block_body example_converted])) db' =
       Returns (Ok [block_body example_converted])"
proof -
  let ?n = "hdr_number (block_header example_converted)"
  let ?db = "([(?n, [0xC1])], \<lambda>_. ([], []))"
  have "write_block_bodies example_calls_store (zip (map hdr_number [block_header example_converted])
       (map Some [block_body example_converted])) Both ([], \<lambda>_. ([], [])) = Returns (?db, Ok ())"
    by (simp add: rows_after_def convert_to_eth_block_body_def write_block_bodies_def write_precompile_calls_def example_calls_store_def example_store_def
        eth_body_of_def calls_of_body_def extras_of_def example_converted_def example_calls_def)
  moreover have "read_block_bodies example_calls_store (zip [block_header example_converted]
       (map (\<lambda>b. transactions (body_inner b)) [block_body example_converted])) ?db =
       Returns (Ok [block_body example_converted])"
    by (rule conjunct1 [OF synced_chain_read_back [OF example_download.downloading_peer_axioms example_ready _ _ _
          example_download_run calls_store.working_store_axioms _ calculation]])
      (simp_all add: store_ok_def storable_def convert_to_eth_block_body_def example_converted_def)
  ultimately show ?thesis by blast
qed

end
