(* ===== verification/Peer_Progress.thy ===== *)
theory Peer_Progress
  imports Sync
begin

text \<open>
  Progress of the pseudo peer (\<open>src/src/pseudo_peer/mod.rs\<close>, \<open>service.rs\<close>): the counterpart of
  the safety of \<open>Peer_Loop\<close>. Over a source that always answers, no action of the peer panics, as
  long as it is asked only for hashes that the source has, and every request that the source
  can serve is answered. Once a peer has connected, rounds of turns announce one block
  after the other, for as long as the source has blocks.
\<close>

section \<open>Rounds\<close>

text \<open>
  A peer connects, the poller starts, and then the poller has two turns and the network
  manager one, again and again; before each of these rounds other network events and
  transaction messages may arrive.
\<close>

fun idle_input :: "loop_input \<Rightarrow> bool" where
  "idle_input (EthRequest _) = False"
| "idle_input _ = True"

definition one_round :: "loop_input list \<Rightarrow> 'x peer_act list" where
  "one_round inputs = map LoopTurn inputs @ [PollerTurn, PollerTurn, NetworkPoll]"

definition rounds :: "loop_input list list \<Rightarrow> 'x peer_act list" where
  "rounds iss = LoopTurn (NetworkEvent ActivePeerSession) # PollerTurn # concat (map one_round iss)"

text \<open>What the announcement of a source's block needs: it converts, and its difficulty fits.\<close>

definition announceable :: "('s, 'l, 'e, 'g) peer_env \<Rightarrow> block_and_receipts \<Rightarrow> bool" where
  "announceable env b \<longleftrightarrow> unat (difficulty (bar_header b)) < 2 ^ 128 \<and>
     (\<forall>st. \<exists>blk st'. to_reth_block (pe_post env) (chain_id (pe_chain_spec env)) b st = Returns (blk, st'))"

text \<open>A source that answers a height in every good state.\<close>

definition available :: "('s, 'l, 'e, 'g) peer_env \<Rightarrow> ('s \<Rightarrow> bool) \<Rightarrow> u64 \<Rightarrow> bool" where
  "available env good n \<longleftrightarrow> (\<forall>s. good s \<longrightarrow> (\<exists>s' b. src_collect (pe_src env) n s = Returns (s', Ok b)))"

definition polls :: "('s \<Rightarrow> bool) \<Rightarrow> u64 \<Rightarrow> ('s, 'l, 'e) peer_system \<Rightarrow> bool" where
  "polls good n sys \<longleftrightarrow> sy_exit sys = None \<and> \<not> sy_first sys \<and> good (pp_source (sy_service sys)) \<and>
     bp_queue (sy_poller sys) = [] \<and> bp_task (sy_poller sys) = Polling n"

section \<open>What the source can serve\<close>

text \<open>
  A request that names only hashes of blocks the source has: for any other hash the loop
  panics, after ten rounds of backfill. And a request for blocks that the source all has.
\<close>

definition known_hash :: "(u64 \<rightharpoonup> block_and_receipts) \<Rightarrow> u64 \<Rightarrow> b256 \<Rightarrow> bool" where
  "known_hash chain latest h \<longleftrightarrow> (\<exists>n. 1 \<le> n \<and> n \<le> latest \<and> hash_at chain n h)"

definition known_request :: "(u64 \<rightharpoonup> block_and_receipts) \<Rightarrow> u64 \<Rightarrow> eth_request \<Rightarrow> bool" where
  "known_request chain latest req \<longleftrightarrow>
     (case req of
        GetBlockHeaders (AtHash h) limit skip dir \<Rightarrow> known_hash chain latest h
      | GetBlockBodies hashes \<Rightarrow> list_all (known_hash chain latest) hashes
      | _ \<Rightarrow> True)"

definition served_request :: "(u64 \<rightharpoonup> block_and_receipts) \<Rightarrow> u64 \<Rightarrow> eth_request \<Rightarrow> bool" where
  "served_request chain latest req \<longleftrightarrow>
     (case req of
        GetBlockHeaders start limit skip dir \<Rightarrow>
          (\<exists>n. starts_at chain start n \<and> (\<forall>k \<in> set (header_heights n limit dir). 1 \<le> k \<and> k \<le> latest))
      | GetBlockBodies hashes \<Rightarrow> list_all (known_hash chain latest) hashes
      | _ \<Rightarrow> False)"

text \<open>A source that answers every height, if only with an error, and a turn of it that ends.\<close>

definition always_answers :: "('s, 'l, 'e, 'g) peer_env \<Rightarrow> ('s \<Rightarrow> bool) \<Rightarrow> bool" where
  "always_answers env good \<longleftrightarrow> (\<forall>n s. good s \<longrightarrow> (\<exists>s' r. src_collect (pe_src env) n s = Returns (s', r)))"

definition turn_ends :: "('x \<Rightarrow> 's \<Rightarrow> 's run) \<Rightarrow> ('s \<Rightarrow> bool) \<Rightarrow> 'x \<Rightarrow> bool" where
  "turn_ends turn good x \<longleftrightarrow> (\<forall>s. good s \<longrightarrow> (\<exists>s'. turn x s = Returns s' \<and> good s'))"

text \<open>The invariant of a peer that no action stops.\<close>

definition serving ::
  "('s, 'l, 'e, 'g) peer_env \<Rightarrow> ('s \<Rightarrow> bool) \<Rightarrow> (u64 \<rightharpoonup> block_and_receipts) \<Rightarrow> u64 \<Rightarrow> ('s, 'l, 'e) peer_system \<Rightarrow> bool" where
  "serving env good chain latest sys \<longleftrightarrow>
     (\<exists>h msgs. system_ok env good chain h msgs sys) \<and> pp_known_latest (sy_service sys) \<le> latest"

text \<open>An action that the peer can take: it asks for known hashes, and a turn of the source ends.\<close>

fun fair_act ::
  "(u64 \<rightharpoonup> block_and_receipts) \<Rightarrow> u64 \<Rightarrow> ('x \<Rightarrow> 's \<Rightarrow> 's run) \<Rightarrow> ('s \<Rightarrow> bool) \<Rightarrow> 'x peer_act \<Rightarrow> bool" where
  "fair_act chain latest turn good (LoopTurn (EthRequest req)) = known_request chain latest req"
| "fair_act chain latest turn good (SourceTurn x) = turn_ends turn good x"
| "fair_act chain latest turn good _ = True"

section \<open>Lemmas\<close>

lemma peer_run_simps [simp]:
  "peer_run env turn [] sys = Returns sys"
  "peer_run env turn (a # acts) sys = run_bind (peer_action env turn a sys) (peer_run env turn acts)"
  by (simp_all add: peer_run_def [abs_def])

lemma rounds_split:
  "rounds iss = [LoopTurn (NetworkEvent ActivePeerSession), PollerTurn] @ concat (map one_round iss)"
  by (simp add: rounds_def)

lemma subseq_singleton: "subseq xs [x] \<Longrightarrow> xs = [] \<or> xs = [x]"
  by (cases xs) (auto split: if_splits)

lemma idle_inputs:
  assumes "polls good n sys" "list_all idle_input inputs"
  shows "peer_run env turn (map LoopTurn inputs) sys = Returns sys"
  using assms(2)
proof (induction inputs)
  case (Cons i inputs)
  then have "peer_action env turn (LoopTurn i) sys = Returns sys"
    using assms(1) by (cases i) (auto simp: peer_action_def loop_turn_def polls_def)
  with Cons show ?case by simp
qed simp

context downloading_peer
begin

lemma known_hash_found:
  assumes "ready_peer good chain latest self" "known_hash chain latest h"
  shows "\<exists>n p. hash_to_block_number env h self = Returns (n, p) \<and> ready_peer good chain latest p \<and>
    hash_at chain n h \<and> 1 \<le> n \<and> n \<le> latest"
proof -
  obtain n where n: "1 \<le> n" "n \<le> latest" "hash_at chain n h" using assms(2) by (auto simp: known_hash_def)
  have ok: "peer_ok good chain self" "pp_known_latest self \<le> latest" using assms(1) by (simp_all add: ready_peer_def)
  obtain m p where m: "hash_to_block_number env h self = Returns (m, p)"
    using hash_to_block_number_total [OF ok n(3,1,2)] by blast
  have "hash_at chain m h" using hash_to_block_number_ok [OF ok(1) m] by blast
  moreover from this n(3) have "m = n" using no_collision by (auto simp: hash_at_def)
  ultimately show ?thesis using hash_to_block_number_ready [OF assms(1) m] m n by blast
qed

lemma unknown_hash_not_found:
  assumes "ready_peer good chain latest self" "\<nexists>n. hash_at chain n h"
  shows "hash_to_block_number env h self = Panics"
proof -
  let ?ends = "step_by (unat (src_chunk (pe_src env))) (rev (range_incl_u64 1 latest))"
  have ends: "\<forall>e \<in> set ?ends. e \<le> latest"
    using step_by_subset [of _ "rev (range_incl_u64 1 latest)"] by (force simp: set_range_incl_u64)
  have retries: "backfill_retries env h latest k p = Panics" if "ready_peer good chain latest p" for k p
    using that
  proof (induction k arbitrary: p)
    case (Suc k)
    then have ok: "peer_ok good chain p" "pp_known_latest p \<le> latest" by (simp_all add: ready_peer_def)
    from backfill_loop_total [OF ok ends, of h "src_chunk (pe_src env)" 0]
    obtain r q where q: "backfill_loop env h (src_chunk (pe_src env)) 0 ?ends p = Returns (r, q)"
      by (elim exE conjE)
    note frame = backfill_loop_ok [OF ok(1) q]
    then have "r = None" using assms(2) by (cases r) auto
    with q have "backfill_cache_for_hash env h latest p = Returns (Ok None, q)"
      using chunk_positive by (simp add: backfill_cache_for_hash_def Let_def)
    moreover have "ready_peer good chain latest q" using frame ok(2) by (simp add: ready_peer_def same_frame_def)
    ultimately show ?case using Suc.IH by simp
  qed simp
  have sound: "peer_ok good chain self" using assms(1) by (simp add: ready_peer_def)
  then have c: "try_get_cached_block_number env h self = Returns (None, self)"
    using assms(2) by (cases "get_by_left (pp_cache self) h")
      (auto simp: try_get_cached_block_number_def peer_ok_def cache_sound_def)
  obtain s where s: "src_latest (pe_src env) (pp_source self) = Returns (s, Some latest)"
    using latest_known sound by (auto simp: peer_ok_def)
  have "ready_peer good chain latest (self\<lparr>pp_source := s, pp_known_latest := latest\<rparr>)"
    using sound latest_good [OF _ s] by (simp add: ready_peer_def peer_ok_def)
  from retries [OF this] show ?thesis by (simp add: hash_to_block_number_def c s)
qed

text \<open>Collecting and converting blocks returns, and succeeds for blocks the source has.\<close>

lemma collect_and_convert:
  assumes "always_answers env good" "ready_peer good chain latest self"
  shows "\<exists>r p. run_bind (collect_blocks env ns self) (\<lambda>(r, self). case r of
        Err e \<Rightarrow> Returns (Err e, self)
      | Ok blocks \<Rightarrow> run_bind (convert_blocks env blocks self) (\<lambda>(bs, self). Returns (Ok (f bs), self))) = Returns (r, p) \<and>
    ready_peer good chain latest p \<and> ((\<forall>n \<in> set ns. 1 \<le> n \<and> n \<le> latest) \<longrightarrow> (\<exists>bs. r = Ok (f bs)))"
proof -
  have ok: "peer_ok good chain self" using assms(2) by (simp add: ready_peer_def)
  have "\<exists>rs p. run_map_state (peer_collect_block env) ns self = Returns (rs, p) \<and> peer_ok good chain p \<and> list_all2 (\<lambda>_ _. True) ns rs"
  proof (rule run_map_state_Returns [where I = "peer_ok good chain", OF _ ok])
    fix n and q :: "('s, 'l) pseudo_peer" assume q: "peer_ok good chain q"
    then have "\<exists>s r. src_collect (pe_src env) n (pp_source q) = Returns (s, r)"
      using assms(1) by (simp add: always_answers_def peer_ok_def)
    then obtain s r where s: "src_collect (pe_src env) n (pp_source q) = Returns (s, r)" by (elim exE)
    with q collect_faithful [OF _ s] show "\<exists>r p. peer_collect_block env n q = Returns (r, p) \<and> peer_ok good chain p \<and> True"
      by (simp add: peer_collect_block_def peer_ok_def)
  qed
  then obtain r p where col: "collect_blocks env ns self = Returns (r, p)" by (auto simp: collect_blocks_def)
  note p = collect_blocks_ok [OF ok col]
  have ready: "ready_peer good chain latest p" using p assms(2) by (simp add: ready_peer_def same_frame_def)
  show ?thesis
  proof (cases r)
    case (Inl e)
    have "\<not> (\<forall>n \<in> set ns. 1 \<le> n \<and> n \<le> latest)" using collect_total [OF ok, of ns] col Inl by auto
    with Inl col ready show ?thesis by auto
  next
    case (Inr bs)
    then have "map chain ns = map Some bs" using p by blast
    then have "Some ` set bs = chain ` set ns" by (metis list.set_map)
    then have "set bs \<subseteq> ran chain" by (auto simp: ran_def image_iff set_eq_iff) metis
    from convert_total [OF this, of p] obtain blks q where q: "convert_blocks env bs p = Returns (blks, q)" by blast
    have "ready_peer good chain latest q"
      using q ready by (auto simp: convert_blocks_def run_bind_eq_Returns_iff ready_peer_def peer_ok_def)
    with Inr col q show ?thesis by auto
  qed
qed

lemma known_request_returns:
  assumes "always_answers env good" "ready_peer good chain latest self" "known_request chain latest req"
  shows "\<exists>r p. process_eth_request env req self = Returns (r, p) \<and> ready_peer good chain latest p \<and>
    (served_request chain latest req \<longrightarrow> map fst (sent_response req r) = [req])"
proof (cases req)
  case (GetBlockHeaders start limit skip dir)
  have "\<exists>n q. (case start of AtHash h \<Rightarrow> hash_to_block_number env h self | AtNumber n \<Rightarrow> Returns (n, self)) = Returns (n, q) \<and>
      ready_peer good chain latest q \<and> starts_at chain start n"
    using assms(2,3) known_hash_found [OF assms(2)]
    by (cases start) (fastforce simp: GetBlockHeaders known_request_def starts_at_def)+
  then obtain n q where q: "(case start of AtHash h \<Rightarrow> hash_to_block_number env h self | AtNumber n \<Rightarrow> Returns (n, self)) =
      Returns (n, q)" "ready_peer good chain latest q" "starts_at chain start n" by blast
  have "process_eth_request env req self = run_bind (collect_blocks env (header_heights n limit dir) q) (\<lambda>(r, self). case r of
        Err e \<Rightarrow> Returns (Err e, self)
      | Ok blocks \<Rightarrow> run_bind (convert_blocks env blocks self) (\<lambda>(bs, self). Returns (Ok (BlockHeaders (map block_header bs)), self)))"
    using q(1) by (simp add: process_eth_request_def GetBlockHeaders header_heights_def)
  then have "\<exists>r p. process_eth_request env req self = Returns (r, p) \<and> ready_peer good chain latest p \<and>
    ((\<forall>k \<in> set (header_heights n limit dir). 1 \<le> k \<and> k \<le> latest) \<longrightarrow> (\<exists>bs :: hl_block list. r = Ok (BlockHeaders (map block_header bs))))"
    by (simp only:) (rule collect_and_convert [OF assms(1) q(2)])
  then obtain r p where p: "process_eth_request env req self = Returns (r, p)" "ready_peer good chain latest p"
    "(\<forall>k \<in> set (header_heights n limit dir). 1 \<le> k \<and> k \<le> latest) \<longrightarrow> (\<exists>bs :: hl_block list. r = Ok (BlockHeaders (map block_header bs)))"
    by (elim exE conjE)
  have "m = n" if "starts_at chain start m" for m
    using that q(3) no_collision by (cases start) (auto simp: starts_at_def hash_at_def)
  with p show ?thesis by (auto simp: served_request_def sent_response_def GetBlockHeaders)
next
  case (GetBlockBodies hashes)
  have "\<exists>ns q. run_map_state (hash_to_block_number env) hashes self = Returns (ns, q) \<and> ready_peer good chain latest q \<and>
      list_all2 (\<lambda>h n. 1 \<le> n \<and> n \<le> latest) hashes ns"
    by (rule run_map_state_Returns [where I = "ready_peer good chain latest", OF _ assms(2)])
      (use assms(3) known_hash_found in \<open>fastforce simp: known_request_def GetBlockBodies list_all_iff\<close>)
  then obtain ns q where q: "run_map_state (hash_to_block_number env) hashes self = Returns (ns, q)" "ready_peer good chain latest q"
    "list_all2 (\<lambda>h n. 1 \<le> n \<and> n \<le> latest) hashes ns" by blast
  have "\<forall>n \<in> set ns. 1 \<le> n \<and> n \<le> latest" using q(3) by (fastforce simp: list_all2_conv_all_nth in_set_conv_nth)
  with collect_and_convert [OF assms(1) q(2), of ns "\<lambda>bs. BlockBodies (map block_body bs)"] q(1) show ?thesis
    by (auto simp: process_eth_request_def GetBlockBodies sent_response_def)
qed (use assms(2) in \<open>auto simp: process_eth_request_def served_request_def\<close>)

end

context announcing_peer
begin

lemma announce_returns:
  assumes "chain n = Some b" "announceable env b"
  shows "\<exists>ann c st'. poller_announce env (n, b) (cache, spot) = Returns (ann, c, st') \<and> announces (n, b) ann"
proof -
  obtain blk st' where conv: "to_reth_block (pe_post env) (chain_id (pe_chain_spec env)) b spot = Returns (blk, st')"
    using assms(2) unfolding announceable_def by blast
  note hdr = to_reth_block_bar_header [OF conv]
  have "unat (difficulty (block_header blk)) < 2 ^ 128" using assms(2) by (simp add: announceable_def hdr)
  with conv sealed [OF assms(1)] show ?thesis by (simp add: poller_announce_def announces_def hdr Let_def)
qed

lemma round_announces:
  assumes "polls good n sys" "available env good n" "\<forall>b \<in> ran chain. announceable env b" "list_all idle_input inputs"
  shows "\<exists>sys' b ann. peer_run env turn (one_round inputs) sys = Returns sys' \<and> polls good (n + 1) sys' \<and>
    chain n = Some b \<and> announces (n, b) ann \<and> sy_announced sys' = sy_announced sys @ [ann]"
proof -
  obtain s b where s: "src_collect (pe_src env) n (pp_source (sy_service sys)) = Returns (s, Ok b)"
    using assms(1,2) by (auto simp: polls_def available_def)
  have b: "good s" "chain n = Some b" using collect_faithful [OF _ s] assms(1) by (auto simp: polls_def)
  obtain ann c st' where ann: "poller_announce env (n, b) (pp_cache (sy_service sys), pp_spot (sy_service sys)) =
      Returns (ann, c, st')" "announces (n, b) ann"
    using announce_returns [OF b(2)] assms(3) b(2) by (meson ranI)
  have "\<exists>sys'. peer_run env turn [PollerTurn, PollerTurn, NetworkPoll] sys = Returns sys' \<and> polls good (n + 1) sys' \<and>
      sy_announced sys' = sy_announced sys @ [ann]"
    using assms(1) b(1) s ann(1)
    by (simp add: peer_action_def poller_turn_def network_poll_def polls_def BLOCK_CHANNEL_def Let_def)
  moreover have "peer_run env turn (one_round inputs) sys = peer_run env turn [PollerTurn, PollerTurn, NetworkPoll] sys"
    using idle_inputs [OF assms(1,4), of env turn] by (simp add: one_round_def peer_run_append del: peer_run_simps(2))
  ultimately show ?thesis using b(2) ann(2) by metis
qed

lemma rounds_announce:
  assumes "polls good n sys" "\<forall>i < length iss. available env good (n + of_nat i)"
    and "\<forall>b \<in> ran chain. announceable env b" "list_all (list_all idle_input) iss"
  shows "\<exists>sys' anns. peer_run env turn (concat (map one_round iss)) sys = Returns sys' \<and>
    sy_announced sys' = sy_announced sys @ anns \<and> length anns = length iss \<and>
    (\<forall>i < length iss. \<exists>b. chain (n + of_nat i) = Some b \<and> announces (n + of_nat i, b) (anns ! i))"
  using assms(1,2,4)
proof (induction iss arbitrary: n sys)
  case (Cons inputs iss)
  have avail: "available env good (n + of_nat i)" if "i < Suc (length iss)" for i using Cons.prems(2) that by simp
  have idle: "list_all idle_input inputs" "list_all (list_all idle_input) iss" using Cons.prems(3) by simp_all
  have "available env good n" using avail [of 0] by simp
  then obtain sys1 b ann where
    one: "peer_run env turn (one_round inputs) sys = Returns sys1" "polls good (n + 1) sys1" "chain n = Some b"
      "announces (n, b) ann" "sy_announced sys1 = sy_announced sys @ [ann]"
    using round_announces [OF Cons.prems(1) _ assms(3) idle(1)] by metis
  have "\<forall>i < length iss. available env good (n + 1 + of_nat i)"
    using avail [of "Suc _"] by (simp add: add.assoc)
  then obtain sys' anns where
    rest: "peer_run env turn (concat (map one_round iss)) sys1 = Returns sys'" "sy_announced sys' = sy_announced sys1 @ anns"
      "length anns = length iss"
      "\<forall>i < length iss. \<exists>b. chain (n + 1 + of_nat i) = Some b \<and> announces (n + 1 + of_nat i, b) (anns ! i)"
    using Cons.IH [OF one(2) _ idle(2)] by metis
  have "\<exists>b. chain (n + of_nat i) = Some b \<and> announces (n + of_nat i, b) ((ann # anns) ! i)" if "i < length (inputs # iss)" for i
    using that one(3,4) rest(4) by (cases i) (auto simp: add.assoc)
  with one rest show ?case
    by (intro exI [of _ sys'] exI [of _ "ann # anns"]) (simp add: peer_run_append)
qed simp

end

context downloading_peer
begin

lemma poller_turn_returns:
  assumes "always_answers env good" "serving env good chain latest sys"
  shows "\<exists>sys'. poller_turn env sys = Returns sys' \<and> pp_known_latest (sy_service sys') = pp_known_latest (sy_service sys)"
proof -
  have good: "good (pp_source (sy_service sys))" using assms(2) by (auto simp: serving_def system_ok_def peer_ok_def)
  obtain s where s: "src_latest (pe_src env) (pp_source (sy_service sys)) = Returns (s, Some latest)"
    using latest_known [OF good] by blast
  have "\<exists>s' r. src_collect (pe_src env) n (pp_source (sy_service sys)) = Returns (s', r)" for n
    using assms(1) good by (simp add: always_answers_def)
  then obtain s' r where "\<And>n. src_collect (pe_src env) n (pp_source (sy_service sys)) = Returns (s' n, r n)" by metis
  with s show ?thesis by (cases "bp_task (sy_poller sys)") (simp_all add: poller_turn_def Let_def)
qed

lemma network_poll_returns:
  assumes "\<forall>b \<in> ran chain. announceable env b" "serving env good chain latest sys"
  shows "\<exists>sys'. network_poll env sys = Returns sys' \<and> pp_known_latest (sy_service sys') = pp_known_latest (sy_service sys)"
proof (cases "bp_queue (sy_poller sys)")
  case (Cons msg rest)
  obtain n b where msg: "msg = (n, b)" by (cases msg)
  from assms(2) Cons msg obtain h msgs where "consecutive_blocks chain h (msgs @ (n, b) # rest)"
    by (auto simp: serving_def system_ok_def)
  then have b: "chain n = Some b" by (rule consecutive_blocks_head)
  with assms(1) have "announceable env b" by (auto simp: ran_def)
  from announce_returns [OF b this, of "pp_cache (sy_service sys)" "pp_spot (sy_service sys)"] Cons msg show ?thesis by (fastforce simp: network_poll_def)
qed (simp add: network_poll_def)

lemma fair_act_returns:
  assumes "always_answers env good" "\<forall>b \<in> ran chain. announceable env b"
    and "serving env good chain latest sys" "fair_act chain latest turn good act"
  shows "\<exists>sys'. peer_action env turn act sys = Returns sys' \<and> serving env good chain latest sys' \<and>
    filter (served_request chain latest) (map fst (sy_replies sys')) =
      filter (served_request chain latest) (map fst (sy_replies sys) @ scheduled_requests [act])"
proof -
  let ?served = "filter (served_request chain latest)"
  have ready: "ready_peer good chain latest (sy_service sys)" and exit: "sy_exit sys = None"
    using assms(3) by (auto simp: serving_def system_ok_def ready_peer_def)
  have "\<exists>sys'. peer_action env turn act sys = Returns sys' \<and> pp_known_latest (sy_service sys') \<le> latest \<and>
      ?served (map fst (sy_replies sys')) = ?served (map fst (sy_replies sys) @ scheduled_requests [act])"
  proof (cases act)
    case (LoopTurn input)
    show ?thesis
    proof (cases input)
      case (EthRequest req)
      with LoopTurn assms(4) have "known_request chain latest req" by simp
      from known_request_returns [OF assms(1) ready this] obtain r p where
        p: "process_eth_request env req (sy_service sys) = Returns (r, p)" "ready_peer good chain latest p"
          "served_request chain latest req \<longrightarrow> map fst (sent_response req r) = [req]" by metis
      have "?served (map fst (sent_response req r)) = ?served [req]"
        using p(3) sent_response_requests [of req r] by (auto dest!: subseq_singleton)
      with p LoopTurn EthRequest exit show ?thesis by (auto simp: peer_action_def loop_turn_def ready_peer_def)
    qed (use LoopTurn exit ready in \<open>cases "bp_task (sy_poller sys)"; auto simp: peer_action_def loop_turn_def ready_peer_def\<close>)+
  next
    case PollerTurn
    from poller_turn_returns [OF assms(1,3)] obtain sys' where
      "poller_turn env sys = Returns sys'" "pp_known_latest (sy_service sys') = pp_known_latest (sy_service sys)" by blast
    with poller_turn_frame [of env sys sys'] ready PollerTurn show ?thesis by (simp add: peer_action_def ready_peer_def)
  next
    case NetworkPoll
    from network_poll_returns [OF assms(2,3)] obtain sys' where
      "network_poll env sys = Returns sys'" "pp_known_latest (sy_service sys') = pp_known_latest (sy_service sys)" by blast
    with network_poll_frame [of env sys sys'] ready NetworkPoll show ?thesis by (simp add: peer_action_def ready_peer_def)
  next
    case (SourceTurn x)
    with assms(4) ready show ?thesis by (fastforce simp: peer_action_def ready_peer_def peer_ok_def turn_ends_def)
  qed
  then obtain sys' where sys': "peer_action env turn act sys = Returns sys'" "pp_known_latest (sy_service sys') \<le> latest"
    "?served (map fst (sy_replies sys')) = ?served (map fst (sy_replies sys) @ scheduled_requests [act])" by blast
  have "keeps_good turn good x" if "act = SourceTurn x" for x
    using that assms(4) by (fastforce simp: keeps_good_def turn_ends_def)
  with assms(3) sys'(1,2) have "serving env good chain latest sys'"
    using peer_action_ok unfolding serving_def by blast
  with sys' show ?thesis by blast
qed

lemma fair_run_returns:
  assumes "always_answers env good" "\<forall>b \<in> ran chain. announceable env b"
    and "serving env good chain latest sys" "list_all (fair_act chain latest turn good) acts"
  shows "\<exists>sys'. peer_run env turn acts sys = Returns sys' \<and>
    filter (served_request chain latest) (map fst (sy_replies sys')) =
      filter (served_request chain latest) (map fst (sy_replies sys) @ scheduled_requests acts)"
  using assms(3,4)
proof (induction acts arbitrary: sys)
  case (Cons act acts)
  then obtain sys1 where one: "peer_action env turn act sys = Returns sys1" "serving env good chain latest sys1"
    "filter (served_request chain latest) (map fst (sy_replies sys1)) =
      filter (served_request chain latest) (map fst (sy_replies sys) @ scheduled_requests [act])"
    using fair_act_returns [OF assms(1,2)] by (metis list.pred_inject(2))
  from Cons.IH [OF one(2)] Cons.prems(2) one(1,3) show ?case
    by (auto simp: scheduled_requests_Cons [of act acts])
qed simp

end

section \<open>Properties\<close>


text \<open>
  C24. The exclusion is necessary. Over a source that has the chain, a request that names a hash that no
  block of the chain has, for headers or as the first of the bodies, panics, whatever the peer has
  cached: the loop ends there, and with it the node, whose critical task the loop is.
\<close>

theorem unknown_hash_panics:
  assumes "downloading_peer env good chain latest" "ready_peer good chain latest (sy_service sys)"
    and "sy_exit sys = None" "\<nexists>n. hash_at chain n h"
    and "req = GetBlockHeaders (AtHash h) limit skip dir \<or> req = GetBlockBodies (h # hashes)"
  shows "peer_action env turn (LoopTurn (EthRequest req)) sys = Panics"
  using assms(3,5) downloading_peer.unknown_hash_not_found [OF assms(1,2,4)]
  by (auto simp: peer_action_def loop_turn_def process_eth_request_def)

text \<open>
  C8. The pseudo peer keeps announcing. Start it over a source that reports the latest height
  \<open>h\<close> and has the heights from it on, let a peer connect, and let the tasks
  take turns in rounds, with any other network events in between: no turn fails, and
  after \<open>k\<close> rounds exactly the blocks of the heights from \<open>h\<close> to \<open>h + k - 1\<close> have been
  announced, in order.
\<close>

theorem peer_keeps_announcing:
  assumes "announcing_peer env good chain" "good s"
    and "start_pseudo_peer env network_manager_new parse_peer key dspec peer s spot = Returns (Ok (network, sys0))"
    and "\<And>s. good s \<Longrightarrow> \<exists>s'. src_latest (pe_src env) s = Returns (s', Some h)"
    and "\<forall>i < length iss. available env good (h + of_nat i)"
    and "\<forall>b \<in> ran chain. announceable env b" "list_all (list_all idle_input) iss"
  shows "\<exists>sys. peer_run env turn (rounds iss) sys0 = Returns sys \<and> length (sy_announced sys) = length iss \<and>
    (\<forall>i < length iss. \<exists>b. chain (h + of_nat i) = Some b \<and> announces (h + of_nat i, b) (sy_announced sys ! i))"
proof -
  note sys0 = start_pseudo_peer_system [OF assms(3)]
  obtain s' where s': "src_latest (pe_src env) s = Returns (s', Some h)" using assms(2,4) by blast
  have "good s'"
    using faithful_source.latest_good [OF peer_setting.axioms(1) [OF announcing_peer.axioms(1) [OF assms(1)]] assms(2) s'] .
  then have "\<exists>sys1. peer_run env turn [LoopTurn (NetworkEvent ActivePeerSession), PollerTurn] sys0 = Returns sys1 \<and>
      polls good h sys1 \<and> sy_announced sys1 = []"
    using s' by (simp add: sys0 peer_action_def loop_turn_def poller_turn_def peer_system_new_def new_suspended_def
        pseudo_peer_new_def polls_def Let_def)
  then obtain sys1 where sys1: "peer_run env turn [LoopTurn (NetworkEvent ActivePeerSession), PollerTurn] sys0 = Returns sys1"
    "polls good h sys1" "sy_announced sys1 = []" by blast
  then have "peer_run env turn (rounds iss) sys0 = peer_run env turn (concat (map one_round iss)) sys1"
    by (simp only: rounds_split peer_run_append run_bind_simps)
  with announcing_peer.rounds_announce [OF assms(1) sys1(2) assms(5-7)] sys1(3) show ?thesis by auto
qed

section \<open>An example\<close>

text \<open>A peer connects and asks for a header; the directory changes nothing between two calls.\<close>

lemma example_start:
  "start_pseudo_peer example_announcer (\<lambda>_. Ok ()) (\<lambda>_. Ok () :: (unit, unit) result) () (hl_mainnet ()) ''enode''
     () \<lparr>evm_map = Map.empty, requests = 0\<rparr> = Returns (Ok ((),
       peer_system_new example_announcer (new_suspended (chain_id (hl_mainnet ()))) () \<lparr>evm_map = Map.empty, requests = 0\<rparr>))"
  by (simp add: start_pseudo_peer_def create_network_manager_def network_builder_build_def with_chain_spec_def
      network_builder_default_def with_boot_nodes_def)

lemma example_announceable: "\<forall>b \<in> ran example_chain. announceable example_announcer b"
proof -
  have "announceable example_announcer example_height_one"
    by (simp add: announceable_def to_reth_block_def sealed_to_reth_block_def example_height_one_def bar_header_def Let_def)
  then show ?thesis by (simp add: example_chain_def)
qed


theorem unknown_hash_panics_witness:
  "peer_action example_announcer (\<lambda>_ :: unit. Returns) (LoopTurn (EthRequest (GetBlockBodies [7])))
     (peer_system_new example_announcer (new_suspended (chain_id (hl_mainnet ()))) () \<lparr>evm_map = Map.empty, requests = 0\<rparr>) = Panics"
proof (rule unknown_hash_panics [OF example_download.downloading_peer_axioms])
  let ?sys = "peer_system_new example_announcer (new_suspended (chain_id (hl_mainnet ()))) () \<lparr>evm_map = Map.empty, requests = 0\<rparr>
    :: (unit, b256 list, unit) peer_system"
  have "system_ok example_announcer (\<lambda>_. True) example_chain 0 [] ?sys"
    by (intro system_new_ok) (simp_all add: new_suspended_def)
  then show "ready_peer (\<lambda>_. True) example_chain 1 (sy_service ?sys)"
    by (simp add: system_ok_def ready_peer_def) (simp add: peer_system_new_def pseudo_peer_new_def)
  show "\<nexists>n. hash_at example_chain n 7"
    by (auto simp: hash_at_def example_chain_def bar_hash_def example_height_one_def split: if_splits)
qed (simp_all add: peer_system_new_def)

theorem peer_keeps_announcing_witness:
  "\<exists>sys. peer_run example_announcer (\<lambda>_ :: unit. Returns) (rounds [[TransactionMessage, NetworkEvent OtherNetworkEvent]])
      (peer_system_new example_announcer (new_suspended (chain_id (hl_mainnet ()))) () \<lparr>evm_map = Map.empty, requests = 0\<rparr>
        :: (unit, b256 list, unit) peer_system) = Returns sys \<and> length (sy_announced sys) = 1"
proof -
  have latest: "src_latest (pe_src example_announcer) s = Returns ((), Some 1)" for s
    by (simp add: local_source_def example_latest)
  have "available example_announcer (\<lambda>_. True) (1 + of_nat 0)"
    using blocks_dir_complete.collect_complete [where n = 1] by (simp add: available_def)
  then have available: "\<forall>i < length [[TransactionMessage, NetworkEvent OtherNetworkEvent]].
      available example_announcer (\<lambda>_. True) (1 + of_nat i)" by simp
  show ?thesis
    using peer_keeps_announcing [OF announcer.announcing_peer_axioms _ example_start, where h = 1 and
        iss = "[[TransactionMessage, NetworkEvent OtherNetworkEvent]]"] latest available example_announceable by auto
qed

end
