(* ===== verification/Spec2Isabelle.thy ===== *)
theory Spec2Isabelle
  imports Consensus_Head Evm_Machine Subscriptions Node_Launch Tx_Wrapper Forwarders Build_Version
    Import_Engine Sync Peer_Progress
begin

text \<open>
  A verification of reth-hl, an execution client for HyperEVM (\<open>src/src\<close>). The node gets
  blocks not from a peer-to-peer network but from block sources (a directory, an S3
  bucket, the files of a local hl-node); a pseudo peer inside the process answers the
  requests of reth's sync pipeline from them. Blocks come with the results of read
  precompile calls, which the executor replays, and with system transactions, which the
  RPC layer hides from the standard methods.

  \<^bold>\<open>Parts and theories.\<close>

  \<^item> \<^verbatim>\<open>Prelude\<close>: results (\<open>Ok\<close>, \<open>Err\<close>), runs (\<open>Returns\<close>, \<open>Panics\<close>, \<open>Diverges\<close>), machine
    integers and ranges, folds over runs, prefix-closed predicates.
  \<^item> \<^verbatim>\<open>Hl_Types\<close> (\<open>node/types/mod.rs\<close>, \<open>node/primitives\<close>): headers, transactions, blocks,
    receipts, the block format of the sources, the transaction wrapper. \<^verbatim>\<open>Tx_Wrapper\<close>
    (\<open>node/primitives/tx_wrapper.rs\<close>, \<open>evm/transaction.rs\<close>): what reth does with a wrapped
    transaction, from its signature to the environment the EVM runs it in.
  \<^item> \<^verbatim>\<open>Spot_Meta\<close> (\<open>node/spot_meta.rs\<close>, \<open>tx_wrapper.rs\<close>) and \<^verbatim>\<open>Reth_Compat\<close>
    (\<open>node/types/reth_compat.rs\<close>): pseudo signers of spot transfers, the lookup of a
    token with its refetch loop, the conversion of a source's block.
  \<^item> \<^verbatim>\<open>Precompiles\<close> and \<^verbatim>\<open>Executor\<close> (\<open>node/evm/executor.rs\<close>, \<open>patch.rs\<close>,
    \<open>receipt_builder.rs\<close>): installing recorded precompile calls, executing and committing
    transactions, storage patches, the core writer contract. The state is the record
    \<open>hl_block_executor\<close>; any sequence of calls is \<open>executor_reach\<close>.
  \<^item> \<^verbatim>\<open>Chain_Spec\<close> (\<open>chainspec\<close>), \<^verbatim>\<open>Evm_Api\<close> (\<open>evm\<close>, \<open>node/evm/factory.rs\<close>), \<^verbatim>\<open>Evm_Config\<close>
    (\<open>node/evm/config.rs\<close>): chains and endpoints, the EVM flavour, environments, contexts
    and the assembly of blocks. \<^verbatim>\<open>Node_Components\<close> (\<open>node/pool.rs\<close>, \<open>node/engine.rs\<close>, the
    builders of \<open>node/mod.rs\<close>, \<open>node/evm\<close>, \<open>node/rpc\<close> and \<open>node/consensus\<close>): the values
    reth is handed and the answers they give; the activation of forks is the locale
    \<open>fork_schedule\<close>. \<^verbatim>\<open>Evm_Machine\<close> (\<open>evm/api\<close>, \<open>node/evm/mod.rs\<close>, \<open>factory.rs\<close>): the EVM as it is
    laid out around revm's machine, of which the flat record of \<open>Evm_Api\<close> is the abstraction.
  \<^item> \<^verbatim>\<open>Consensus_Head\<close> (\<open>consensus.rs\<close>), \<^verbatim>\<open>Node_Consensus\<close> (\<open>node/consensus\<close>): the choice of
    the canonical head, the validation of headers and executed blocks.
  \<^item> \<^verbatim>\<open>Storage\<close> (\<open>node/storage/mod.rs\<close>): block bodies and precompile calls over reth's
    storage, whose promises are the locales \<open>chain_store\<close> and \<open>working_store\<close>.
  \<^item> \<^verbatim>\<open>Block_Import\<close> (\<open>node/network/block_import\<close>, \<open>node/rpc/engine_api\<close>): the service that
    hands announced blocks to the engine, as a state with pending tasks (\<open>import_run\<close>);
    the payload validator. \<^verbatim>\<open>Import_Engine\<close>: its futures polled step by step, interleaved with
    the engine that answers them (\<open>async_run\<close>); heads are a linear order, and what the service
    relies on is the locale \<open>head_engine\<close>.
  \<^item> \<^verbatim>\<open>Wire\<close> (\<open>node/primitives/mod.rs\<close>, \<open>node/network/mod.rs\<close>): the RLP and bincode helper
    structures, over the locale \<open>lawful_codec\<close>.
  \<^item> \<^verbatim>\<open>Compliance\<close> (\<open>addons/hl_node_compliance.rs\<close>), \<^verbatim>\<open>Eth_Rpc\<close> (\<open>node/rpc\<close>), \<^verbatim>\<open>Forwarders\<close>
    (\<open>addons/call_forwarder.rs\<close>, \<open>tx_forwarder.rs\<close>): the RPC methods that hide or show
    system transactions, tracing and replay, the methods forwarded to an upstream node.
    \<^verbatim>\<open>Subscriptions\<close> (same file as \<open>Compliance\<close>): filters and the stream of a subscription.
    \<^verbatim>\<open>Rpc_Modules\<close> (\<open>main.rs\<close>, \<open>install_hl_node_compliance\<close>): which handler serves which
    method, over the locale \<open>rpc_modules\<close>.
  \<^item> \<^verbatim>\<open>Decimal\<close>, \<^verbatim>\<open>Block_Sources\<close> (\<open>pseudo_peer/sources\<close>), \<^verbatim>\<open>Hl_Node_Files\<close> and
    \<^verbatim>\<open>Hl_Node_Source\<close> (\<open>pseudo_peer/sources/hl_node\<close>), \<^verbatim>\<open>Source_Config\<close>
    (\<open>pseudo_peer/cli.rs\<close>, \<open>config.rs\<close>): file names, the sources, the task that follows
    the files of a node interleaved with requests (\<open>node_step\<close>), the stack of sources
    that the command line selects, and what happens to it between two calls (\<open>node_turn\<close>). What a source promises is the locale
    \<open>faithful_source\<close>, extended by \<open>complete_source\<close>.
  \<^item> \<^verbatim>\<open>Lru_BiMap\<close> (\<open>pseudo_peer/utils.rs\<close>), \<^verbatim>\<open>Pseudo_Peer\<close> (\<open>pseudo_peer/service.rs\<close>): the
    bidirectional cache, the poller, and the answers to header and body requests.
    \<^verbatim>\<open>Peer_Loop\<close> (\<open>pseudo_peer/mod.rs\<close>, \<open>network.rs\<close>): the loop, the poller task and the
    network manager as one state (\<open>peer_system\<close>) under an arbitrary schedule of turns,
    those of the source included, up to the first panic; \<^verbatim>\<open>Peer_Progress\<close>: that no turn panics and
    requests are answered as long as they name known hashes, and that rounds of turns get on.
  \<^item> \<^verbatim>\<open>Sync\<close>: the requests of the peer, the conversion, the storage and the lookup of the
    recorded calls put together, over the locale \<open>downloading_peer\<close>.
  \<^item> \<^verbatim>\<open>Node_Network\<close> (\<open>node/network/mod.rs\<close>), \<^verbatim>\<open>Node_Launch\<close> (\<open>main.rs\<close>, \<open>node/cli.rs\<close>),
    \<^verbatim>\<open>Build_Version\<close> (\<open>version.rs\<close>, \<open>build.rs\<close>): the network of the node with its pseudo
    peer, the launch and the dispatch of commands, the version strings.

  \<^bold>\<open>Conventions.\<close> Integers keep the width of the code as words, so that additions and
  subtractions wrap, as in a release build. A panic, an unwrapped error or an index out of
  range is \<open>Panics\<close>. Asynchronous operations that share state under a lock are steps that
  interleave. Code outside the repository (reth, revm, alloy, the file system, the clock,
  S3, upstream nodes) is a record of functions that the operations take as an argument;
  what is relied on is a named predicate or a locale, interpreted on a concrete instance
  in the theory that states it.

  \<^bold>\<open>What is shown.\<close> Execution: gas accounting and the receipts of system transactions in
  every reachable executor state, the exact effect of recorded precompiles and patches,
  deployment of the core writer, refusal of transactions. Conversion and assembly: system
  transactions stand first, contexts are inverted by assembly, an assembled block passes
  validation up to the bloom filter. RPC: receipts, logs, transactions and counts are
  split without loss between the two families of methods; a replay reaches the state of
  the execution; waiting for a receipt is bounded; a subscription sends the logs that a
  query would return; the table of methods the node serves is determined by its options.
  Storage round trips, also over a reorganisation, where only the removal of blocks makes
  room for others; so do signers and the last line of a file. Block import neither loses nor repeats a
  task; its futures, interleaved with the engine, do what the tasks do one after the other,
  and elect the best head in whatever order blocks arrive. Sources deliver only blocks of the chain, through caches, fallbacks and files that
  are being written; the pseudo peer finds every hash of the chain (and panics on any
  other), answers what its source can serve, and what it sends is right, under every schedule of its
  tasks; from the options of the command line on,
  the node announces consecutive blocks of the chain, and goes on announcing; the chain
  can be downloaded from it, stored and read back with its recorded calls. The
  caller of a simulated transaction is determined by its gas price. The theory at
  hand follows one block from its source to the RPC.

  \<^bold>\<open>Loops and bounds.\<close> Loops over lists and ranges are structural. The refetch loop of a
  token is \<open>spot_lookup\<close>, a \<open>while_option\<close> over the answers of the service, with a theorem that
  it returns once an answer lists the token; reading a file backwards and waiting for a
  receipt terminate by measures (the position in the file, the time left); the retries of
  the backfill are the ten of the code. No fuel of the model's own is used.

  \<^bold>\<open>Not modelled.\<close> Trait implementations without state or choice that only name reth or
  revm types; the attributes by which clap documents and parses options (the parsed record
  is the argument); logging and metrics output; the bytes of derived encodings, which are
  the parameter of \<open>Wire\<close>; the hardfork enumeration of \<open>hardforks\<close>, a marker trait; the
  interior of reth, revm, alloy, jsonrpsee and tokio, which are parameters.
\<close>

section \<open>From a source to the RPC\<close>

text \<open>The gas a list of shown receipts adds up to.\<close>

definition shown_gas :: "convert_receipt_input list \<Rightarrow> nat" where
  "shown_gas ins = (\<Sum>i \<leftarrow> ins. unat (ci_gas_used i))"

lemma shown_gas_receipt_inputs:
  assumes "sorted (gas # map (\<lambda>x. rc_cumulative_gas_used (snd x)) xs)"
  shows "unat gas + shown_gas (receipt_inputs api rb idx gas logs xs) =
    unat (last (gas # map (\<lambda>x. rc_cumulative_gas_used (snd x)) xs))"
  using assms
proof (induction xs arbitrary: gas idx logs)
  case (Cons x xs)
  obtain tx r where x: "x = (tx, r)" by (cases x)
  have "unat gas \<le> unat (rc_cumulative_gas_used r)" using Cons.prems by (simp add: x word_le_nat_alt)
  then have "unat gas + unat (rc_cumulative_gas_used r - gas) = unat (rc_cumulative_gas_used r)"
    by (simp add: unat_sub_no_wrap)
  moreover have "sorted (rc_cumulative_gas_used r # map (\<lambda>x. rc_cumulative_gas_used (snd x)) xs)"
    using Cons.prems by (simp add: x)
  note Cons.IH [OF this, of "idx + 1" "logs + of_nat (length (rc_logs r))"]
  ultimately show ?case by (simp add: x shown_gas_def split: if_splits)
qed (simp add: shown_gas_def)

lemma user_gas_take_mono: "i \<le> j \<Longrightarrow> user_gas (take i h) \<le> user_gas (take j h)"
proof -
  assume "i \<le> j"
  then have "take j h = take i h @ drop i (take j h)" by (metis append_take_drop_id min.absorb1 take_take)
  then show ?thesis by (metis le_add1 map_append sum_list_append user_gas_def)
qed

lemma accounted_sorted:
  assumes "accounted h ex"
  shows "sorted (map rc_cumulative_gas_used (exe_receipts ex))"
proof -
  have "rc_cumulative_gas_used (exe_receipts ex ! i) \<le> rc_cumulative_gas_used (exe_receipts ex ! j)"
    if "i \<le> j" "j < length (exe_receipts ex)" for i j
  proof -
    have "unat (rc_cumulative_gas_used (exe_receipts ex ! k)) = user_gas (take (Suc k) h)" if "k \<le> j" for k
      using assms that \<open>j < length (exe_receipts ex)\<close> by (auto simp: accounted_def)
    with \<open>i \<le> j\<close> show ?thesis by (simp add: word_le_nat_alt user_gas_take_mono)
  qed
  then show ?thesis by (simp add: sorted_iff_nth_mono)
qed

lemma ci_receipts: "map ci_receipt (receipt_inputs api rb idx gas logs xs) = map snd xs"
  by (rule nth_equalityI) (simp_all add: receipt_inputs_def)

lemma last_map_drop: "n < length xs \<Longrightarrow> last (z # map f (drop n xs)) = last (map f xs)"
  by (cases "drop n xs = []") (auto simp: last_drop simp flip: drop_map)

lemma to_reth_block_length:
  assumes "to_reth_block post chain b st = Returns (blk, st')" "bar_block b = Reth115 sb"
  shows "length (block_txs blk) = length (bar_system_txs b) + length (transactions (sb_body sb))"
proof -
  from assms obtain sys where
    "run_map_state (system_tx_to_reth_transaction post chain) (bar_system_txs b) st = Returns (sys, st')"
    "block_txs blk = sys @ map to_reth_transaction (transactions (sb_body sb))"
    by (rule to_reth_block_shape) simp
  with run_map_state_length [OF this(1)] show ?thesis by simp
qed

text \<open>A block that a source delivered and the executor ran is well ordered for the RPC methods.\<close>

lemma executed_well_ordered:
  assumes "accounted h ex" "map fst h = rb_txs rb" "prefix_closed is_system_transaction (rb_txs rb)"
    and "\<forall>(tx, g) \<in> set h. \<not> is_system_transaction tx \<longrightarrow> g \<noteq> 0"
    and "length (rb_senders rb) = length (rb_txs rb)" "length (rb_txs rb) < 2 ^ 64"
  shows "well_ordered rb (exe_receipts ex)"
proof -
  have len: "length h = length (rb_txs rb)" using arg_cong [OF assms(2), of length] by simp
  moreover have "fst (h ! i) = rb_txs rb ! i" if "i < length h" for i
    using that assms(2) by (metis nth_map)
  moreover have "length (exe_receipts ex) = length h" using assms(1) by (simp add: accounted_def)
  ultimately show ?thesis
    using accounted_cumulative_zero [OF assms(1) _ assms(4)] assms by (simp add: well_ordered_def)
qed

text \<open>The gas shown for the transactions after the system transactions is the gas of the block.\<close>

lemma shown_user_gas:
  assumes "accounted h ex" "well_ordered rb (exe_receipts ex)"
  shows "shown_gas (receipt_inputs api rb 0 0 0 (drop (sys_count rb) (with_receipts rb (exe_receipts ex)))) =
    unat (exe_gas_used ex)"
proof -
  let ?xs = "with_receipts rb (exe_receipts ex)" and ?n = "sys_count rb"
  let ?cum = "\<lambda>x :: (address \<times> transaction_signed) \<times> receipt. rc_cumulative_gas_used (snd x)"
  have len: "length ?xs = length (exe_receipts ex)" using assms(2) by (simp add: well_ordered_def)
  have "map snd ?xs = exe_receipts ex" using assms(2) by (simp add: well_ordered_def)
  from arg_cong [OF this, of "map rc_cumulative_gas_used"]
  have cum: "map ?cum ?xs = map rc_cumulative_gas_used (exe_receipts ex)" by (simp add: o_def)
  have "sorted (map ?cum ?xs)" unfolding cum by (rule accounted_sorted [OF assms(1)])
  then have "sorted (0 # map ?cum (drop ?n ?xs))" by (simp add: drop_map [symmetric] sorted_wrt_drop)
  from shown_gas_receipt_inputs [OF this, of api rb 0 0]
  have shown: "shown_gas (receipt_inputs api rb 0 0 0 (drop ?n ?xs)) = unat (last (0 # map ?cum (drop ?n ?xs)))"
    by simp
  show ?thesis
  proof (cases "?n < length ?xs")
    case True
    then have "last (0 # map ?cum (drop ?n ?xs)) = last (map ?cum ?xs)" by (rule last_map_drop)
    moreover have "exe_receipts ex \<noteq> []" using True len by auto
    ultimately show ?thesis using shown accounted_last [OF assms(1)] by (simp add: cum last_map)
  next
    case False
    then have "\<forall>i < length (exe_receipts ex). rc_cumulative_gas_used (exe_receipts ex ! i) = 0"
      using well_ordered_used_no_gas [OF assms(2)] len by auto
    then show ?thesis using shown False accounted_last [OF assms(1)] by (auto simp: last_conv_nth)
  qed
qed

text \<open>
  C1. A block on its way from a source to the RPC. Convert a block of a source whose
  system transactions have gas price zero and whose other transactions have not, execute
  it with all its transactions committed, and serve it with the receipts of the
  executor: the methods for system transactions and the standard methods return between
  them every receipt of the execution, in order and once; the first list has one receipt
  for each system transaction of the source, the second one for each of its other
  transactions, and the gas shown in the second adds up to the gas used by the block.
\<close>

theorem source_block_to_rpc:
  assumes "to_reth_block post chain b st = Returns (blk, st')" "bar_block b = Reth115 sb"
    and "\<forall>stx \<in> set (bar_system_txs b). raw_gas_price (sys_tx stx) = Some 0"
    and "\<forall>tx \<in> set (transactions (sb_body sb)). raw_gas_price (compat_transaction tx) \<noteq> Some 0"
    and "transact_within_gas_limit ops" "executor_reach ops env pm db (context_for_block blk) h ex"
    and "map fst h = block_txs blk" "\<forall>(tx, g) \<in> set h. \<not> is_system_transaction tx \<longrightarrow> g \<noteq> 0"
    and "serves api bid rb (exe_receipts ex)" "converts_each api conv" "rb_block rb = blk"
    and "length (rb_senders rb) = length (block_txs blk)" "length (block_txs blk) < 2 ^ 64"
  shows "\<exists>sys usr. get_system_txs_receipts_by_block_id api bid = Ok (Some (map conv sys)) \<and>
    block_receipts_handler api bid = Returns (Ok (Some (map conv usr))) \<and>
    map ci_receipt sys @ map ci_receipt usr = exe_receipts ex \<and>
    length sys = length (bar_system_txs b) \<and> length usr = length (transactions (sb_body sb)) \<and>
    shown_gas usr = unat (exe_gas_used ex)"
proof -
  have acc: "accounted h ex" using executor_reach_accounted [OF assms(6,5)] by simp
  have prefix: "prefix_closed is_system_transaction (block_txs blk)"
    and count: "sys_count rb = length (bar_system_txs b)"
    using to_reth_block_prefix [OF assms(1-4)] assms(11) by (simp_all add: sys_count_def)
  have ordered: "well_ordered rb (exe_receipts ex)"
    using assms(7,8,11-13) prefix by (intro executed_well_ordered [OF acc]) simp_all
  let ?xs = "with_receipts rb (exe_receipts ex)" and ?n = "sys_count rb"
  have "map snd ?xs = exe_receipts ex" using ordered by (simp add: well_ordered_def)
  then have "map snd (take ?n ?xs) @ map snd (drop ?n ?xs) = exe_receipts ex"
    by (metis append_take_drop_id map_append)
  moreover have "length (block_txs blk) = length (bar_system_txs b) + length (transactions (sb_body sb))"
    using to_reth_block_length [OF assms(1,2)] .
  moreover have "length ?xs = length (block_txs blk)" using ordered assms(11) by (simp add: well_ordered_def)
  ultimately show ?thesis
    using system_receipts_eq [OF assms(9,10) ordered] adjust_block_receipts_eq [OF assms(9,10) ordered]
      shown_user_gas [OF acc ordered, of api] count
    by (intro exI [of _ "receipt_inputs api rb 0 0 0 (take ?n ?xs)"] exI [of _ "receipt_inputs api rb 0 0 0 (drop ?n ?xs)"])
      (simp add: block_receipts_handler_def ci_receipts)
qed

text \<open>The example block, executed by the example EVM and served with the receipts of that run.\<close>

definition rpc_executor :: "u64 \<Rightarrow> receipt list \<Rightarrow> (address \<rightharpoonup> account_info) hl_block_executor" where
  "rpc_executor gas receipts = \<lparr>exe_env = example_env 5,
     exe_precompiles = replay_entry 5 (ctx_extras (context_for_block example_block)) Map.empty,
     exe_db = Map.empty, exe_gas_used = gas, exe_receipts = receipts, exe_ctx = context_for_block example_block\<rparr>"

definition rpc_history :: "(transaction_signed \<times> u64) list" where
  "rpc_history = map (\<lambda>tx. (tx, 21000)) (block_txs example_block)"

definition rpc_receipts :: "receipt list" where
  "rpc_receipts = exe_receipts example_executor_done"

definition rpc_api :: "(convert_receipt_input, unit, unit) eth_api" where
  "rpc_api = example_api\<lparr>api_load_block_and_receipts := (\<lambda>_. Ok (Some (example_rb, rpc_receipts)))\<rparr>"

lemmas rpc_simps = execute_eq rpc_executor_def example_env_def example_legacy_def example_ops_def after_commit_def
  build_receipt_def Let_def is_system_transaction_def into_inner_def MAINNET_PATCHES_AFTER_TX_def map_add_def

lemma rpc_executor_reach:
  "executor_reach example_ops (example_env 5) Map.empty Map.empty (context_for_block example_block)
     rpc_history (rpc_executor 21000 rpc_receipts)"
proof -
  let ?reach = "executor_reach example_ops (example_env 5) Map.empty Map.empty (context_for_block example_block)"
  let ?tx = "\<lambda>i. block_txs example_block ! i"
  have "\<not> is_warm 5" by (simp add: is_warm_def WARM_PRECOMPILES_BLOCK_NUMBER_def)
  then have "apply_precompiles 5 (ctx_extras (context_for_block example_block)) Map.empty =
      Returns (replay_entry 5 (ctx_extras (context_for_block example_block)) Map.empty)"
    by (intro apply_precompiles_eq) simp
  then have "?reach [] (rpc_executor 0 [])"
    by (intro created) (simp add: executor_new_def rpc_executor_def example_env_def)
  moreover have "execute_transaction_with_commit_condition example_ops (?tx 0) (\<lambda>_. True) (rpc_executor 0 []) =
      Returns (rpc_executor 0 [rpc_receipts ! 0], Ok (Some 21000))"
    by (simp add: rpc_simps example_block_def rpc_receipts_def example_executor_done_def)
  ultimately have "?reach ([] @ [(?tx 0, 21000)]) (rpc_executor 0 [rpc_receipts ! 0])" by (rule committed)
  moreover have "execute_transaction_with_commit_condition example_ops (?tx 1) (\<lambda>_. True)
      (rpc_executor 0 [rpc_receipts ! 0]) = Returns (rpc_executor 21000 rpc_receipts, Ok (Some 21000))"
    by (simp add: rpc_simps example_block_def rpc_receipts_def example_executor_done_def)
  ultimately have "?reach (([] @ [(?tx 0, 21000)]) @ [(?tx 1, 21000)]) (rpc_executor 21000 rpc_receipts)"
    by (rule committed)
  then show ?thesis by (simp add: rpc_history_def example_block_def)
qed

theorem source_block_to_rpc_witness:
  "\<exists>sys usr. get_system_txs_receipts_by_block_id rpc_api (IdHash 77) = Ok (Some (map id sys)) \<and>
    block_receipts_handler rpc_api (IdHash 77) = Returns (Ok (Some (map id usr))) \<and>
    length sys = 1 \<and> length usr = 1 \<and> shown_gas usr = 21000"
proof -
  have serves: "serves rpc_api (IdHash 77) example_rb (exe_receipts (rpc_executor 21000 rpc_receipts))"
    by (simp add: serves_def rpc_api_def example_api_def example_rb_def rpc_executor_def)
  have converts: "converts_each rpc_api id" using example_converts by (simp add: converts_each_def rpc_api_def)
  have block: "bar_block example_bar = Reth115 example_sealed" by (simp add: example_bar_def)
  have history: "map fst rpc_history = block_txs example_block" by (simp add: rpc_history_def o_def)
  have "\<exists>sys usr. get_system_txs_receipts_by_block_id rpc_api (IdHash 77) = Ok (Some (map id sys)) \<and>
    block_receipts_handler rpc_api (IdHash 77) = Returns (Ok (Some (map id usr))) \<and>
    map ci_receipt sys @ map ci_receipt usr = exe_receipts (rpc_executor 21000 rpc_receipts) \<and>
    length sys = length (bar_system_txs example_bar) \<and> length usr = length (transactions (sb_body example_sealed)) \<and>
    shown_gas usr = unat (exe_gas_used (rpc_executor 21000 rpc_receipts))"
    by (rule source_block_to_rpc [OF example_to_reth_block block _ _ example_gas_law rpc_executor_reach history _
          serves converts])
      (auto simp: example_bar_def example_sealed_def example_legacy_def rpc_history_def example_rb_def example_block_def)
  then show ?thesis by (auto simp: example_bar_def example_sealed_def rpc_executor_def)
qed

end
